(* ===== verification/C_Prelude.thy ===== *)
theory C_Prelude
  imports Main "HOL-Library.Word" "HOL-Library.Sublist"
begin

text \<open>
  The prelude of the development: what the C of this repository uses of the language and of
  libc, written once.

  \<^item> A run of C code that may touch memory it does not own is a value of \<open>'a result\<close>: \<open>Inr\<close> of
    what it computes, or \<open>Inl\<close> of the first thing that went wrong (\<open>c_error\<close>). \<open>bindE\<close>
    sequences such runs.
  \<^item> A block of memory is its list of bytes (\<open>buf\<close>); \<open>peek\<close>, \<open>poke\<close>, \<open>strcmp_buf\<close> and \<open>cstr\<close>
    check every access against its length. A C string is the \<open>string\<close> of the bytes before its
    terminator.
  \<^item> What \<open>malloc(n)\<close> really provides is a parameter \<open>U\<close> of the definitions that allocate: \<open>U n\<close>
    is the usable size of the block (\<open>malloc_usable_size\<close>), of which the C standard promises
    \<open>n \<le> U n\<close> (\<open>allocator\<close>) and no more.
  \<^item> \<open>show_int\<close> is \<open>printf\<close>'s \<open>%d\<close>, \<open>atoi\<close> is libc's, \<open>to_int32\<close> is the conversion to \<open>int\<close>.
\<close>

named_theorems c_mem \<open>rewriting of checked memory accesses\<close>

section \<open>Results\<close>

datatype c_error =
    Out_of_bounds    \<comment> \<open>a read or write outside the block a pointer points into\<close>
  | Null_deref       \<comment> \<open>a null pointer is dereferenced\<close>
  | Div_by_zero      \<comment> \<open>an integer division by zero\<close>
  | Aborted          \<comment> \<open>the program called abort() or exit(), or is killed by a signal\<close>
  | Blocked          \<comment> \<open>the call waits for bytes that nobody sends\<close>

type_synonym 'a result = "c_error + 'a"

definition bindE :: "'e + 'a \<Rightarrow> ('a \<Rightarrow> 'e + 'b) \<Rightarrow> 'e + 'b" where
  "bindE m f = (case m of Inl e \<Rightarrow> Inl e | Inr x \<Rightarrow> f x)"

lemma bindE_simps [simp]:
  "bindE (Inl e) f = Inl e"
  "bindE (Inr x) f = f x"
  by (simp_all add: bindE_def)

lemma bindE_Inr_iff: "bindE m f = Inr y \<longleftrightarrow> (\<exists>x. m = Inr x \<and> f x = Inr y)"
  by (cases m) simp_all

lemma bindE_assoc: "bindE (bindE m f) g = bindE m (\<lambda>x. bindE (f x) g)"
  by (cases m) simp_all

text \<open>
  What holds of the value of a run, when it has one. The rules take a run apart along its calls.
\<close>

definition returns :: "'e + 'a \<Rightarrow> ('a \<Rightarrow> bool) \<Rightarrow> bool" where
  "returns m Q \<longleftrightarrow> (\<forall>x. m = Inr x \<longrightarrow> Q x)"

lemma returns_simps [simp]:
  "returns (Inl e) Q"
  "returns (Inr x) Q = Q x"
  "returns (bindE m f) Q = returns m (\<lambda>x. returns (f x) Q)"
  by (auto simp: returns_def bindE_Inr_iff)

lemma returnsI: "(\<And>x. m = Inr x \<Longrightarrow> Q x) \<Longrightarrow> returns m Q"
  by (simp add: returns_def)

lemma returnsD: "returns m Q \<Longrightarrow> m = Inr x \<Longrightarrow> Q x"
  by (simp add: returns_def)

section \<open>Memory\<close>

type_synonym buf = "char list"

abbreviation ZERO :: char where "ZERO \<equiv> CHR 0x00"

abbreviation NEWLINE :: char where "NEWLINE \<equiv> CHR 0x0A"

text \<open>The promise of the allocator: a block of at least the size asked for.\<close>

definition allocator :: "(nat \<Rightarrow> nat) \<Rightarrow> bool" where
  "allocator U \<longleftrightarrow> (\<forall>n. n \<le> U n)"

text \<open>The usable sizes of the strictest allocator: exactly what was asked for.\<close>

definition exact_size :: "nat \<Rightarrow> nat" where
  "exact_size n = n"

text \<open>A usual 64-bit allocator: 16-byte granules, 8 bytes of header, at least 24 bytes.\<close>

definition granule_size :: "nat \<Rightarrow> nat" where
  "granule_size n = (if n \<le> 24 then 24 else 24 + 16 * ((n - 24 + 15) div 16))"

lemma allocatorD [c_mem]: "allocator U \<Longrightarrow> n \<le> U n"
  by (simp add: allocator_def)

lemma allocator_less: "allocator U \<Longrightarrow> k < n \<Longrightarrow> k < U n"
  using allocatorD [of U n] by simp

lemma allocator_exact [simp]: "allocator exact_size"
  by (simp add: allocator_def exact_size_def)

lemma allocator_granule [simp]: "allocator granule_size"
proof -
  have "n \<le> granule_size n" for n
    unfolding granule_size_def by presburger
  then show ?thesis by (simp add: allocator_def)
qed

definition peek :: "buf \<Rightarrow> nat \<Rightarrow> char result" where
  "peek b i = (if i < length b then Inr (b ! i) else Inl Out_of_bounds)"

definition poke :: "buf \<Rightarrow> nat \<Rightarrow> char \<Rightarrow> buf result" where
  "poke b i c = (if i < length b then Inr (b[i := c]) else Inl Out_of_bounds)"

text \<open>The C string a block holds: the bytes before the first terminator, if there is one.\<close>

definition cstr :: "buf \<Rightarrow> string result" where
  "cstr b = (if ZERO \<in> set b then Inr (takeWhile (\<lambda>c. c \<noteq> ZERO) b) else Inl Out_of_bounds)"

text \<open>\<open>strcmp(a, b) == 0\<close>: reads both blocks up to the first difference or terminator.\<close>

fun strcmp_buf :: "buf \<Rightarrow> buf \<Rightarrow> bool result" where
  "strcmp_buf [] _ = Inl Out_of_bounds"
| "strcmp_buf (_ # _) [] = Inl Out_of_bounds"
| "strcmp_buf (x # xs) (y # ys) =
     (if x \<noteq> y then Inr False else if x = ZERO then Inr True else strcmp_buf xs ys)"

text \<open>
  \<open>malloc(n)\<close> followed by a \<open>sprintf\<close> that prints \<open>s\<close> and its terminator: it stays inside the
  block when the terminator does.
\<close>

definition sprintf_into :: "(nat \<Rightarrow> nat) \<Rightarrow> nat \<Rightarrow> string \<Rightarrow> string result" where
  "sprintf_into U n s = (if length s < U n then Inr s else Inl Out_of_bounds)"

definition nul_free :: "string \<Rightarrow> bool" where
  "nul_free s \<longleftrightarrow> ZERO \<notin> set s"

lemma nul_free_simps [simp]:
  "nul_free []"
  "nul_free (c # s) \<longleftrightarrow> c \<noteq> ZERO \<and> nul_free s"
  "nul_free (s @ t) \<longleftrightarrow> nul_free s \<and> nul_free t"
  by (auto simp: nul_free_def)

lemma takeWhile_nul_free: "nul_free s \<Longrightarrow> takeWhile (\<lambda>c. c \<noteq> ZERO) (s @ ZERO # t) = s"
  by (induction s) simp_all

lemma cstr_append [c_mem]: "nul_free s \<Longrightarrow> cstr (s @ ZERO # t) = Inr s"
  by (simp add: cstr_def takeWhile_nul_free)

lemma cstr_no_terminator: "nul_free s \<Longrightarrow> cstr s = Inl Out_of_bounds"
  by (simp add: cstr_def nul_free_def)

lemma strcmp_buf_strings [c_mem]:
  "nul_free s \<Longrightarrow> nul_free t \<Longrightarrow> strcmp_buf (s @ ZERO # xs) (t @ ZERO # ys) = Inr (s = t)"
proof (induction s arbitrary: t)
  case Nil
  then show ?case by (cases t) auto
next
  case (Cons c s)
  then show ?case by (cases t) auto
qed

lemma sprintf_into_Inr [c_mem]: "length s < U n \<Longrightarrow> sprintf_into U n s = Inr s"
  by (simp add: sprintf_into_def)

lemma sprintf_into_fits [c_mem]: "allocator U \<Longrightarrow> length s < n \<Longrightarrow> sprintf_into U n s = Inr s"
  using allocatorD [of U n] by (simp add: sprintf_into_def)

lemma sprintf_into_exact: "sprintf_into exact_size n s = (if length s < n then Inr s else Inl Out_of_bounds)"
  by (simp add: sprintf_into_def exact_size_def)

lemma bindE_cong [fundef_cong]:
  "m = m' \<Longrightarrow> (\<And>x. m' = Inr x \<Longrightarrow> f x = g x) \<Longrightarrow> bindE m f = bindE m' g"
  by (cases m') simp_all

end
