(* ===== verification/C_Text.thy ===== *)
theory C_Text
  imports C_Prelude
begin

text \<open>
  Decimal text: what \<open>sprintf\<close> prints for \<open>%d\<close> and what \<open>atoi\<close> reads back, and the conversions
  between C's \<open>int\<close>, \<open>size_t\<close> and \<open>unsigned char\<close>. The lemmas of the section are the ones the
  components share: printed numbers consist of digits, have the length the buffers are sized
  for, and are read back unchanged.
\<close>

named_theorems c_text \<open>facts about printed numbers\<close>

section \<open>Digits\<close>

definition digit_char :: "nat \<Rightarrow> char" where
  "digit_char d = char_of (48 + d)"

definition is_digit :: "char \<Rightarrow> bool" where
  "is_digit c \<longleftrightarrow> 48 \<le> (of_char c :: nat) \<and> (of_char c :: nat) \<le> 57"

definition digit_val :: "char \<Rightarrow> nat" where
  "digit_val c = of_char c - 48"

lemma of_char_digit_char: "d < 10 \<Longrightarrow> (of_char (digit_char d) :: nat) = 48 + d"
  by (simp add: digit_char_def)

lemma digit_char_digit [c_text]: "d < 10 \<Longrightarrow> is_digit (digit_char d)"
  by (simp add: is_digit_def of_char_digit_char)

lemma digit_val_char [simp]: "d < 10 \<Longrightarrow> digit_val (digit_char d) = d"
  by (simp add: digit_val_def of_char_digit_char)

lemma digit_val_less: "is_digit c \<Longrightarrow> digit_val c < 10"
  by (auto simp: is_digit_def digit_val_def)

lemma digit_char_val: "is_digit c \<Longrightarrow> digit_char (digit_val c) = c"
  by (simp add: is_digit_def digit_val_def digit_char_def)

lemma is_digit_neq [c_text]:
  "is_digit c \<Longrightarrow> c \<noteq> ZERO"
  "is_digit c \<Longrightarrow> c \<noteq> CHR ''_''"
  "is_digit c \<Longrightarrow> c \<noteq> CHR ''-''"
  "is_digit c \<Longrightarrow> c \<noteq> CHR ''+''"
  "is_digit c \<Longrightarrow> c \<noteq> CHR '' ''"
  "is_digit c \<Longrightarrow> c \<noteq> CHR '';''"
  "is_digit c \<Longrightarrow> c \<noteq> CHR 0x22"
  by (auto simp: is_digit_def)

section \<open>Printing\<close>

fun show_nat :: "nat \<Rightarrow> string" where
  "show_nat n = (if n < 10 then [digit_char n] else show_nat (n div 10) @ [digit_char (n mod 10)])"

declare show_nat.simps [simp del]

text \<open>\<open>printf("%d", i)\<close>\<close>

definition show_int :: "int \<Rightarrow> string" where
  "show_int i = (if i < 0 then CHR ''-'' # show_nat (nat (- i)) else show_nat (nat i))"

lemma show_nat_digits [c_text]: "c \<in> set (show_nat n) \<Longrightarrow> is_digit c"
proof (induction n rule: show_nat.induct)
  case (1 n)
  then show ?case
    by (cases "n < 10") (auto simp: show_nat.simps [of n] digit_char_digit)
qed

lemma show_nat_not_Nil [simp]: "show_nat n \<noteq> []"
  by (subst show_nat.simps) simp

lemma show_int_not_Nil [simp]: "show_int i \<noteq> []"
  by (simp add: show_int_def)

lemma show_int_chars: "c \<in> set (show_int i) \<Longrightarrow> is_digit c \<or> c = CHR ''-''"
  by (auto simp: show_int_def show_nat_digits split: if_splits)

lemma nul_free_show_nat [simp]: "nul_free (show_nat n)"
  by (auto simp: nul_free_def dest: show_nat_digits is_digit_neq(1))

lemma nul_free_show_int [simp]: "nul_free (show_int i)"
  by (simp add: show_int_def)

lemma length_show_nat_bound: "n < 10 ^ Suc k \<Longrightarrow> length (show_nat n) \<le> Suc k"
proof (induction k arbitrary: n)
  case 0
  then show ?case by (simp add: show_nat.simps)
next
  case (Suc k)
  show ?case
  proof (cases "n < 10")
    case False
    from Suc.prems have "n div 10 < 10 ^ Suc k"
      by (simp add: less_mult_imp_div_less)
    with Suc.IH [of "n div 10"] False show ?thesis
      by (subst show_nat.simps) simp
  qed (simp add: show_nat.simps)
qed

lemma length_show_nat: "10 ^ k \<le> n \<Longrightarrow> n < 10 ^ Suc k \<Longrightarrow> length (show_nat n) = Suc k"
proof (induction k arbitrary: n)
  case 0
  then show ?case by (simp add: show_nat.simps)
next
  case (Suc k)
  from Suc.prems have le: "10 ^ k \<le> n div 10"
    by (simp add: less_eq_div_iff_mult_less_eq mult.commute)
  from Suc.prems have lt: "n div 10 < 10 ^ Suc k"
    by (simp add: less_mult_imp_div_less)
  have "(1::nat) \<le> 10 ^ k" by simp
  with Suc.prems(1) have "\<not> n < 10" by (simp only: power_Suc)
  with Suc.IH [OF le lt] show ?case
    by (subst show_nat.simps) simp
qed

section \<open>Reading\<close>

text \<open>The value of a run of digits, continuing from \<open>acc\<close>.\<close>

fun digits_val :: "nat \<Rightarrow> string \<Rightarrow> nat" where
  "digits_val acc [] = acc"
| "digits_val acc (c # cs) = (if is_digit c then digits_val (10 * acc + digit_val c) cs else acc)"

lemma digits_val_append:
  "(\<And>c. c \<in> set s \<Longrightarrow> is_digit c) \<Longrightarrow> digits_val acc (s @ t) = digits_val (digits_val acc s) t"
  by (induction s arbitrary: acc) simp_all

lemma digits_val_show_nat: "digits_val 0 (show_nat n) = n"
proof (induction n rule: show_nat.induct)
  case (1 n)
  show ?case
  proof (cases "n < 10")
    case True
    then show ?thesis by (simp add: show_nat.simps digit_char_digit)
  next
    case False
    with 1 show ?thesis
      by (subst show_nat.simps)
        (simp add: digits_val_append [OF show_nat_digits] digit_char_digit)
  qed
qed

lemma digits_val_stop: "\<not> is_digit c \<Longrightarrow> digits_val 0 (show_nat n @ c # t) = n"
  by (simp add: digits_val_append [OF show_nat_digits] digits_val_show_nat)

lemma show_nat_inject [simp]: "show_nat m = show_nat n \<longleftrightarrow> m = n"
  using digits_val_show_nat by metis

text \<open>White space as \<open>isspace\<close> of the C locale has it.\<close>

definition is_space :: "char \<Rightarrow> bool" where
  "is_space c \<longleftrightarrow> c \<in> {CHR '' '', CHR 0x09, CHR 0x0A, CHR 0x0B, CHR 0x0C, CHR 0x0D}"

text \<open>The value of an \<open>int\<close> conversion: the 32 low bits, in two's complement.\<close>

definition to_int32 :: "int \<Rightarrow> int" where
  "to_int32 x = (x + 2 ^ 31) mod 2 ^ 32 - 2 ^ 31"

definition int32 :: "int \<Rightarrow> bool" where
  "int32 x \<longleftrightarrow> - (2 ^ 31) \<le> x \<and> x < 2 ^ 31"

text \<open>
  \<open>atoi\<close> is \<open>(int) strtol(s, NULL, 10)\<close>: white space, a sign, digits; \<open>strtol\<close> saturates at
  the bounds of \<open>long\<close>.
\<close>

definition clamp64 :: "int \<Rightarrow> int" where
  "clamp64 x = max (- (2 ^ 63)) (min (2 ^ 63 - 1) x)"

definition atoi :: "string \<Rightarrow> int" where
  "atoi s =
     (case dropWhile is_space s of
        [] \<Rightarrow> 0
      | c # cs \<Rightarrow>
          to_int32 (clamp64
            (if c = CHR ''-'' then - int (digits_val 0 cs)
             else if c = CHR ''+'' then int (digits_val 0 cs)
             else int (digits_val 0 (c # cs)))))"

lemma to_int32_id [simp]: "int32 x \<Longrightarrow> to_int32 x = x"
  by (simp add: int32_def to_int32_def)

lemma to_int32_range [simp]: "int32 (to_int32 x)"
proof -
  have "0 \<le> (x + 2 ^ 31) mod 2 ^ 32 \<and> (x + 2 ^ 31) mod 2 ^ 32 < 2 ^ 32"
    by simp
  then show ?thesis by (simp add: int32_def to_int32_def)
qed

lemma to_int32_sint: "to_int32 x = sint (word_of_int x :: 32 word)"
  by (simp add: to_int32_def sint_sbintrunc' signed_take_bit_eq_take_bit_shift take_bit_eq_mod)

lemma is_digit_not_space: "is_digit c \<Longrightarrow> \<not> is_space c"
  by (auto simp: is_digit_def is_space_def)

lemma clamp64_int32: "int32 x \<Longrightarrow> clamp64 x = x"
  by (simp add: int32_def clamp64_def)

lemma atoi_digits:
  assumes "s = show_nat n @ t" and "t = [] \<or> \<not> is_digit (hd t)" and "int32 (int n)"
  shows "atoi s = int n"
proof -
  obtain c cs where s: "show_nat n = c # cs"
    by (cases "show_nat n") simp_all
  then have c: "is_digit c" using show_nat_digits [of c n] by simp
  have "digits_val 0 (show_nat n @ t) = n"
    using assms(2) digits_val_stop [of "hd t" n "tl t"]
    by (cases t) (simp_all add: digits_val_show_nat)
  with s c show ?thesis
    using assms(3) is_digit_neq [OF c]
    by (simp add: assms(1) atoi_def is_digit_not_space clamp64_int32)
qed

lemma atoi_show_int [simp]: "int32 i \<Longrightarrow> atoi (show_int i) = i"
proof (cases "i < 0")
  case True
  assume "int32 i"
  with True show ?thesis
    by (simp add: atoi_def show_int_def is_space_def digits_val_show_nat clamp64_int32)
next
  case False
  assume "int32 i"
  with False show ?thesis
    using atoi_digits [of "show_nat (nat i)" "nat i" "[]"] by (simp add: show_int_def)
qed

text \<open>\<open>int\<close> to \<open>size_t\<close> and back, and to \<open>unsigned char\<close>.\<close>

definition size_of_int :: "int \<Rightarrow> nat" where
  "size_of_int i = nat (i mod 2 ^ 64)"

lemma size_of_int_nat [simp]: "n < 2 ^ 64 \<Longrightarrow> size_of_int (int n) = n"
  by (simp add: size_of_int_def)

end
