(* ===== verification/File_Utils.thy ===== *)
theory File_Utils
  imports C_Text
begin

text \<open>
  \<open>lib/file_utils/file_utils.c\<close>: the byte-wise writers every message goes through, reading and
  writing whole files, the three-digit text encoding files travel in, and waiting for a file. The file system is the
  record \<open>disk\<close>; a null pointer with \<open>errno\<close> set is an \<open>Inl\<close> of that number.
\<close>

section \<open>Byte-wise writers\<close>

text \<open>
  The bytes \<open>write\<close> is called with, one at a time, while \<open>written\<close> runs below \<open>size\<close> and the
  terminator is not met.
\<close>

function write_loop :: "buf \<Rightarrow> nat \<Rightarrow> nat \<Rightarrow> string \<Rightarrow> string result" where
  "write_loop data sz written out =
     (if written < sz then
        bindE (peek data written) (\<lambda>c.
          if c \<noteq> ZERO then write_loop data sz (Suc written) (out @ [c]) else Inr out)
      else Inr out)"
  by pat_completeness auto
termination
  by (relation "measure (\<lambda>(data, sz, written, out). sz - written)") auto

declare write_loop.simps [simp del]

definition write_one_by_one_without_zero :: "buf \<Rightarrow> nat \<Rightarrow> string result" where
  "write_one_by_one_without_zero data sz = write_loop data sz 0 []"

definition write_one_by_one :: "buf \<Rightarrow> nat \<Rightarrow> string result" where
  "write_one_by_one data sz =
     bindE (write_loop data sz 0 []) (\<lambda>out. Inr (out @ [ZERO]))"

lemma write_loop_string:
  "nul_free s \<Longrightarrow> written \<le> length s \<Longrightarrow>
   write_loop (s @ ZERO # t) sz written out =
     Inr (out @ take (sz - written) (drop written s))"
proof (induction "length s - written" arbitrary: written out)
  case 0
  then show ?case
    by (subst write_loop.simps) (simp add: peek_def nth_append)
next
  case (Suc k)
  then have lt: "written < length s" by simp
  then have d: "drop written s = s ! written # drop (Suc written) s"
    by (simp add: Cons_nth_drop_Suc)
  from lt Suc.prems have nz: "s ! written \<noteq> ZERO"
    by (metis nth_mem nul_free_def)
  show ?case
  proof (cases "written < sz")
    case True
    with lt nz Suc show ?thesis
      by (subst write_loop.simps)
        (simp add: peek_def nth_append d take_Cons' Suc_diff_Suc [symmetric])
  next
    case False
    then show ?thesis by (subst write_loop.simps) simp
  qed
qed

lemma write_without_zero_string [c_mem]:
  "nul_free s \<Longrightarrow> write_one_by_one_without_zero (s @ ZERO # t) sz = Inr (take sz s)"
  by (simp add: write_one_by_one_without_zero_def write_loop_string)

lemma write_one_by_one_string [c_mem]:
  "nul_free s \<Longrightarrow> write_one_by_one (s @ ZERO # t) sz = Inr (take sz s @ [ZERO])"
  by (simp add: write_one_by_one_def write_loop_string)

section \<open>Files\<close>

text \<open>
  The file system as the program sees it: what each path holds, whether \<open>fopen(path, "w")\<close>
  succeeds, and how many bytes the next calls of \<open>fwrite\<close> accept before it takes everything.
\<close>

record disk =
  files :: "string \<Rightarrow> string option"
  can_create :: "string \<Rightarrow> bool"
  short_writes :: "nat list"

definition ERR_FILE_NOT_OPENED :: int where "ERR_FILE_NOT_OPENED = 9000"

definition FILE_OK :: int where "FILE_OK = 0"

definition path_exists :: "disk \<Rightarrow> string \<Rightarrow> bool" where
  "path_exists d path \<longleftrightarrow> files d path \<noteq> None"

definition raw_data_from_file :: "disk \<Rightarrow> string \<Rightarrow> int + (buf \<times> nat)" where
  "raw_data_from_file d path =
     (case files d path of
        None \<Rightarrow> Inl ERR_FILE_NOT_OPENED
      | Some contents \<Rightarrow> Inr (contents @ [ZERO], length contents))"

text \<open>The \<open>do ... while\<close> around \<open>fwrite\<close>: each call takes what the system accepts of the rest.\<close>

function fwrite_loop :: "buf \<Rightarrow> nat \<Rightarrow> nat \<Rightarrow> string \<Rightarrow> nat list \<Rightarrow> string \<times> nat list" where
  "fwrite_loop data sz written out ks =
     (let n = (case ks of [] \<Rightarrow> sz - written | k # _ \<Rightarrow> min k (sz - written));
          out' = out @ take n (drop written data)
      in if written + n < sz then fwrite_loop data sz (written + n) out' (tl ks)
         else (out', tl ks))"
  by pat_completeness auto
termination
  by (relation "measure (\<lambda>(data, sz, written, out, ks). length ks)") (auto split: list.splits)

declare fwrite_loop.simps [simp del]

definition file_from_raw_data :: "disk \<Rightarrow> string \<Rightarrow> buf \<Rightarrow> nat \<Rightarrow> (int \<times> disk) result" where
  "file_from_raw_data d path data sz =
     (if \<not> can_create d path then Inr (ERR_FILE_NOT_OPENED, d)
      else if length data < sz then Inl Out_of_bounds
      else (let (contents, ks) = fwrite_loop data sz 0 [] (short_writes d)
            in Inr (FILE_OK, d\<lparr>files := (files d)(path \<mapsto> contents), short_writes := ks\<rparr>)))"

lemma fwrite_loop_all:
  "written \<le> sz \<Longrightarrow> sz \<le> length data \<Longrightarrow>
   fst (fwrite_loop data sz written out ks) = out @ take (sz - written) (drop written data)"
proof (induction data sz written out ks rule: fwrite_loop.induct)
  case (1 data sz written out ks)
  define n where "n = (case ks of [] \<Rightarrow> sz - written | k # _ \<Rightarrow> min k (sz - written))"
  have n: "n \<le> sz - written" by (simp add: n_def split: list.splits)
  have eq: "fwrite_loop data sz written out ks =
      (if written + n < sz
       then fwrite_loop data sz (written + n) (out @ take n (drop written data)) (tl ks)
       else (out @ take n (drop written data), tl ks))"
    by (subst fwrite_loop.simps) (simp add: Let_def n_def)
  show ?case
  proof (cases "written + n < sz")
    case True
    have "fst (fwrite_loop data sz (written + n) (out @ take n (drop written data)) (tl ks)) =
          (out @ take n (drop written data)) @ take (sz - (written + n)) (drop (written + n) data)"
      using "1.IH" [OF n_def refl] True "1.prems" by simp
    moreover have "take n (drop written data) @ take (sz - (written + n)) (drop (written + n) data) =
          take (sz - written) (drop written data)"
      using True take_add [of n "sz - (written + n)" "drop written data"]
      by (simp add: add.commute)
    ultimately show ?thesis using True eq by simp
  next
    case False
    with n have "n = sz - written" by simp
    with False eq show ?thesis by simp
  qed
qed

section \<open>Raw data as decimal text\<close>

text \<open>\<open>sprintf(tmp, "%03d", c)\<close> for a byte.\<close>

definition byte_text :: "char \<Rightarrow> string" where
  "byte_text c = (let n = of_char c in
     [digit_char (n div 100), digit_char (n div 10 mod 10), digit_char (n mod 10)])"

text \<open>
  The loop of \<open>encode_raw_data\<close>: \<open>tmp\<close> has three bytes and is printed four (three digits and a
  terminator); \<open>output\<close> has \<open>size * 3 + 2\<close>.
\<close>

function encode_loop :: "(nat \<Rightarrow> nat) \<Rightarrow> buf \<Rightarrow> nat \<Rightarrow> nat \<Rightarrow> string \<Rightarrow> string result" where
  "encode_loop U data sz wrote out =
     (if wrote < sz then
        bindE (peek data wrote) (\<lambda>c.
        bindE (sprintf_into U 3 (byte_text c)) (\<lambda>tmp.
        bindE (sprintf_into U (sz * 3 + 2) (out @ take 3 tmp)) (\<lambda>out'.
        encode_loop U data sz (Suc wrote) out')))
      else Inr out)"
  by pat_completeness auto
termination
  by (relation "measure (\<lambda>(U, data, sz, wrote, out). sz - wrote)") auto

declare encode_loop.simps [simp del]

text \<open>\<open>None\<close> is a null \<open>data\<close>.\<close>

definition encode_raw_data :: "(nat \<Rightarrow> nat) \<Rightarrow> buf option \<Rightarrow> nat \<Rightarrow> string result" where
  "encode_raw_data U data sz =
     (case data of
        None \<Rightarrow> (if 0 < sz then Inl Null_deref else Inr [])
      | Some d \<Rightarrow> encode_loop U d sz 0 [])"

text \<open>\<open>data[i] - '0'\<close>, \<open>char\<close> being signed.\<close>

definition char_minus_0 :: "char \<Rightarrow> int" where
  "char_minus_0 c = (let n = int (of_char c) in (if 128 \<le> n then n - 256 else n) - 48)"

definition decode_triple :: "buf \<Rightarrow> nat \<Rightarrow> char result" where
  "decode_triple data i =
     bindE (peek data i) (\<lambda>a.
     bindE (peek data (i + 1)) (\<lambda>b.
     bindE (peek data (i + 2)) (\<lambda>c.
     Inr (char_of (nat ((char_minus_0 a * 100 + char_minus_0 b * 10 + char_minus_0 c) mod 256))))))"

text \<open>The \<open>for\<close> loop of \<open>decode_to_raw_data\<close>: the filled block and the final \<open>i\<close>.\<close>

function decode_loop :: "buf \<Rightarrow> nat \<Rightarrow> nat \<Rightarrow> buf \<Rightarrow> (buf \<times> nat) result" where
  "decode_loop data len i res =
     (if i < len then
        bindE (decode_triple data i) (\<lambda>ascii.
        bindE (poke res (i div 3) ascii) (\<lambda>res'.
        decode_loop data len (i + 3) res'))
      else Inr (res, i))"
  by pat_completeness auto
termination
  by (relation "measure (\<lambda>(data, len, i, res). len - i)") auto

declare decode_loop.simps [simp del]

text \<open>
  \<open>junk\<close> is what a fresh block holds. The terminator is stored at \<open>result[i]\<close>, \<open>i\<close> counting the
  digits and not the decoded bytes.
\<close>

definition decode_to_raw_data :: "(nat \<Rightarrow> nat) \<Rightarrow> char \<Rightarrow> buf \<Rightarrow> buf result" where
  "decode_to_raw_data U junk data =
     bindE (cstr data) (\<lambda>s.
     (let len = length s;
          res = replicate (U (len div 3 + 1)) junk
      in bindE (decode_loop data len 0 res) (\<lambda>(res', i). poke res' i ZERO)))"

subsection \<open>Encoding\<close>

abbreviation raw_text :: "string \<Rightarrow> string" where
  "raw_text d \<equiv> concat (map byte_text d)"

lemma length_byte_text [simp]: "length (byte_text c) = 3"
  by (simp add: byte_text_def Let_def)

lemma length_raw_text [simp]: "length (raw_text d) = 3 * length d"
  by (induction d) simp_all

lemma byte_text_digits: "x \<in> set (byte_text c) \<Longrightarrow> is_digit x"
proof -
  have "(of_char c :: nat) < 256" by simp
  then have "(of_char c :: nat) div 100 < 10" by linarith
  then show "x \<in> set (byte_text c) \<Longrightarrow> is_digit x"
    by (auto simp: byte_text_def Let_def digit_char_digit)
qed

lemma raw_text_digits: "x \<in> set (raw_text d) \<Longrightarrow> is_digit x"
  by (auto dest: byte_text_digits)

lemma nul_free_raw_text [simp]: "nul_free (raw_text d)"
  using raw_text_digits is_digit_neq(1) by (auto simp: nul_free_def)

lemma encode_loop_text:
  assumes "3 < U 3" and "allocator U" and "sz \<le> length data"
  shows "wrote \<le> sz \<Longrightarrow> length out = 3 * wrote \<Longrightarrow>
    encode_loop U data sz wrote out = Inr (out @ raw_text (drop wrote (take sz data)))"
proof (induction "sz - wrote" arbitrary: wrote out)
  case 0
  then show ?case by (subst encode_loop.simps) simp
next
  case (Suc k)
  then have lt: "wrote < sz" by simp
  with assms(3) have d: "drop wrote (take sz data) = data ! wrote # drop (Suc wrote) (take sz data)"
    by (simp add: Cons_nth_drop_Suc [symmetric])
  let ?out = "out @ byte_text (data ! wrote)"
  have t: "sprintf_into U 3 (byte_text c) = Inr (byte_text c)" for c
    using assms(1) by (simp add: sprintf_into_def)
  have o: "sprintf_into U (sz * 3 + 2) ?out = Inr ?out"
    using lt Suc.prems assms(2) by (intro sprintf_into_fits) simp_all
  have "encode_loop U data sz (Suc wrote) ?out = Inr (?out @ raw_text (drop (Suc wrote) (take sz data)))"
    using lt Suc by (intro Suc.hyps(1)) simp_all
  with lt assms(3) t o show ?case
    by (subst encode_loop.simps) (simp add: peek_def d)
qed

lemma encode_raw_data_text:
  assumes "allocator U" and "3 < U 3" and "sz \<le> length data"
  shows "encode_raw_data U (Some data) sz = Inr (raw_text (take sz data))"
  using encode_loop_text [OF assms(2,1,3), of 0 "[]"] by (simp add: encode_raw_data_def)

subsection \<open>Decoding\<close>

lemma char_minus_0_digit: "m < 10 \<Longrightarrow> char_minus_0 (digit_char m) = int m"
proof -
  assume m: "m < 10"
  then show ?thesis by (simp add: char_minus_0_def of_char_digit_char)
qed

lemma raw_text_nth:
  "k < length d \<Longrightarrow> j < 3 \<Longrightarrow> (raw_text d @ t) ! (3 * k + j) = byte_text (d ! k) ! j"
proof (induction d arbitrary: k)
  case Nil
  then show ?case by simp
next
  case (Cons c d)
  then show ?case by (cases k) (simp_all add: nth_append)
qed

lemma decode_triple_text:
  assumes "k < length d"
  shows "decode_triple (raw_text d @ t) (3 * k) = Inr (d ! k)"
proof -
  define n where "n = (of_char (d ! k) :: nat)"
  have n: "n < 256" by (simp add: n_def)
  have at: "(raw_text d @ t) ! (3 * k) = digit_char (n div 100)"
    "(raw_text d @ t) ! (3 * k + 1) = digit_char (n div 10 mod 10)"
    "(raw_text d @ t) ! (3 * k + 2) = digit_char (n mod 10)"
    using raw_text_nth [OF assms, of 0 t] raw_text_nth [OF assms, of 1 t]
      raw_text_nth [OF assms, of 2 t]
    by (simp_all add: byte_text_def Let_def n_def)
  have len: "3 * k + 2 < length (raw_text d @ t)" using assms by simp
  have "n div 100 < 10" using n by linarith
  then have "char_minus_0 (digit_char (n div 100)) * 100 +
      char_minus_0 (digit_char (n div 10 mod 10)) * 10 + char_minus_0 (digit_char (n mod 10)) =
      int (n div 100 * 100 + n div 10 mod 10 * 10 + n mod 10)"
    by (simp add: char_minus_0_digit)
  also have "n div 100 * 100 + n div 10 mod 10 * 10 + n mod 10 = n"
  proof -
    have "n div 100 = n div 10 div 10" by (simp add: div_mult2_eq [symmetric])
    then show ?thesis
      using div_mult_mod_eq [of "n div 10" 10] div_mult_mod_eq [of n 10] by linarith
  qed
  finally have "decode_triple (raw_text d @ t) (3 * k) = Inr (char_of (nat (int n mod 256)))"
    using len by (simp add: decode_triple_def peek_def at [simplified])
  moreover have "char_of (nat (int n mod 256)) = d ! k"
    using n by (simp add: n_def)
  ultimately show ?thesis by simp
qed

lemma decode_loop_fills:
  assumes "\<And>k. k < length d \<Longrightarrow> decode_triple data (3 * k) = Inr (d ! k)"
    "len \<le> 3 * length d" "3 * length d < len + 3"
  shows "k \<le> length d \<Longrightarrow> length d \<le> length res \<Longrightarrow>
    decode_loop data len (3 * k) res = Inr (take k res @ drop k d @ drop (length d) res, 3 * length d)"
proof (induction "length d - k" arbitrary: k res)
  case 0
  then show ?case using assms(2) by (subst decode_loop.simps) simp
next
  case (Suc m)
  then have k: "k < length d" by simp
  let ?res = "res[k := d ! k]"
  have "decode_loop data len (3 * k + 3) ?res =
      Inr (take (Suc k) ?res @ drop (Suc k) d @ drop (length d) ?res, 3 * length d)"
    using Suc.hyps(1) [of "Suc k" ?res] Suc.hyps(2) Suc.prems k by (simp add: add.commute)
  also have "take (Suc k) ?res = take k res @ [d ! k]"
    using k Suc.prems by (simp add: take_Suc_conv_app_nth)
  finally have "decode_loop data len (3 * k + 3) ?res =
      Inr (take k res @ drop k d @ drop (length d) res, 3 * length d)"
    using k by (simp add: Cons_nth_drop_Suc)
  then show ?case
    using k Suc.prems assms(1) [OF k] assms(3) by (subst decode_loop.simps) (simp add: poke_def)
qed

lemma decode_loop_text:
  assumes "k \<le> length d" "length d \<le> length res"
  shows "decode_loop (raw_text d @ ZERO # t) (3 * length d) (3 * k) res =
    Inr (take k res @ drop k d @ drop (length d) res, 3 * length d)"
  by (rule decode_loop_fills [OF decode_triple_text _ _ assms]) simp_all

text \<open>The decoder on well-formed text: where the block is, decides what happens.\<close>

lemma decode_raw_text:
  assumes "allocator U"
  shows "decode_to_raw_data U junk (raw_text d @ ZERO # t) =
    (if 3 * length d < U (length d + 1)
     then Inr ((d @ drop (length d) (replicate (U (length d + 1)) junk))[3 * length d := ZERO])
     else Inl Out_of_bounds)"
proof -
  have len: "length d \<le> U (length d + 1)"
    using allocatorD [OF assms, of "length d + 1"] by simp
  show ?thesis
    using decode_loop_text [of 0 d "replicate (U (length d + 1)) junk" t] len
    by (simp add: decode_to_raw_data_def cstr_append Let_def poke_def)
qed

section \<open>Properties\<close>

text \<open>
  C34: a file survives the text encoding it travels in: decoding the encoded bytes gives them back,
  for every byte value, when the decoder's block is roomy enough for where the decoder stores its
  terminator.
\<close>

theorem decode_encode_raw_data:
  assumes "allocator U" and "3 < U 3" and "3 * length d < U (length d + 1)"
  shows "\<exists>t b. encode_raw_data U (Some d) (length d) = Inr t \<and> length t = 3 * length d \<and>
               decode_to_raw_data U junk (t @ [ZERO]) = Inr b \<and> take (length d) b = d"
proof -
  let ?b = "(d @ drop (length d) (replicate (U (length d + 1)) junk))[3 * length d := ZERO]"
  have "take (length d) ?b = d"
  proof (cases "d = []")
    case False
    then have "\<not> 3 * length d < length d" by simp
    then show ?thesis by (simp add: take_update_cancel)
  qed simp
  moreover have "decode_to_raw_data U junk (raw_text d @ [ZERO]) = Inr ?b"
    using decode_raw_text [OF assms(1), of junk d "[]"] assms(3) by simp
  ultimately show ?thesis
    using encode_raw_data_text [OF assms(1,2), of "length d" d] by simp
qed

theorem decode_encode_raw_data_witness:
  "let d = [ZERO, CHR 0xFF, CHR 0x41]
   in \<exists>t b. encode_raw_data granule_size (Some d) (length d) = Inr t \<and> length t = 3 * length d \<and>
            decode_to_raw_data granule_size ZERO (t @ [ZERO]) = Inr b \<and> take (length d) b = d"
  unfolding Let_def by (rule decode_encode_raw_data) (simp_all add: granule_size_def)

text \<open>
  \<open>decode_to_raw_data\<close> writes outside its block exactly when the block ends at or before three
  times the decoded length, because the terminator goes to the index of the digits. The block
  is asked for with one byte more than the decoded length, so an allocator that gives what was
  asked for is overrun by every file that is not empty.
\<close>

theorem decode_raw_data_overrun:
  assumes "allocator U"
  shows "decode_to_raw_data U junk (raw_text d @ [ZERO]) = Inl Out_of_bounds \<longleftrightarrow>
         U (length d + 1) \<le> 3 * length d"
  using decode_raw_text [OF assms, of junk d "[]"] by auto

theorem decode_raw_data_overrun_witness:
  "decode_to_raw_data granule_size ZERO (raw_text ''8 bytes.'' @ [ZERO]) = Inl Out_of_bounds"
  using decode_raw_data_overrun [of granule_size ZERO "''8 bytes.''"]
  by (simp add: granule_size_def)

text \<open>
  Writing a file stores exactly the first \<open>size\<close> bytes of the data, however the system splits
  the writes, and leaves every other file alone; a path that cannot be created changes nothing and
  is reported as \<open>ERR_FILE_NOT_OPENED\<close>.
\<close>

theorem file_from_raw_data_contents:
  assumes "sz \<le> length data"
  shows "\<exists>d'. file_from_raw_data d path data sz =
                Inr (if can_create d path then FILE_OK else ERR_FILE_NOT_OPENED, d') \<and>
              files d' = (if can_create d path then (files d)(path \<mapsto> take sz data) else files d)"
proof (cases "can_create d path")
  case True
  obtain contents ks where f: "fwrite_loop data sz 0 [] (short_writes d) = (contents, ks)"
    by fastforce
  then have "contents = take sz data"
    using fwrite_loop_all [of 0 sz data "[]" "short_writes d"] assms by simp
  with True f assms show ?thesis by (simp add: file_from_raw_data_def)
qed (simp add: file_from_raw_data_def)

theorem file_from_raw_data_contents_witness:
  "\<exists>d'. file_from_raw_data \<lparr>files = Map.empty, can_create = (\<lambda>_. True), short_writes = [1, 0, 2]\<rparr>
          ''f'' ''hola mundo'' 4 = Inr (FILE_OK, d') \<and> files d' = [''f'' \<mapsto> ''hola'']"
  using file_from_raw_data_contents [of 4 "''hola mundo''"
      "\<lparr>files = Map.empty, can_create = (\<lambda>_. True), short_writes = [1, 0, 2]\<rparr>" "''f''"]
  by simp


section \<open>Waiting for a file\<close>

text \<open>
  \<open>busy_wait_file_exists\<close>: \<open>e n\<close> is what the \<open>n\<close>-th call of \<open>exists\<close> sees of the file system while
  others change it. The result is the number of calls made; waiting for ever is \<open>None\<close>.
\<close>

partial_function (option) wait_loop :: "(nat \<Rightarrow> disk) \<Rightarrow> string \<Rightarrow> nat \<Rightarrow> nat option" where
  "wait_loop e path n = (if \<not> path_exists (e n) path then wait_loop e path (Suc n) else Some (Suc n))"

definition busy_wait_file_exists :: "(nat \<Rightarrow> disk) \<Rightarrow> string \<Rightarrow> nat option" where
  "busy_wait_file_exists e path = (if \<not> path_exists (e 0) path then wait_loop e path 1 else Some 1)"

lemma busy_wait_loop: "busy_wait_file_exists e path = wait_loop e path 0"
  by (subst wait_loop.simps) (simp add: busy_wait_file_exists_def)

lemma wait_loop_finds:
  "path_exists (e (n + k)) path \<Longrightarrow> \<forall>i<k. \<not> path_exists (e (n + i)) path \<Longrightarrow>
    wait_loop e path n = Some (Suc (n + k))"
proof (induction k arbitrary: n)
  case 0
  then show ?case by (subst wait_loop.simps) simp
next
  case (Suc k)
  have "\<not> path_exists (e n) path" using Suc.prems(2) by (metis add_0_right zero_less_Suc)
  moreover have "wait_loop e path (Suc n) = Some (Suc (Suc n + k))"
  proof (rule Suc.IH)
    show "path_exists (e (Suc n + k)) path" using Suc.prems(1) by simp
    show "\<forall>i<k. \<not> path_exists (e (Suc n + i)) path"
    proof (intro allI impI)
      fix i
      assume "i < k"
      with Suc.prems(2) have "\<not> path_exists (e (n + Suc i)) path" by blast
      then show "\<not> path_exists (e (Suc n + i)) path" by simp
    qed
  qed
  ultimately show ?case by (subst wait_loop.simps) simp
qed

lemma wait_loop_seen: "wait_loop e path n = Some m \<Longrightarrow> n < m \<and> path_exists (e (m - 1)) path"
proof (induction rule: wait_loop.raw_induct [rotated 1, consumes 1])
  case (1 f e path n m)
  from 1(2) show ?case using 1(1) [of e path "Suc n" m] by (auto split: if_splits)
qed

text \<open>
  C28: The wait returns exactly when some look finds the file, and then at the first such look; on a file
  nobody makes it waits for ever.
\<close>

theorem busy_wait_returns:
  "busy_wait_file_exists e path =
     (if \<exists>n. path_exists (e n) path then Some (Suc (LEAST n. path_exists (e n) path)) else None)"
proof (cases "\<exists>n. path_exists (e n) path")
  case True
  let ?k = "LEAST n. path_exists (e n) path"
  have "path_exists (e ?k) path" using True by (rule LeastI_ex)
  moreover have "\<forall>i<?k. \<not> path_exists (e i) path" using not_less_Least by blast
  ultimately show ?thesis
    using True wait_loop_finds [of e 0 ?k path] unfolding busy_wait_loop add_0 by (simp only: if_True)
next
  case False
  then have "wait_loop e path 0 = None" using wait_loop_seen [of e path 0] by (cases "wait_loop e path 0") auto
  with False show ?thesis unfolding busy_wait_loop by (simp only: if_False)
qed

end
