(* ===== verification/Json_Api.thy ===== *)
theory Json_Api
  imports C_Text File_Utils "HOL-Library.AList"
begin

text \<open>
  json-c, the third-party library behind \<open>lib/serialization\<close> and the configuration files, as the
  source sees it: a record \<open>json_lib\<close> of the calls it makes, over an abstract type \<open>'j\<close> of
  \<open>json_object\<close>. Nothing is defined here for the library itself. \<open>json_c_laws\<close> states what its
  documentation promises and the code relies on; every theorem that needs it says so, and the
  concrete \<open>flat_json\<close> at the end shows that the promises can be kept.
\<close>

section \<open>The interface\<close>

record 'j json_lib =
  json_new_object :: 'j
  json_new_int :: "int \<Rightarrow> 'j"
  json_new_double :: "64 word \<Rightarrow> 'j"
  json_new_string :: "string \<Rightarrow> 'j"
  json_object_add :: "'j \<Rightarrow> string \<Rightarrow> 'j \<Rightarrow> 'j"
  json_to_string :: "'j \<Rightarrow> string"
  json_parse :: "string \<Rightarrow> 'j option"
  json_get_ex :: "'j option \<Rightarrow> string \<Rightarrow> 'j option"
  json_get_string :: "'j option \<Rightarrow> string option"
  json_get_int :: "'j option \<Rightarrow> int"
  json_get_double :: "'j option \<Rightarrow> 64 word"

text \<open>
  A \<open>double\<close> is its 64 bits: sign, eleven bits of exponent, fifty-two of fraction; it is finite
  when the exponent is not all ones.
\<close>

definition double_exponent :: "64 word \<Rightarrow> nat" where
  "double_exponent d = unat d div 2 ^ 52 mod 2 ^ 11"

definition double_finite :: "64 word \<Rightarrow> bool" where
  "double_finite d \<longleftrightarrow> double_exponent d \<noteq> 2047"

text \<open>The objects the code builds: members added one by one, values that are leaves.\<close>

inductive json_built :: "'j json_lib \<Rightarrow> 'j \<Rightarrow> bool" for J where
  built_empty: "json_built J (json_new_object J)"
| built_string: "json_built J j \<Longrightarrow> nul_free s \<Longrightarrow>
    json_built J (json_object_add J j k (json_new_string J s))"
| built_int: "json_built J j \<Longrightarrow> int32 i \<Longrightarrow>
    json_built J (json_object_add J j k (json_new_int J i))"
| built_double: "json_built J j \<Longrightarrow> double_finite d \<Longrightarrow>
    json_built J (json_object_add J j k (json_new_double J d))"

text \<open>
  The promises: printing an object and parsing the text gives the same object, the text of an
  object the code built is not empty, and every text is a C string, so without NUL; looking a member up after it was added finds it and no other changes;
  a value read at its own type is the value it was made from; what is absent is null.
\<close>

definition json_c_laws :: "'j json_lib \<Rightarrow> bool" where
  "json_c_laws J \<longleftrightarrow>
     (\<forall>j. json_built J j \<longrightarrow> json_parse J (json_to_string J j) = Some j) \<and>
     (\<forall>j. nul_free (json_to_string J j)) \<and>
     (\<forall>j. json_built J j \<longrightarrow> json_to_string J j \<noteq> []) \<and>
     (\<forall>j k v k'. json_built J j \<longrightarrow>
        json_get_ex J (Some (json_object_add J j k v)) k' =
          (if k' = k then Some v else json_get_ex J (Some j) k')) \<and>
     (\<forall>k. json_get_ex J (Some (json_new_object J)) k = None) \<and>
     (\<forall>k. json_get_ex J None k = None) \<and>
     (\<forall>s. json_get_string J (Some (json_new_string J s)) = Some s) \<and>
     json_get_string J None = None \<and>
     (\<forall>i. int32 i \<longrightarrow> json_get_int J (Some (json_new_int J i)) = i) \<and>
     (\<forall>d. double_finite d \<longrightarrow> json_get_double J (Some (json_new_double J d)) = d)"

named_theorems json \<open>consequences of the library's promises\<close>

lemmas [json] = json_built.intros

lemma json_roundtrip [json]:
  "json_c_laws J \<Longrightarrow> json_built J j \<Longrightarrow> json_parse J (json_to_string J j) = Some j"
  by (simp add: json_c_laws_def)

lemma json_text_nul_free: "json_c_laws J \<Longrightarrow> nul_free (json_to_string J j)"
  by (simp add: json_c_laws_def)

lemma json_text_not_Nil: "json_c_laws J \<Longrightarrow> json_built J j \<Longrightarrow> json_to_string J j \<noteq> []"
  by (simp add: json_c_laws_def)

lemma json_get_add [json]:
  "json_c_laws J \<Longrightarrow> json_built J j \<Longrightarrow>
   json_get_ex J (Some (json_object_add J j k v)) k' =
     (if k' = k then Some v else json_get_ex J (Some j) k')"
  unfolding json_c_laws_def by blast

lemma json_get_leaf [json]:
  "json_c_laws J \<Longrightarrow> json_get_string J (Some (json_new_string J s)) = Some s"
  "json_c_laws J \<Longrightarrow> int32 i \<Longrightarrow> json_get_int J (Some (json_new_int J i)) = i"
  "json_c_laws J \<Longrightarrow> double_finite d \<Longrightarrow> json_get_double J (Some (json_new_double J d)) = d"
  by (simp_all add: json_c_laws_def)

lemma json_get_absent [json]:
  "json_c_laws J \<Longrightarrow> json_get_ex J None k = None"
  "json_c_laws J \<Longrightarrow> json_get_ex J (Some (json_new_object J)) k = None"
  "json_c_laws J \<Longrightarrow> json_get_string J None = None"
  by (simp_all add: json_c_laws_def)

section \<open>An instance\<close>

text \<open>Objects whose text is a list of fields ended by dots, strings as three digits per byte.\<close>

datatype jv = JObj "(string \<times> jv) list" | JStr string | JInt int | JDbl "64 word"

fun jv_leaf_text :: "jv \<Rightarrow> string" where
  "jv_leaf_text (JStr s) = CHR ''s'' # raw_text s"
| "jv_leaf_text (JInt i) = (if i < 0 then CHR ''m'' # show_nat (nat (- i)) else CHR ''p'' # show_nat (nat i))"
| "jv_leaf_text (JDbl d) = CHR ''d'' # show_nat (unat d)"
| "jv_leaf_text (JObj _) = ''o''"

fun jv_members_text :: "(string \<times> jv) list \<Rightarrow> string" where
  "jv_members_text [] = []"
| "jv_members_text ((k, v) # ms) = raw_text k @ ''.'' @ jv_leaf_text v @ ''.'' @ jv_members_text ms"

fun jv_text :: "jv \<Rightarrow> string" where
  "jv_text (JObj ms) = CHR ''{'' # jv_members_text ms"
| "jv_text v = jv_leaf_text v"

fun dot_fields :: "string \<Rightarrow> string \<Rightarrow> string list" where
  "dot_fields cur [] = []"
| "dot_fields cur (c # s) = (if c = CHR ''.'' then cur # dot_fields [] s else dot_fields (cur @ [c]) s)"

fun untext :: "string \<Rightarrow> string" where
  "untext (a # b # c # s) = char_of (digit_val a * 100 + digit_val b * 10 + digit_val c) # untext s"
| "untext _ = []"

fun jv_leaf_parse :: "string \<Rightarrow> jv" where
  "jv_leaf_parse (c # s) =
     (if c = CHR ''s'' then JStr (untext s)
      else if c = CHR ''m'' then JInt (- int (digits_val 0 s))
      else if c = CHR ''p'' then JInt (int (digits_val 0 s))
      else JDbl (of_nat (digits_val 0 s)))"
| "jv_leaf_parse [] = JObj []"

fun jv_members_parse :: "string list \<Rightarrow> (string \<times> jv) list" where
  "jv_members_parse (k # v # fs) = (untext k, jv_leaf_parse v) # jv_members_parse fs"
| "jv_members_parse _ = []"

fun jv_parse :: "string \<Rightarrow> jv option" where
  "jv_parse (c # s) = (if c = CHR ''{'' then Some (JObj (jv_members_parse (dot_fields [] s))) else None)"
| "jv_parse [] = None"

definition flat_json :: "jv json_lib" where
  "flat_json = \<lparr>
     json_new_object = JObj [], json_new_int = JInt, json_new_double = JDbl, json_new_string = JStr,
     json_object_add = (\<lambda>j k v. case j of JObj ms \<Rightarrow> JObj (AList.update k v ms) | _ \<Rightarrow> j),
     json_to_string = jv_text, json_parse = jv_parse,
     json_get_ex = (\<lambda>j k. case j of Some (JObj ms) \<Rightarrow> map_of ms k | _ \<Rightarrow> None),
     json_get_string = (\<lambda>j. case j of Some (JStr s) \<Rightarrow> Some s | Some v \<Rightarrow> Some (jv_text v) | None \<Rightarrow> None),
     json_get_int = (\<lambda>j. case j of Some (JInt i) \<Rightarrow> i | _ \<Rightarrow> 0),
     json_get_double = (\<lambda>j. case j of Some (JDbl d) \<Rightarrow> d | _ \<Rightarrow> 0)\<rparr>"

lemma untext_raw_text: "untext (raw_text s) = s"
proof (induction s)
  case Nil
  then show ?case by simp
next
  case (Cons c s)
  define n where "n = (of_char c :: nat)"
  have "n < 256" by (simp add: n_def)
  then have "n div 100 < 10" by linarith
  moreover have "n div 100 * 100 + n div 10 mod 10 * 10 + n mod 10 = n"
  proof -
    have "n div 100 = n div 10 div 10" by (simp add: div_mult2_eq [symmetric])
    then show ?thesis
      using div_mult_mod_eq [of "n div 10" 10] div_mult_mod_eq [of n 10] by linarith
  qed
  ultimately show ?case
    using Cons by (simp add: byte_text_def Let_def n_def [symmetric]) (simp add: n_def)
qed

definition no_dot :: "string \<Rightarrow> bool" where
  "no_dot s \<longleftrightarrow> CHR ''.'' \<notin> set s"

lemma dot_fields_field:
  "no_dot f \<Longrightarrow> dot_fields cur (f @ CHR ''.'' # s) = (cur @ f) # dot_fields [] s"
  by (induction f arbitrary: cur) (auto simp: no_dot_def)

lemma digit_not_dot: "is_digit c \<Longrightarrow> c \<noteq> CHR ''.''"
  by (auto simp: is_digit_def)

lemma no_dot_digits [simp]: "no_dot (raw_text s)" "no_dot (show_nat n)"
  using raw_text_digits [of _ s] show_nat_digits [of _ n] digit_not_dot
  unfolding no_dot_def by blast+

lemma no_dot_Cons [simp]: "no_dot (c # s) \<longleftrightarrow> c \<noteq> CHR ''.'' \<and> no_dot s"
  by (auto simp: no_dot_def)

fun is_leaf :: "jv \<Rightarrow> bool" where
  "is_leaf (JObj _) = False"
| "is_leaf _ = True"

lemma leaf_text_chars: "is_leaf v \<Longrightarrow> no_dot (jv_leaf_text v) \<and> nul_free (jv_leaf_text v)"
  by (cases v) simp_all

lemma leaf_parse_text: "is_leaf v \<Longrightarrow> jv_leaf_parse (jv_leaf_text v) = v"
  by (cases v) (simp_all add: untext_raw_text digits_val_show_nat)

lemma members_parse_text:
  "\<forall>m \<in> set ms. is_leaf (snd m) \<Longrightarrow>
   jv_members_parse (dot_fields [] (jv_members_text ms)) = ms"
  by (induction ms) (auto simp: dot_fields_field leaf_text_chars leaf_parse_text untext_raw_text)

lemma leaf_text_nul_free: "nul_free (jv_leaf_text v)"
  by (cases v) simp_all

lemma members_text_nul_free: "nul_free (jv_members_text ms)"
  by (induction ms) (auto simp: leaf_text_nul_free)

lemma jv_text_nul_free: "nul_free (jv_text v)"
  by (cases v) (simp_all add: members_text_nul_free leaf_text_nul_free)

lemma set_update_member: "m \<in> set (AList.update k v ms) \<Longrightarrow> m = (k, v) \<or> m \<in> set ms"
  by (induction ms) (auto split: if_splits)

lemma flat_built: "json_built flat_json j \<Longrightarrow> \<exists>ms. j = JObj ms \<and> (\<forall>m \<in> set ms. is_leaf (snd m))"
proof (induction rule: json_built.induct)
  case built_empty
  show ?case by (simp add: flat_json_def)
qed (auto simp: flat_json_def dest!: set_update_member)

lemma flat_json_laws [simp]: "json_c_laws flat_json"
  unfolding json_c_laws_def
proof (intro conjI allI impI)
  fix j assume "json_built flat_json j"
  then obtain ms where j: "j = JObj ms" and ms: "\<forall>m \<in> set ms. is_leaf (snd m)"
    using flat_built by blast
  show "json_parse flat_json (json_to_string flat_json j) = Some j"
    using members_parse_text [OF ms] by (simp add: flat_json_def j)
  show "json_to_string flat_json j \<noteq> []"
    by (simp add: flat_json_def j)
  show "json_get_ex flat_json (Some (json_object_add flat_json j k v)) k' =
    (if k' = k then Some v else json_get_ex flat_json (Some j) k')" for k v k'
    by (simp add: flat_json_def j update_conv)
qed (simp_all add: flat_json_def jv_text_nul_free)

end
