(* ===== verification/Utils.thy ===== *)
theory Utils
  imports C_Text
begin

text \<open>
  \<open>utils.c\<close>: the random message boundary (\<open>getrnd\<close>, \<open>gen_boundary\<close>) and the splitting of a
  command line into arguments (\<open>split_arguments\<close>, \<open>add\<close>, \<open>count_elements\<close>). The static variables
  \<open>seeded\<close> and \<open>rand_max_digits\<close> and the generator behind \<open>rand()\<close> are the state \<open>rng\<close>; the
  argument splitter keeps the source's index-based loop, and a structural reference definition
  (\<open>args_ref\<close>) is proved equal to it.
\<close>

text \<open>\<open>typedef unsigned char boolean\<close>\<close>

type_synonym boolean = "8 word"

section \<open>Random boundaries\<close>

text \<open>
  \<open>rand()\<close> is libc's: \<open>draws\<close> is the sequence of values it returns after \<open>srand\<close>, \<open>drawn\<close> how
  many were taken.
\<close>

record rng =
  seeded :: bool
  rand_max_digits :: int
  draws :: "nat \<Rightarrow> nat"
  drawn :: nat

definition RAND_MAX :: int where "RAND_MAX = 2147483647"

definition BOUNDARY_PREFIX :: string where "BOUNDARY_PREFIX = ''--boundaryTPSO1IPC''"

definition getrnd :: "int \<Rightarrow> int \<Rightarrow> rng \<Rightarrow> (int \<times> rng) result" where
  "getrnd mn mx r =
     (let r1 = (if \<not> seeded r then r\<lparr>seeded := True\<rparr> else r);
          v = int (draws r1 (drawn r1));
          r2 = r1\<lparr>drawn := Suc (drawn r1)\<rparr>
      in if mx - mn = 0 then Inl Div_by_zero
         else Inr (v mod \<bar>mx - mn\<bar> + mn, r2))"

text \<open>\<open>ceilf(log10(n))\<close>: the least \<open>d\<close> with \<open>n \<le> 10 ^ d\<close>.\<close>

fun ceil_log10 :: "nat \<Rightarrow> nat" where
  "ceil_log10 n = (if n \<le> 1 then 0 else Suc (ceil_log10 ((n + 9) div 10)))"

declare ceil_log10.simps [simp del]

definition gen_boundary :: "(nat \<Rightarrow> nat) \<Rightarrow> rng \<Rightarrow> (string \<times> rng) result" where
  "gen_boundary U r =
     (let r1 = (if rand_max_digits r = -1
                then r\<lparr>rand_max_digits := int (ceil_log10 (nat RAND_MAX))\<rparr> else r);
          len = length BOUNDARY_PREFIX + nat (rand_max_digits r1) + 2
      in bindE (getrnd (10 ^ nat (rand_max_digits r1 - 1)) RAND_MAX r1) (\<lambda>(v, r2).
         bindE (sprintf_into U (len + 1) (BOUNDARY_PREFIX @ show_int v @ ''__'')) (\<lambda>b.
         Inr (b, r2))))"

text \<open>The static digit count is unset or the right one.\<close>

definition rng_ok :: "rng \<Rightarrow> bool" where
  "rng_ok r \<longleftrightarrow> rand_max_digits r = -1 \<or> rand_max_digits r = 10"

lemma ceil_log10_RAND_MAX [simp]: "ceil_log10 (nat RAND_MAX) = 10"
  by (simp add: RAND_MAX_def ceil_log10.simps)

lemma length_BOUNDARY_PREFIX [simp]: "length BOUNDARY_PREFIX = 18"
  by (simp add: BOUNDARY_PREFIX_def)

lemma getrnd_range:
  assumes "getrnd mn mx r = Inr (v, r')" and "mn < mx"
  shows "mn \<le> v \<and> v < mx"
proof -
  have "0 \<le> x mod (mx - mn)" "x mod (mx - mn) < mx - mn" for x :: int
    using assms(2) by simp_all
  moreover from assms obtain x :: int where "v = x mod (mx - mn) + mn"
    by (auto simp: getrnd_def Let_def split: if_splits)
  ultimately show ?thesis by (metis add_le_same_cancel2 add.commute less_diff_eq add_increasing2 order_refl)
qed

text \<open>The shape of every boundary: the prefix, a ten-digit number, two underscores.\<close>

definition boundary_shape :: "string \<Rightarrow> bool" where
  "boundary_shape b \<longleftrightarrow>
     (\<exists>n. 10 ^ 9 \<le> n \<and> int n < RAND_MAX \<and> b = BOUNDARY_PREFIX @ show_nat n @ ''__'')"

lemma boundary_shape_length: "boundary_shape b \<Longrightarrow> length b = 30"
proof -
  assume "boundary_shape b"
  then obtain n where n: "10 ^ 9 \<le> n" "int n < RAND_MAX" "b = BOUNDARY_PREFIX @ show_nat n @ ''__''"
    unfolding boundary_shape_def by blast
  have "length (show_nat n) = Suc 9"
    using n(1,2) by (intro length_show_nat) (simp_all add: RAND_MAX_def)
  with n(3) show ?thesis by simp
qed

lemma gen_boundary_ok:
  assumes "allocator U" and "rng_ok r"
  obtains b r' where "gen_boundary U r = Inr (b, r')" "boundary_shape b" "rng_ok r'"
    "drawn r' = Suc (drawn r)"
proof -
  let ?r1 = "if rand_max_digits r = -1 then r\<lparr>rand_max_digits := 10\<rparr> else r"
  have d: "rand_max_digits ?r1 = 10"
    using assms(2) by (auto simp: rng_ok_def)
  obtain v r2 where g: "getrnd (10 ^ 9) RAND_MAX ?r1 = Inr (v, r2)"
    and r2: "rand_max_digits r2 = 10" "drawn r2 = Suc (drawn r)"
    using d by (auto simp: getrnd_def RAND_MAX_def Let_def)
  have v: "10 ^ 9 \<le> v" "v < RAND_MAX"
    using getrnd_range [OF g] by (simp_all add: RAND_MAX_def)
  let ?b = "BOUNDARY_PREFIX @ show_int v @ ''__''"
  have shape: "boundary_shape ?b"
    unfolding boundary_shape_def using v
    by (intro exI [of _ "nat v"]) (simp add: show_int_def)
  have "sprintf_into U 31 ?b = Inr ?b"
    using boundary_shape_length [OF shape] assms(1) by (intro sprintf_into_fits) simp_all
  then have "gen_boundary U r = Inr (?b, r2)"
    using g d assms(2) by (auto simp: gen_boundary_def Let_def rng_ok_def)
  then show thesis
    using shape r2 by (intro that) (simp_all add: rng_ok_def)
qed

lemma nul_free_prefix [simp]: "nul_free BOUNDARY_PREFIX"
  by (simp add: BOUNDARY_PREFIX_def)

lemma boundary_shape_nul_free: "boundary_shape b \<Longrightarrow> nul_free b"
  by (auto simp: boundary_shape_def)

section \<open>Command lines\<close>

text \<open>
  The locals of \<open>split_arguments\<close> besides \<open>index\<close>. \<open>result\<close> is not initialised in the source; it
  is only ever read by \<open>add\<close>, which copies \<open>count - 1\<close> entries, so it starts as the empty vector.
\<close>

record split_st =
  last_begin :: nat
  arg_count :: nat
  last_was_char :: bool
  quotation_open :: bool
  split_result :: "string list"

definition add :: "string \<Rightarrow> string list \<Rightarrow> nat \<Rightarrow> string list" where
  "add str str_vector cant = take (cant - 1) str_vector @ [str]"

abbreviation SPACE :: char where "SPACE \<equiv> CHR '' ''"
abbreviation QUOTE :: char where "QUOTE \<equiv> CHR 0x22"

definition substring :: "string \<Rightarrow> nat \<Rightarrow> nat \<Rightarrow> string" where
  "substring s i j = take (j - i) (drop i s)"

definition split_step :: "string \<Rightarrow> nat \<Rightarrow> split_st \<Rightarrow> split_st" where
  "split_step sentence index st =
     (if sentence ! index = SPACE then
        (let st1 = (if last_was_char st \<and> \<not> quotation_open st
                    then st\<lparr>arg_count := Suc (arg_count st),
                            split_result := add (substring sentence (last_begin st) index)
                                              (split_result st) (Suc (arg_count st))\<rparr>
                    else st)
         in st1\<lparr>last_was_char := False\<rparr>)
      else
        (let st1 = (if \<not> quotation_open st \<and> \<not> last_was_char st
                    then st\<lparr>last_begin := index\<rparr> else st);
             st2 = st1\<lparr>last_was_char := True\<rparr>
         in if sentence ! index = QUOTE
            then st2\<lparr>quotation_open := \<not> quotation_open st2\<rparr> else st2))"

function split_loop :: "string \<Rightarrow> nat \<Rightarrow> split_st \<Rightarrow> split_st" where
  "split_loop sentence index st =
     (if index < length sentence
      then split_loop sentence (Suc index) (split_step sentence index st) else st)"
  by pat_completeness auto
termination
  by (relation "measure (\<lambda>(sentence, index, st). length sentence - index)") auto

declare split_loop.simps [simp del]

definition split_arguments :: "string \<Rightarrow> string list option" where
  "split_arguments sentence =
     (let st0 = \<lparr>last_begin = 0, arg_count = 0, last_was_char = False,
                 quotation_open = False, split_result = []\<rparr>;
          st = split_loop sentence 0 st0;
          index = length sentence
      in if last_was_char st then
           (if quotation_open st then None
            else Some (add '''' (add (substring sentence (last_begin st) index)
                                   (split_result st) (Suc (arg_count st)))
                        (Suc (arg_count st) + 1)))
         else Some (add '''' (split_result st) (arg_count st + 1)))"

text \<open>\<open>count_elements\<close> walks the vector to its empty string; \<open>None\<close> is the null vector.\<close>

fun count_from :: "string list \<Rightarrow> nat \<Rightarrow> nat result" where
  "count_from [] n = Inl Out_of_bounds"
| "count_from (v # vs) n = (if v = '''' then Inr n else count_from vs (Suc n))"

definition count_elements :: "string list option \<Rightarrow> nat result" where
  "count_elements vector =
     (case vector of None \<Rightarrow> Inl Null_deref | Some vs \<Rightarrow> count_from vs 0)"

subsection \<open>A structural reference\<close>

text \<open>
  The same splitting over the rest of the line: \<open>lwc\<close> and \<open>q\<close> are the two flags, \<open>cur\<close> the text
  of the argument being read, \<open>acc\<close> the arguments found.
\<close>

fun args_ref :: "string \<Rightarrow> bool \<Rightarrow> bool \<Rightarrow> string \<Rightarrow> string list \<Rightarrow> string list option" where
  "args_ref [] lwc q cur acc =
     (if lwc then (if q then None else Some (acc @ [cur])) else Some acc)"
| "args_ref (c # s) lwc q cur acc =
     (if c = SPACE then
        (if lwc \<and> \<not> q then args_ref s False q [] (acc @ [cur])
         else args_ref s False q (cur @ [c]) acc)
      else args_ref s True (if c = QUOTE then \<not> q else q)
             (if \<not> q \<and> \<not> lwc then [c] else cur @ [c]) acc)"

text \<open>An argument: not empty, quotes balanced, spaces inside quotes only.\<close>

fun arg_scan :: "bool \<Rightarrow> string \<Rightarrow> bool" where
  "arg_scan q [] = (\<not> q)"
| "arg_scan q (c # s) =
     (if c = SPACE then q \<and> arg_scan q s else arg_scan (if c = QUOTE then \<not> q else q) s)"

definition arg_ok :: "string \<Rightarrow> bool" where
  "arg_ok w \<longleftrightarrow> w \<noteq> [] \<and> arg_scan False w"

text \<open>Arguments written out with any number of spaces before each.\<close>

fun join_args :: "(nat \<times> string) list \<Rightarrow> string" where
  "join_args [] = []"
| "join_args ((k, w) # r) =
     replicate k SPACE @ w @ (if r = [] then [] else SPACE # join_args r)"

lemma add_count [simp]: "n = length v \<Longrightarrow> add s v (Suc n) = v @ [s]"
  by (simp add: add_def)

lemma substring_snoc:
  "i \<le> j \<Longrightarrow> j < length s \<Longrightarrow> substring s i (Suc j) = substring s i j @ [s ! j]"
  by (simp add: substring_def Suc_diff_le take_Suc_conv_app_nth)

lemma substring_refl [simp]: "substring s i i = []"
  by (simp add: substring_def)

lemma substring_one: "j < length s \<Longrightarrow> substring s j (Suc j) = [s ! j]"
  by (simp add: substring_def Cons_nth_drop_Suc [symmetric])

text \<open>What relates the loop's state to the arguments of the reference.\<close>

definition split_rel :: "string \<Rightarrow> nat \<Rightarrow> split_st \<Rightarrow> bool \<Rightarrow> bool \<Rightarrow> string \<Rightarrow> string list \<Rightarrow> bool" where
  "split_rel sentence i st lwc q cur acc \<longleftrightarrow>
     lwc = last_was_char st \<and> q = quotation_open st \<and> acc = split_result st \<and>
     arg_count st = length (split_result st) \<and> last_begin st \<le> i \<and>
     (lwc \<or> q \<longrightarrow> cur = substring sentence (last_begin st) i)"


subsection \<open>The loop computes the reference\<close>

definition split_end :: "string \<Rightarrow> split_st \<Rightarrow> string list option" where
  "split_end sentence st =
     (if last_was_char st then
        (if quotation_open st then None
         else Some (split_result st @ [substring sentence (last_begin st) (length sentence)]))
      else Some (split_result st))"

lemma split_step_count:
  "arg_count st = length (split_result st) \<Longrightarrow>
   arg_count (split_step s i st) = length (split_result (split_step s i st))"
  by (simp add: split_step_def Let_def)

lemma split_loop_count:
  "arg_count st = length (split_result st) \<Longrightarrow>
   arg_count (split_loop s i st) = length (split_result (split_loop s i st))"
proof (induction s i st rule: split_loop.induct)
  case (1 s i st)
  then show ?case
    by (cases "i < length s") (simp_all add: split_loop.simps [of s i st] split_step_count)
qed

lemma split_loop_ref:
  "split_rel s i st lwc q cur acc \<Longrightarrow> i \<le> length s \<Longrightarrow>
   split_end s (split_loop s i st) = args_ref (drop i s) lwc q cur acc"
proof (induction s i st arbitrary: lwc q cur acc rule: split_loop.induct)
  case (1 s i st)
  show ?case
  proof (cases "i < length s")
    case False
    then have "split_loop s i st = st" by (subst split_loop.simps) simp
    with "1.prems" False show ?thesis by (simp add: split_end_def split_rel_def)
  next
    case True
    then have d: "drop i s = s ! i # drop (Suc i) s" by (simp add: Cons_nth_drop_Suc)
    obtain lwc' q' cur' acc' where
      rel: "split_rel s (Suc i) (split_step s i st) lwc' q' cur' acc'"
      and step: "args_ref (drop i s) lwc q cur acc = args_ref (drop (Suc i) s) lwc' q' cur' acc'"
    proof (cases "s ! i = SPACE")
      case sp: True
      show thesis
      proof (cases "lwc \<and> \<not> q")
        case True
        with sp d "1.prems" show thesis
          by (intro that [of False q "[]" "acc @ [cur]"])
             (auto simp: split_rel_def split_step_def Let_def)
      next
        case False
        with sp d "1.prems" \<open>i < length s\<close> show thesis
          by (intro that [of False q "cur @ [s ! i]" acc])
             (auto simp: split_rel_def split_step_def Let_def substring_snoc)
      qed
    next
      case False
      with d "1.prems" True show thesis
        by (intro that [of True "if s ! i = QUOTE then \<not> q else q"
                              "if \<not> q \<and> \<not> lwc then [s ! i] else cur @ [s ! i]" acc])
           (auto simp: split_rel_def split_step_def Let_def substring_snoc substring_one)
    qed
    have "split_end s (split_loop s (Suc i) (split_step s i st)) =
          args_ref (drop (Suc i) s) lwc' q' cur' acc'"
      using True rel by (intro "1.IH") simp_all
    with True step show ?thesis by (simp add: split_loop.simps [of s i st])
  qed
qed

lemma split_arguments_ref:
  "split_arguments s = map_option (\<lambda>v. v @ ['''']) (args_ref s False False [] [])"
proof -
  let ?init = "\<lparr>last_begin = 0, arg_count = 0, last_was_char = False,
               quotation_open = False, split_result = []\<rparr> :: split_st"
  let ?st = "split_loop s 0 ?init"
  have e: "split_end s ?st = args_ref s False False [] []"
    using split_loop_ref [of s 0 ?init False False "[]" "[]"] by (simp add: split_rel_def)
  have "arg_count ?st = length (split_result ?st)"
    by (rule split_loop_count) simp
  then show ?thesis
    unfolding e [symmetric]
    by (simp add: split_arguments_def split_end_def Let_def add_def)
qed

lemma args_ref_spaces: "args_ref (replicate k SPACE @ s) False False cur acc = args_ref s False False (cur @ replicate k SPACE) acc"
  by (induction k arbitrary: cur) simp_all

text \<open>Reading the rest of an argument whose quotes balance.\<close>

lemma args_ref_scan:
  assumes "arg_scan q w" and "lwc \<or> q"
  shows "w = [] \<or> last w \<noteq> SPACE \<Longrightarrow> args_ref (w @ s) lwc q cur acc =
    args_ref s (w \<noteq> [] \<or> lwc) False (cur @ w) acc"
  using assms
proof (induction w arbitrary: q lwc cur)
  case Nil
  then show ?case by simp
next
  case (Cons c w)
  then show ?case
    by (cases "w = []") (auto split: if_splits)
qed

lemma arg_scan_last: "arg_scan q w \<Longrightarrow> w \<noteq> [] \<Longrightarrow> last w \<noteq> SPACE"
  by (induction w arbitrary: q) (auto split: if_splits)

lemma args_ref_arg:
  assumes "arg_ok w"
  shows "args_ref (w @ s) False False cur acc = args_ref s True False w acc"
proof -
  obtain c v where w: "w = c # v" using assms by (cases w) (simp_all add: arg_ok_def)
  have c: "c \<noteq> SPACE" and sc: "arg_scan (c = QUOTE) v"
    using assms w by (auto simp: arg_ok_def split: if_splits)
  have "v = [] \<or> last v \<noteq> SPACE"
    using sc arg_scan_last by blast
  with args_ref_scan [OF sc, of True s "[c]" acc] show ?thesis
    using c by (cases "c = QUOTE") (simp_all add: w)
qed

lemma split_join_args_aux:
  assumes "\<forall>a \<in> set args. arg_ok (snd a)"
  shows "split_arguments (join_args args) = Some (map snd args @ [''''])"
proof -
  have "args_ref (join_args args) False False cur acc = Some (acc @ map snd args)" for cur acc
    using assms
  proof (induction args arbitrary: cur acc)
    case Nil
    then show ?case by simp
  next
    case (Cons a r)
    obtain k w where a: "a = (k, w)" by (cases a)
    with Cons.prems have w: "arg_ok w" by simp
    show ?case
      using Cons by (cases "r = []") (simp_all add: a args_ref_spaces args_ref_arg [OF w]
          args_ref_arg [OF w, of "[]", simplified])
  qed
  then show ?thesis by (simp add: split_arguments_ref)
qed

lemma args_ref_scans:
  "args_ref s lwc q cur acc = Some ws \<Longrightarrow> \<forall>w \<in> set acc. arg_ok w \<Longrightarrow>
   (\<forall>t. lwc \<or> q \<longrightarrow> cur \<noteq> [] \<and> arg_scan False (cur @ t) = arg_scan q t) \<Longrightarrow>
   \<forall>w \<in> set ws. arg_ok w"
proof (induction s arbitrary: lwc q cur acc)
  case Nil
  show ?case
  proof (cases lwc)
    case True
    with Nil have "\<not> q" and ws: "ws = acc @ [cur]" by (simp_all split: if_splits)
    from True Nil.prems(3) [rule_format, of "[]"] \<open>\<not> q\<close> have "arg_ok cur"
      by (simp add: arg_ok_def)
    with ws Nil.prems(2) show ?thesis by simp
  qed (use Nil in simp)
next
  case (Cons c s)
  note inv = Cons.prems(3) [rule_format]
  show ?case
  proof (cases "c = SPACE \<and> lwc \<and> \<not> q")
    case True
    with inv [of "[]"] have "arg_ok cur" by (simp add: arg_ok_def)
    with True Cons.prems(1,2) show ?thesis
      by (intro Cons.IH [of False q "[]" "acc @ [cur]"]) simp_all
  next
    case False
    show ?thesis
    proof (cases "c = SPACE")
      case sp: True
      have "arg_scan False ((cur @ [c]) @ t) = arg_scan True t" if q for t
        using inv [of "c # t"] that sp by simp
      with sp False Cons.prems(1,2) show ?thesis
        by (intro Cons.IH [of False q "cur @ [c]" acc]) auto
    next
      case nsp: False
      have "arg_scan False ((if \<not> q \<and> \<not> lwc then [c] else cur @ [c]) @ t) =
            arg_scan (if c = QUOTE then \<not> q else q) t" for t
        using nsp inv [of "c # t"] by (cases "\<not> q \<and> \<not> lwc") auto
      with nsp Cons.prems(1,2) show ?thesis
        by (intro Cons.IH [of True "if c = QUOTE then \<not> q else q"
                              "if \<not> q \<and> \<not> lwc then [c] else cur @ [c]" acc]) simp_all
    qed
  qed
qed

lemma count_from_args: "'''' \<notin> set ws \<Longrightarrow> count_from (ws @ [''''] ) n = Inr (n + length ws)"
  by (induction ws arbitrary: n) auto


section \<open>Properties\<close>

text \<open>
  However many arguments a user types and however many spaces separate them, the splitter
  returns exactly those arguments, quoted ones with their spaces and quotes kept, followed by the
  empty string that ends the vector.
\<close>

theorem split_join_args:
  assumes "\<forall>a \<in> set args. arg_ok (snd a)"
  shows "split_arguments (join_args args) = Some (map snd args @ [''''])"
  using assms by (rule split_join_args_aux)

theorem split_join_args_witness:
  "split_arguments (join_args [(1, ''post''), (0, ''a''), (2, CHR 0x22 # ''my file'' @ [CHR 0x22])]) =
     Some [''post'', ''a'', CHR 0x22 # ''my file'' @ [CHR 0x22], '''']"
  using split_join_args [of "[(1, ''post''), (0, ''a''), (2, CHR 0x22 # ''my file'' @ [CHR 0x22])]"]
  by (simp add: arg_ok_def)

text \<open>
  Every vector the splitter returns is a list of well-formed arguments (not empty, quotes
  balanced, spaces only inside quotes) and its terminator, so \<open>count_elements\<close> stays inside it
  and returns the number of arguments.
\<close>

theorem split_arguments_sound:
  assumes "split_arguments s = Some v"
  shows "\<exists>ws. v = ws @ [''''] \<and> (\<forall>w \<in> set ws. arg_ok w) \<and>
              count_elements (Some v) = Inr (length ws)"
proof -
  from assms obtain ws where ws: "args_ref s False False [] [] = Some ws" and v: "v = ws @ ['''']"
    by (auto simp: split_arguments_ref)
  have ok: "\<forall>w \<in> set ws. arg_ok w"
    using args_ref_scans [OF ws] by simp
  then have "'''' \<notin> set ws" by (auto simp: arg_ok_def)
  with v ok show ?thesis
    by (intro exI [of _ ws]) (simp add: count_elements_def count_from_args)
qed

theorem split_arguments_sound_witness:
  "\<exists>ws. [''get'', ''hola'', ''''] = ws @ [''''] \<and> (\<forall>w \<in> set ws. arg_ok w) \<and>
        count_elements (Some [''get'', ''hola'', '''']) = Inr (length ws)"
  by (rule split_arguments_sound [of "''get hola''"]) code_simp

text \<open>
  The splitter refuses a line (a null vector) exactly when a quote is left open and the line
  does not end in a space; a line that ends in a space inside an open quote is accepted.
\<close>

theorem split_arguments_None:
  "split_arguments s = None \<longleftrightarrow> odd (count_list s QUOTE) \<and> last s \<noteq> SPACE"
proof -
  have "args_ref s lwc q cur acc = None \<longleftrightarrow>
        (if s = [] then lwc else last s \<noteq> SPACE) \<and> (q \<noteq> odd (count_list s QUOTE))" for lwc q cur acc
    by (induction s arbitrary: lwc q cur acc) auto
  then show ?thesis by (auto simp: split_arguments_ref)
qed

text \<open>
  The random boundary is the prefix, a number of exactly ten digits and two underscores, thirty
  characters in all, and fits the block that was allocated for it.
\<close>

theorem gen_boundary_shape:
  assumes "allocator U" and "rng_ok r"
  shows "\<exists>b r'. gen_boundary U r = Inr (b, r') \<and> boundary_shape b \<and> length b = 30 \<and> rng_ok r' \<and>
                drawn r' = Suc (drawn r)"
  using gen_boundary_ok [OF assms] boundary_shape_length by metis

theorem gen_boundary_shape_witness:
  "let r = \<lparr>seeded = False, rand_max_digits = -1, draws = (\<lambda>_. 5), drawn = 0\<rparr>
   in \<exists>b r'. gen_boundary exact_size r = Inr (b, r') \<and> boundary_shape b \<and> length b = 30 \<and>
             rng_ok r' \<and> drawn r' = Suc (drawn r)"
  unfolding Let_def by (rule gen_boundary_shape) (simp_all add: rng_ok_def)

end
