(* ===== verification/Channel.thy ===== *)
theory Channel
  imports Utils File_Utils
begin

text \<open>
  \<open>lib/communication\<close>: connections and the framing of messages, in the two builds the Makefile
  selects, \<open>fifo/\<close> and \<open>socket/\<close> (\<open>comm.send.*.c\<close>, \<open>comm.read.*.c\<close>). A message is sent between
  two copies of a random boundary and read byte by byte until the boundary is seen again. The
  bytes on file descriptors are the record \<open>io\<close>: \<open>fd_in fd\<close> is what the other end writes before
  it closes, \<open>fd_out fd\<close> what was written, \<open>listeners\<close> the listener threads
  started. \<open>flock\<close> and the mutexes order whole calls and have no
  counterpart here. The buffers of the readers are taken at the size the source asks for.
\<close>

section \<open>Connections\<close>

datatype transport = Fifo | Socket

datatype connection_state_t =
  CONNECTION_STATE_IDLE | CONNECTION_STATE_OPEN | CONNECTION_STATE_CLOSED

datatype comm_sense_t = COMMUNICATION_SERVER_CLIENT | COMMUNICATION_CLIENT_SERVER

record comm_addr_t =
  url :: string
  protocol :: string
  host :: string
  valid :: bool
  extra_port :: "int option"

record connection_t =
  client_addr :: comm_addr_t
  server_addr :: comm_addr_t
  connection_file :: string
  conn_state :: connection_state_t
  req_fd :: int
  res_fd :: int
  sense :: comm_sense_t

record comm_error_t =
  err_code :: int
  err_msg :: string

abbreviation comm_error :: "int \<Rightarrow> string \<Rightarrow> comm_error_t" where
  "comm_error c m \<equiv> \<lparr>err_code = c, err_msg = m\<rparr>"

definition NO_COMM_ERROR :: int where "NO_COMM_ERROR = 0"

definition is_connection_open :: "connection_t \<Rightarrow> bool" where
  "is_connection_open conn \<longleftrightarrow> conn_state conn = CONNECTION_STATE_OPEN"

definition is_connection_closed :: "connection_t \<Rightarrow> bool" where
  "is_connection_closed conn \<longleftrightarrow> conn_state conn = CONNECTION_STATE_CLOSED"

record io =
  io_rng :: rng
  fd_in :: "int \<Rightarrow> string"
  fd_out :: "int \<Rightarrow> string"
  listeners :: "connection_t list"

definition emit :: "int \<Rightarrow> string \<Rightarrow> io \<Rightarrow> io" where
  "emit fd s w = w\<lparr>fd_out := (fd_out w)(fd := fd_out w fd @ s)\<rparr>"

lemma emit_emit [simp]: "emit fd t (emit fd s w) = emit fd (s @ t) w"
  by (simp add: emit_def)

section \<open>Sending\<close>

text \<open>
  What both builds write: boundary, data up to its size or terminator, boundary. \<open>data\<close> is the
  block the pointer points into.
\<close>

definition send_frame :: "(nat \<Rightarrow> nat) \<Rightarrow> buf \<Rightarrow> nat \<Rightarrow> connection_t \<Rightarrow> io \<Rightarrow> io result" where
  "send_frame U data sz conn w =
     bindE (gen_boundary U (io_rng w)) (\<lambda>(boundary, r).
     bindE (write_one_by_one_without_zero (boundary @ [ZERO]) (length boundary)) (\<lambda>s1.
     bindE (write_one_by_one_without_zero data sz) (\<lambda>s2.
     bindE (write_one_by_one_without_zero (boundary @ [ZERO]) (length boundary)) (\<lambda>s3.
     Inr (emit (req_fd conn) s3 (emit (req_fd conn) s2
       (emit (req_fd conn) s1 (w\<lparr>io_rng := r\<rparr>))))))))"

definition comm_send_data_fifo ::
  "(nat \<Rightarrow> nat) \<Rightarrow> buf \<Rightarrow> nat \<Rightarrow> connection_t \<Rightarrow> comm_error_t \<Rightarrow> io \<Rightarrow> (comm_error_t \<times> io) result" where
  "comm_send_data_fifo U data sz conn error w =
     bindE (send_frame U data sz conn w) (\<lambda>w'. Inr (comm_error NO_COMM_ERROR ''OK'', w'))"

text \<open>The socket build leaves the error alone.\<close>

definition comm_send_data_socket ::
  "(nat \<Rightarrow> nat) \<Rightarrow> buf \<Rightarrow> nat \<Rightarrow> connection_t \<Rightarrow> comm_error_t \<Rightarrow> io \<Rightarrow> (comm_error_t \<times> io) result" where
  "comm_send_data_socket U data sz conn error w =
     bindE (send_frame U data sz conn w) (\<lambda>w'. Inr (error, w'))"

definition comm_send_data ::
  "transport \<Rightarrow> (nat \<Rightarrow> nat) \<Rightarrow> buf \<Rightarrow> nat \<Rightarrow> connection_t \<Rightarrow> comm_error_t \<Rightarrow> io \<Rightarrow>
   (comm_error_t \<times> io) result" where
  "comm_send_data T =
     (case T of Fifo \<Rightarrow> comm_send_data_fifo | Socket \<Rightarrow> comm_send_data_socket)"

section \<open>Receiving\<close>

definition BUFFER_LENGTH :: nat where "BUFFER_LENGTH = 2048"
definition BOUNDARY_LENGTH :: nat where "BOUNDARY_LENGTH = 128"

text \<open>\<open>read(fd, b + i, 1)\<close>: at the end of the stream nothing is stored.\<close>

definition read1 :: "string \<Rightarrow> buf \<Rightarrow> nat \<Rightarrow> (string \<times> buf) result" where
  "read1 s b i =
     (case s of [] \<Rightarrow> Inr ([], b) | c # s' \<Rightarrow> bindE (poke b i c) (\<lambda>b'. Inr (s', b')))"

lemma read1_length: "read1 s b i = Inr (s', b') \<Longrightarrow> length b' = length b"
  by (auto simp: read1_def poke_def split: list.splits if_splits)

text \<open>The first \<open>do ... while\<close>: up to the first underscore.\<close>

function read_boundary :: "string \<Rightarrow> buf \<Rightarrow> nat \<Rightarrow> (string \<times> buf \<times> nat) result" where
  "read_boundary s b n =
     bindE (read1 s b n) (\<lambda>(s', b').
     bindE (peek b' n) (\<lambda>c.
     if c \<noteq> CHR ''_'' then read_boundary s' b' (Suc n) else Inr (s', b', Suc n)))"
  by pat_completeness auto
termination
  by (relation "measure (\<lambda>(s, b, n). length b - n)")
    (auto simp: peek_def dest!: read1_length split: if_splits)

declare read_boundary.simps [simp del]

text \<open>
  The second one: a byte (two, when the first is NUL), until the last \<open>blen\<close> bytes are the
  boundary in \<open>bd\<close>.
\<close>

function read_body :: "string \<Rightarrow> buf \<Rightarrow> nat \<Rightarrow> buf \<Rightarrow> nat \<Rightarrow> (string \<times> buf \<times> nat) result" where
  "read_body s b n bd blen =
     bindE (read1 s b n) (\<lambda>(s1, b1).
     bindE (peek b1 n) (\<lambda>c.
     bindE (if c = ZERO
            then bindE (read1 s1 b1 (Suc n)) (\<lambda>(s2, b2). Inr (s2, b2, Suc n))
            else Inr (s1, b1, n)) (\<lambda>(s2, b2, m).
     if Suc m \<le> blen then read_body s2 b2 (Suc m) bd blen
     else bindE (strcmp_buf (drop (Suc m - blen) b2) bd) (\<lambda>eq.
       if eq then Inr (s2, b2, Suc m) else read_body s2 b2 (Suc m) bd blen))))"
  by pat_completeness auto
termination
  by (relation "measure (\<lambda>(s, b, n, bd, blen). length b - n)")
    (auto simp: peek_def bindE_Inr_iff dest!: read1_length split: if_splits)

declare read_body.simps [simp del]

text \<open>The body of \<open>comm_receive_data\<close> on the bytes of the descriptor.\<close>

definition receive_bytes :: "string \<Rightarrow> (buf \<times> string) result" where
  "receive_bytes s =
     bindE (read_boundary s (replicate BOUNDARY_LENGTH ZERO) 0) (\<lambda>(s1, bd, n).
     bindE (read1 s1 bd n) (\<lambda>(s2, bd').
     (let boundary_len = n + 1 in
      bindE (read_body s2 (replicate BUFFER_LENGTH ZERO) 0 bd' boundary_len) (\<lambda>(s3, b, m).
      bindE (poke b (m - boundary_len) ZERO) (\<lambda>b'.
      Inr (b', s3))))))"

definition take_received :: "connection_t \<Rightarrow> io \<Rightarrow> (buf \<times> comm_error_t \<times> io) result" where
  "take_received conn w =
     bindE (receive_bytes (fd_in w (res_fd conn))) (\<lambda>(b, rest).
     Inr (b, comm_error NO_COMM_ERROR ''Receive Data Sucessful'',
          w\<lparr>fd_in := (fd_in w)(res_fd conn := rest)\<rparr>))"

definition comm_receive_data_fifo ::
  "connection_t \<Rightarrow> comm_error_t \<Rightarrow> io \<Rightarrow> (buf \<times> comm_error_t \<times> io) result" where
  "comm_receive_data_fifo conn error w = take_received conn w"

definition comm_receive_data_socket ::
  "connection_t \<Rightarrow> comm_error_t \<Rightarrow> io \<Rightarrow> (buf \<times> comm_error_t \<times> io) result" where
  "comm_receive_data_socket conn error w = take_received conn w"

definition comm_receive_data ::
  "transport \<Rightarrow> connection_t \<Rightarrow> comm_error_t \<Rightarrow> io \<Rightarrow> (buf \<times> comm_error_t \<times> io) result" where
  "comm_receive_data T =
     (case T of Fifo \<Rightarrow> comm_receive_data_fifo | Socket \<Rightarrow> comm_receive_data_socket)"

text \<open>
  The thread \<open>comm_send_data_async\<close> starts: it waits for the answer as \<open>comm_receive_data\<close> does,
  under the mutex, and hands it to the callback \<open>cb\<close> with an error of its own.
\<close>

definition data_listener_fifo ::
  "(comm_error_t \<Rightarrow> connection_t \<Rightarrow> buf \<Rightarrow> 'r result) \<Rightarrow> connection_t \<Rightarrow> io \<Rightarrow> ('r \<times> io) result" where
  "data_listener_fifo cb conn w =
     bindE (take_received conn w) (\<lambda>(buffer, error, w').
     bindE (cb error conn buffer) (\<lambda>r. Inr (r, w')))"

definition data_listener_socket ::
  "(comm_error_t \<Rightarrow> connection_t \<Rightarrow> buf \<Rightarrow> 'r result) \<Rightarrow> connection_t \<Rightarrow> io \<Rightarrow> ('r \<times> io) result" where
  "data_listener_socket cb conn w =
     bindE (take_received conn w) (\<lambda>(buffer, error, w').
     bindE (cb error conn buffer) (\<lambda>r. Inr (r, w')))"

definition data_listener ::
  "transport \<Rightarrow> (comm_error_t \<Rightarrow> connection_t \<Rightarrow> buf \<Rightarrow> 'r result) \<Rightarrow> connection_t \<Rightarrow> io \<Rightarrow>
   ('r \<times> io) result" where
  "data_listener T =
     (case T of Fifo \<Rightarrow> data_listener_fifo | Socket \<Rightarrow> data_listener_socket)"

text \<open>
  \<open>comm_send_data_async\<close>: sends the same frame and starts the listener thread, which is added to
  \<open>listeners\<close>. (Creating the mutex and the thread succeeds.)
\<close>

definition comm_send_data_async_fifo ::
  "(nat \<Rightarrow> nat) \<Rightarrow> buf \<Rightarrow> nat \<Rightarrow> connection_t \<Rightarrow> io \<Rightarrow> io result" where
  "comm_send_data_async_fifo U data sz conn w =
     bindE (send_frame U data sz conn w) (\<lambda>w'. Inr (w'\<lparr>listeners := listeners w' @ [conn]\<rparr>))"

definition comm_send_data_async_socket ::
  "(nat \<Rightarrow> nat) \<Rightarrow> buf \<Rightarrow> nat \<Rightarrow> connection_t \<Rightarrow> io \<Rightarrow> io result" where
  "comm_send_data_async_socket U data sz conn w =
     bindE (send_frame U data sz conn w) (\<lambda>w'. Inr (w'\<lparr>listeners := listeners w' @ [conn]\<rparr>))"

definition comm_send_data_async ::
  "transport \<Rightarrow> (nat \<Rightarrow> nat) \<Rightarrow> buf \<Rightarrow> nat \<Rightarrow> connection_t \<Rightarrow> io \<Rightarrow> io result" where
  "comm_send_data_async T =
     (case T of Fifo \<Rightarrow> comm_send_data_async_fifo | Socket \<Rightarrow> comm_send_data_async_socket)"

section \<open>The boundary in a stream\<close>

lemma boundary_split:
  assumes "boundary_shape b"
  obtains p where "b = p @ ''__''" "length p = 28" "CHR ''_'' \<notin> set p" "nul_free p"
proof -
  from assms obtain n where n: "10 ^ 9 \<le> n" "int n < RAND_MAX"
    and b: "b = BOUNDARY_PREFIX @ show_nat n @ ''__''"
    unfolding boundary_shape_def by blast
  let ?p = "BOUNDARY_PREFIX @ show_nat n"
  have "length ?p = 28" using boundary_shape_length [OF assms] b by simp
  moreover have "CHR ''_'' \<notin> set ?p"
    using show_nat_digits [of "CHR ''_''" n] by (auto simp: BOUNDARY_PREFIX_def is_digit_def)
  ultimately show thesis using b by (intro that [of ?p]) simp_all
qed

text \<open>
  A boundary never overlaps a second copy of itself, so after a message that does not contain it
  the first place it ends is where the sender wrote it.
\<close>

lemma boundary_first:
  assumes "boundary_shape b" and "\<not> sublist b d" and "0 < k" and "k < length d"
  shows "take (length b) (drop k (d @ b)) \<noteq> b"
proof
  assume occ: "take (length b) (drop k (d @ b)) = b"
  have len: "length b = 30" by (rule boundary_shape_length [OF assms(1)])
  have at: "(d @ b) ! (k + j) = b ! j" if "j < 30" for j
  proof -
    have "b ! j = take (length b) (drop k (d @ b)) ! j" by (simp only: occ)
    also have "\<dots> = (d @ b) ! (k + j)"
      using that len assms(4) by (simp del: drop_append take_append)
    finally show ?thesis by simp
  qed
  show False
  proof (cases "k + 30 \<le> length d")
    case True
    then have "take 30 (drop k d) = b" using occ len by simp
    then have "d = take k d @ b @ drop 30 (drop k d)"
      by (metis append_take_drop_id)
    then have "sublist b d" unfolding sublist_def by blast
    with assms(2) show False by simp
  next
    case False
    define s where "s = length d - k"
    have s: "0 < s" "s < 30" using False assms(4) by (auto simp: s_def)
    have shift: "b ! j = b ! (j - s)" if "s \<le> j" "j < 30" for j
    proof -
      have "\<not> k + j < length d" "k + j - length d = j - s"
        using that assms(4) by (simp_all add: s_def)
      with at [OF that(2)] show ?thesis by (simp add: nth_append)
    qed
    obtain p where p: "b = p @ ''__''" "length p = 28" "CHR ''_'' \<notin> set p"
      by (rule boundary_split [OF assms(1)])
    have us: "b ! j = CHR ''_'' \<longleftrightarrow> 28 \<le> j" if "j < 30" for j
    proof (cases "j < 28")
      case True
      then have "p ! j \<noteq> CHR ''_''" using p(2,3) nth_mem by metis
      with True p show ?thesis by (auto simp: nth_append)
    next
      case False
      with that have "j = 28 \<or> j = 29" by auto
      with p(1,2) show ?thesis by (auto simp: nth_append)
    qed
    from shift [of 29] us [of 29] us [of "29 - s"] s have "s = 1" by simp
    with shift [of 28] us [of 28] us [of 27] show False by simp
  qed
qed

section \<open>Reading a frame\<close>

lemma read_boundary_prefix:
  assumes "CHR ''_'' \<notin> set p"
  shows "n + length p < length b \<Longrightarrow>
    read_boundary (p @ CHR ''_'' # s) b n =
      Inr (s, take n b @ p @ CHR ''_'' # drop (n + length p + 1) b, n + length p + 1)"
  using assms
proof (induction p arbitrary: b n)
  case Nil
  then show ?case
    by (subst read_boundary.simps)
      (simp add: read1_def poke_def peek_def, simp add: upd_conv_take_nth_drop)
next
  case (Cons c p)
  have "read_boundary (p @ CHR ''_'' # s) (b[n := c]) (Suc n) =
    Inr (s, take (Suc n) (b[n := c]) @ p @ CHR ''_'' # drop (Suc n + length p + 1) (b[n := c]),
         Suc n + length p + 1)"
    using Cons.prems by (intro Cons.IH) simp_all
  moreover have "take (Suc n) (b[n := c]) = take n b @ [c]"
    using Cons.prems by (simp add: take_Suc_conv_app_nth)
  moreover have "c \<noteq> CHR ''_''" using Cons.prems by auto
  ultimately show ?case
    using Cons.prems by (subst read_boundary.simps) (simp add: read1_def poke_def peek_def)
qed

text \<open>
  The reader's state after \<open>n\<close> bytes of \<open>full\<close>: they are in the buffer, the rest is still zero.
\<close>

abbreviation filled :: "nat \<Rightarrow> string \<Rightarrow> nat \<Rightarrow> buf" where
  "filled L full n \<equiv> take n full @ replicate (L - n) ZERO"

lemma filled_Suc:
  "n < length full \<Longrightarrow> n < L \<Longrightarrow> (filled L full n)[n := full ! n] = filled L full (Suc n)"
  by (simp add: list_update_append take_Suc_conv_app_nth Suc_diff_Suc [symmetric])

lemma read_body_byte:
  assumes "n < length full" and "n < L" and "nul_free full"
  shows "read_body (drop n full @ rest) (filled L full n) n bd blen =
    (if Suc n \<le> blen then read_body (drop (Suc n) full @ rest) (filled L full (Suc n)) (Suc n) bd blen
     else bindE (strcmp_buf (drop (Suc n - blen) (filled L full (Suc n))) bd) (\<lambda>eq.
       if eq then Inr (drop (Suc n) full @ rest, filled L full (Suc n), Suc n)
       else read_body (drop (Suc n) full @ rest) (filled L full (Suc n)) (Suc n) bd blen))"
proof -
  have d: "drop n full = full ! n # drop (Suc n) full"
    using assms(1) by (simp add: Cons_nth_drop_Suc)
  have nz: "full ! n \<noteq> ZERO"
    using assms(1,3) by (metis nth_mem nul_free_def)
  have r: "read1 (drop n full @ rest) (filled L full n) n =
      Inr (drop (Suc n) full @ rest, filled L full (Suc n))"
    using assms(1,2) filled_Suc [OF assms(1,2)] by (simp add: d read1_def poke_def)
  have "peek (filled L full (Suc n)) n = Inr (full ! n)"
    using assms(1,2) by (simp add: peek_def nth_append take_Suc_conv_app_nth)
  with r nz show ?thesis
    by (subst read_body.simps) (simp add: Let_def)
qed

lemma nul_free_drop_take: "nul_free s \<Longrightarrow> nul_free (drop i (take j s))"
  unfolding nul_free_def by (meson in_set_dropD in_set_takeD)

lemma strcmp_filled:
  assumes "nul_free full" and "nul_free b" and "k \<le> n" and "n < L" and "n \<le> length full"
  shows "strcmp_buf (drop k (filled L full n)) (b @ ZERO # z) = Inr (drop k (take n full) = b)"
proof -
  have "drop k (filled L full n) = drop k (take n full) @ ZERO # replicate (L - n - 1) ZERO"
    using assms(3-5) by (cases "L - n") simp_all
  then show ?thesis
    using strcmp_buf_strings [OF nul_free_drop_take [OF assms(1), of k n] assms(2)] by simp
qed

lemma read_body_frame:
  assumes "nul_free full" and "nul_free b" and "length b = blen" and "length full < L"
    and "drop (length full - blen) full = b" and "blen < length full"
    and "\<forall>m. blen < m \<and> m < length full \<longrightarrow> drop (m - blen) (take m full) \<noteq> b"
  shows "n < length full \<Longrightarrow>
    read_body (drop n full @ rest) (filled L full n) n (b @ ZERO # z) blen =
      Inr (rest, filled L full (length full), length full)"
proof (induction "length full - n" arbitrary: n)
  case 0
  then show ?case by simp
next
  case (Suc k)
  then have L: "n < L" using assms(4) by simp
  note step = read_body_byte [OF Suc.prems L assms(1), of rest "b @ ZERO # z" blen]
  show ?case
  proof (cases "Suc n = length full")
    case True
    then have "strcmp_buf (drop (Suc n - blen) (filled L full (Suc n))) (b @ ZERO # z) = Inr True"
      using assms strcmp_filled [OF assms(1,2), of "Suc n - blen" "Suc n" L z] by simp
    with True step assms(6) show ?thesis by simp
  next
    case False
    with Suc.prems have lt: "Suc n < length full" by simp
    have IH: "read_body (drop (Suc n) full @ rest) (filled L full (Suc n)) (Suc n) (b @ ZERO # z) blen =
        Inr (rest, filled L full (length full), length full)"
      using Suc.hyps lt by simp
    show ?thesis
    proof (cases "Suc n \<le> blen")
      case True
      with step IH show ?thesis by simp
    next
      case nle: False
      have "drop (Suc n - blen) (take (Suc n) full) \<noteq> b"
      proof (cases "Suc n = blen")
        case False
        with nle lt assms(7) show ?thesis by simp
      next
        case True
        with nle show ?thesis by simp
      qed
      then have "strcmp_buf (drop (Suc n - blen) (filled L full (Suc n))) (b @ ZERO # z) = Inr False"
        using lt assms(4) strcmp_filled [OF assms(1,2), of "Suc n - blen" "Suc n" L z] by simp
      with step nle IH show ?thesis by simp
    qed
  qed
qed

text \<open>What a receiver needs of a message: something in it, no NUL, not its own boundary, and room.\<close>

definition frame_ok :: "string \<Rightarrow> string \<Rightarrow> bool" where
  "frame_ok b d \<longleftrightarrow> boundary_shape b \<and> d \<noteq> [] \<and> nul_free d \<and> \<not> sublist b d \<and>
     length d + length b < BUFFER_LENGTH"

lemma read_boundary_shape:
  assumes "boundary_shape b"
  obtains q where "read_boundary (b @ s) (replicate BOUNDARY_LENGTH ZERO) 0 =
      Inr (CHR ''_'' # s, q, 29)" "q[29 := CHR ''_''] = b @ ZERO # replicate 97 ZERO" "length q = 128"
proof -
  obtain p where p: "b = p @ ''__''" "length p = 28" "CHR ''_'' \<notin> set p"
    by (rule boundary_split [OF assms])
  have "read_boundary (p @ CHR ''_'' # CHR ''_'' # s) (replicate 128 ZERO) 0 =
      Inr (CHR ''_'' # s, p @ CHR ''_'' # replicate 99 ZERO, 29)"
    using read_boundary_prefix [OF p(3), of 0 "replicate 128 ZERO" "CHR ''_'' # s"] p(2) by simp
  moreover have "(p @ CHR ''_'' # replicate 99 ZERO)[29 := CHR ''_''] = b @ ZERO # replicate 97 ZERO"
  proof -
    have "replicate 99 ZERO = ZERO # ZERO # replicate 97 ZERO"
      by (simp add: numeral_eq_Suc)
    then show ?thesis by (simp add: p(1,2) list_update_append)
  qed
  moreover have "length (p @ CHR ''_'' # replicate 99 ZERO) = 128"
    using p(2) by simp
  ultimately show thesis
    by (intro that [of "p @ CHR ''_'' # replicate 99 ZERO"]) (simp_all only: p(1) BOUNDARY_LENGTH_def append_assoc append_Cons append_Nil)
qed

lemma receive_bytes_boundary:
  assumes "boundary_shape b"
  shows "receive_bytes (b @ s) =
    bindE (read_body s (replicate BUFFER_LENGTH ZERO) 0 (b @ ZERO # replicate 97 ZERO) 30)
      (\<lambda>(s3, buf, m). bindE (poke buf (m - 30) ZERO) (\<lambda>b'. Inr (b', s3)))"
proof -
  obtain q where q: "read_boundary (b @ s) (replicate BOUNDARY_LENGTH ZERO) 0 = Inr (CHR ''_'' # s, q, 29)"
    "q[29 := CHR ''_''] = b @ ZERO # replicate 97 ZERO" "length q = 128"
    by (rule read_boundary_shape [OF assms])
  moreover have "poke q 29 (CHR ''_'') = Inr (b @ ZERO # replicate 97 ZERO)"
    using q(2,3) by (simp add: poke_def)
  ultimately show ?thesis
    by (simp add: receive_bytes_def read1_def Let_def)
qed

lemma receive_bytes_frame:
  assumes "frame_ok b d"
  shows "\<exists>t. receive_bytes (b @ d @ b @ rest) = Inr (d @ ZERO # t, rest)"
proof -
  let ?full = "d @ b"
  have b: "boundary_shape b" and d: "d \<noteq> []" "nul_free d" "\<not> sublist b d"
    and room: "length d + length b < 2048"
    using assms by (simp_all add: frame_ok_def BUFFER_LENGTH_def)
  have len: "length b = 30" by (rule boundary_shape_length [OF b])
  have first: "\<forall>m. 30 < m \<and> m < length ?full \<longrightarrow> drop (m - 30) (take m ?full) \<noteq> b"
  proof (intro allI impI)
    fix m assume m: "30 < m \<and> m < length ?full"
    then have "take (length b) (drop (m - 30) ?full) \<noteq> b"
      using len by (intro boundary_first [OF b d(3)]) auto
    with m len show "drop (m - 30) (take m ?full) \<noteq> b"
      by (metis drop_take diff_diff_cancel less_imp_le)
  qed
  have "read_body (drop 0 ?full @ rest) (filled 2048 ?full 0) 0 (b @ ZERO # replicate 97 ZERO) 30 =
      Inr (rest, filled 2048 ?full (length ?full), length ?full)"
    using b d room len first boundary_shape_nul_free [OF b] by (intro read_body_frame) simp_all
  moreover have "(?full @ replicate (2048 - length ?full) ZERO)[length d := ZERO] =
      d @ ZERO # tl b @ replicate (2048 - length ?full) ZERO"
    using len by (cases b) (simp_all add: list_update_append)
  ultimately have "receive_bytes (b @ d @ b @ rest) =
      Inr (d @ ZERO # tl b @ replicate (2048 - length ?full) ZERO, rest)"
    using room len by (simp add: receive_bytes_boundary [OF b] BUFFER_LENGTH_def poke_def)
  then show ?thesis by blast
qed

lemma receive_bytes_string:
  assumes "frame_ok b d"
  shows "\<exists>buf. receive_bytes (b @ d @ b @ rest) = Inr (buf, rest) \<and> cstr buf = Inr d"
proof -
  have "nul_free d" using assms by (simp add: frame_ok_def)
  with receive_bytes_frame [OF assms, of rest] show ?thesis
    using cstr_append by fastforce
qed

section \<open>Streams a receiver cannot read\<close>

lemma read_boundary_none:
  "CHR ''_'' \<notin> set s \<Longrightarrow> CHR ''_'' \<notin> set b \<Longrightarrow> read_boundary s b n = Inl Out_of_bounds"
proof (induction s b n rule: read_boundary.induct)
  case (1 s b n)
  show ?case
  proof (cases "n < length b")
    case False
    then show ?thesis
      by (subst read_boundary.simps) (simp add: read1_def poke_def peek_def split: list.splits)
  next
    case True
    obtain s' b' where r: "read1 s b n = Inr (s', b')" and s': "CHR ''_'' \<notin> set s'"
      and b': "CHR ''_'' \<notin> set b'" "length b' = length b"
    proof (cases s)
      case Nil
      with "1.prems" show thesis by (intro that [of "[]" b]) (simp_all add: read1_def)
    next
      case (Cons c t)
      with "1.prems" True show thesis
        by (intro that [of t "b[n := c]"])
          (auto simp: read1_def poke_def dest!: subsetD [OF set_update_subset_insert])
    qed
    from True b' have "b' ! n \<in> set b'" by simp
    with b'(1) have nu: "b' ! n \<noteq> CHR ''_''" by metis
    from True b'(2) have p: "peek b' n = Inr (b' ! n)" by (simp add: peek_def)
    have "read_boundary s' b' (Suc n) = Inl Out_of_bounds"
      using "1.IH" [OF r refl p nu] s' b'(1) by simp
    with r p nu show ?thesis by (subst read_boundary.simps) simp
  qed
qed

lemma receive_bytes_no_boundary:
  "CHR ''_'' \<notin> set s \<Longrightarrow> receive_bytes s = Inl Out_of_bounds"
  by (simp add: receive_bytes_def read_boundary_none)

lemma strcmp_unterminated:
  "length x = length b \<Longrightarrow> nul_free x \<Longrightarrow>
   strcmp_buf x (b @ ZERO # z) = (if x = b then Inl Out_of_bounds else Inr False)"
proof (induction x arbitrary: b)
  case (Cons c x)
  then show ?case by (cases b) auto
qed simp

lemma read_body_full: "length b \<le> n \<Longrightarrow> read_body s b n bd blen = Inl Out_of_bounds"
  by (subst read_body.simps) (simp add: read1_def poke_def peek_def split: list.splits)

lemma read_body_overrun:
  assumes "nul_free full" and "nul_free b" and "length b = blen" and "L \<le> length full" and "blen < L"
    and "\<forall>m. blen < m \<and> m < L \<longrightarrow> drop (m - blen) (take m full) \<noteq> b"
  shows "n \<le> L \<Longrightarrow>
    read_body (drop n full @ rest) (filled L full n) n (b @ ZERO # z) blen = Inl Out_of_bounds"
proof (induction "L - n" arbitrary: n)
  case 0
  with assms(4) show ?case by (intro read_body_full) simp
next
  case (Suc k)
  then have lt: "n < L" "n < length full" using assms(4) by simp_all
  note step = read_body_byte [OF lt(2,1) assms(1), of rest "b @ ZERO # z" blen]
  have stop: "read_body (drop (Suc n) full @ rest) (filled L full (Suc n)) (Suc n) (b @ ZERO # z) blen
      = Inl Out_of_bounds"
    using Suc.hyps lt(1) by simp
  show ?case
  proof (cases "Suc n < L")
    case True
    have "strcmp_buf (drop (Suc n - blen) (filled L full (Suc n))) (b @ ZERO # z) = Inr False"
      if "blen < Suc n"
      using True that assms(4,6) strcmp_filled [OF assms(1,2), of "Suc n - blen" "Suc n" L z] by simp
    with step stop show ?thesis by (cases "Suc n \<le> blen") simp_all
  next
    case False
    with lt have L: "Suc n = L" by simp
    let ?x = "drop (L - blen) (take L full)"
    have x: "length ?x = length b" "nul_free ?x"
      using assms(1,3,4,5) nul_free_drop_take by auto
    have "strcmp_buf (drop (Suc n - blen) (filled L full (Suc n))) (b @ ZERO # z) =
        (if ?x = b then Inl Out_of_bounds else Inr False)"
      using strcmp_unterminated [OF x, of z] L by simp
    with step stop L assms(5) show ?thesis by simp
  qed
qed

lemma receive_bytes_long:
  assumes "boundary_shape b" and "nul_free d" and "\<not> sublist b d" and "2048 \<le> length d + 30"
  shows "receive_bytes (b @ d @ b @ rest) = Inl Out_of_bounds"
proof -
  let ?full = "d @ b"
  have len: "length b = 30" by (rule boundary_shape_length [OF assms(1)])
  have first: "\<forall>m. 30 < m \<and> m < 2048 \<longrightarrow> drop (m - 30) (take m ?full) \<noteq> b"
  proof (intro allI impI)
    fix m assume m: "30 < m \<and> m < (2048::nat)"
    then have "take (length b) (drop (m - 30) ?full) \<noteq> b"
      using assms(4) by (intro boundary_first [OF assms(1,3)]) auto
    with m len show "drop (m - 30) (take m ?full) \<noteq> b"
      by (metis drop_take diff_diff_cancel less_imp_le)
  qed
  have "read_body (drop 0 ?full @ rest) (filled 2048 ?full 0) 0 (b @ ZERO # replicate 97 ZERO) 30 =
      Inl Out_of_bounds"
    using assms(2,4) len first boundary_shape_nul_free [OF assms(1)]
    by (intro read_body_overrun) simp_all
  then show ?thesis
    by (simp add: receive_bytes_boundary [OF assms(1)] BUFFER_LENGTH_def)
qed

section \<open>What is sent\<close>

lemma send_frame_bytes:
  assumes "allocator U" and "rng_ok (io_rng w)" and "nul_free d"
  obtains b r where
    "send_frame U (d @ ZERO # t) (length d) conn w = Inr (emit (req_fd conn) (b @ d @ b) (w\<lparr>io_rng := r\<rparr>))"
    "boundary_shape b" "rng_ok r"
proof -
  obtain b r where g: "gen_boundary U (io_rng w) = Inr (b, r)" "boundary_shape b" "rng_ok r"
    by (rule gen_boundary_ok [OF assms(1,2)])
  then have "send_frame U (d @ ZERO # t) (length d) conn w =
      Inr (emit (req_fd conn) (b @ d @ b) (w\<lparr>io_rng := r\<rparr>))"
    using assms(3) boundary_shape_nul_free [OF g(2)]
    by (simp add: send_frame_def write_without_zero_string)
  with g show thesis by (intro that)
qed

lemma comm_send_data_bytes:
  assumes "allocator U" and "rng_ok (io_rng w)" and "nul_free d"
  obtains b r where
    "comm_send_data T U (d @ ZERO # t) (length d) conn e w =
       Inr (case T of Fifo \<Rightarrow> comm_error NO_COMM_ERROR ''OK'' | Socket \<Rightarrow> e,
            emit (req_fd conn) (b @ d @ b) (w\<lparr>io_rng := r\<rparr>))"
    "boundary_shape b" "rng_ok r"
proof -
  obtain b r where s:
    "send_frame U (d @ ZERO # t) (length d) conn w = Inr (emit (req_fd conn) (b @ d @ b) (w\<lparr>io_rng := r\<rparr>))"
    "boundary_shape b" "rng_ok r"
    by (rule send_frame_bytes [OF assms])
  then have "comm_send_data T U (d @ ZERO # t) (length d) conn e w =
       Inr (case T of Fifo \<Rightarrow> comm_error NO_COMM_ERROR ''OK'' | Socket \<Rightarrow> e,
            emit (req_fd conn) (b @ d @ b) (w\<lparr>io_rng := r\<rparr>))"
    by (cases T) (simp_all add: comm_send_data_def comm_send_data_fifo_def comm_send_data_socket_def)
  with s show thesis by (intro that)
qed

lemma comm_receive_data_take: "comm_receive_data T conn e w = take_received conn w"
  by (cases T) (simp_all add: comm_receive_data_def comm_receive_data_fifo_def comm_receive_data_socket_def)

lemma comm_receive_frame:
  assumes "frame_ok b d" and "fd_in w (res_fd conn) = b @ d @ b @ rest"
  obtains t where "comm_receive_data T conn e w =
      Inr (d @ ZERO # t, comm_error NO_COMM_ERROR ''Receive Data Sucessful'',
           w\<lparr>fd_in := (fd_in w)(res_fd conn := rest)\<rparr>)"
  using receive_bytes_frame [OF assms(1), of rest] assms(2)
  by (auto simp: comm_receive_data_take take_received_def)

lemma sublist_prefix: "boundary_shape b \<Longrightarrow> sublist b d \<Longrightarrow> sublist BOUNDARY_PREFIX d"
  unfolding boundary_shape_def sublist_def by (metis append_assoc)

section \<open>Messages over one connection\<close>

text \<open>
  The contract of a framing, for whatever sends several messages over one connection: what was
  framed is read back, and reading stops where the frame does.
\<close>

locale message_channel =
  fixes frame :: "'b \<Rightarrow> string \<Rightarrow> string"
    and unframe :: "string \<Rightarrow> (buf \<times> string) result"
    and deliverable :: "'b \<Rightarrow> string \<Rightarrow> bool"
  assumes unframe_frame:
    "deliverable b d \<Longrightarrow> \<exists>buf. unframe (frame b d @ rest) = Inr (buf, rest) \<and> cstr buf = Inr d"

text \<open>Receiving \<open>n\<close> messages one after the other.\<close>

fun receive_all :: "(string \<Rightarrow> (buf \<times> string) result) \<Rightarrow> nat \<Rightarrow> string \<Rightarrow> (string list \<times> string) result" where
  "receive_all unframe 0 s = Inr ([], s)"
| "receive_all unframe (Suc n) s =
     bindE (unframe s) (\<lambda>(b, s').
     bindE (cstr b) (\<lambda>d.
     bindE (receive_all unframe n s') (\<lambda>(ds, s''). Inr (d # ds, s''))))"

context message_channel
begin

lemma receive_all_frames:
  "\<forall>m \<in> set ms. deliverable (fst m) (snd m) \<Longrightarrow>
   receive_all unframe (length ms) (concat (map (\<lambda>(b, d). frame b d) ms) @ rest) =
     Inr (map snd ms, rest)"
proof (induction ms)
  case Nil
  then show ?case by simp
next
  case (Cons m ms)
  obtain b d where m: "m = (b, d)" by (cases m)
  with Cons.prems have "deliverable b d" by simp
  from unframe_frame [OF this, of "concat (map (\<lambda>(b, d). frame b d) ms) @ rest"] Cons m
  show ?case by auto
qed

lemma frame_prefix_unique:
  assumes "deliverable b d" and "deliverable b' d'" and "frame b d @ r = frame b' d' @ r'"
  shows "d = d' \<and> r = r'"
  using unframe_frame [OF assms(1), of r] unframe_frame [OF assms(2), of r'] assms(3)
  by force

end

definition frame_bytes :: "string \<Rightarrow> string \<Rightarrow> string" where
  "frame_bytes b d = b @ d @ b"

interpretation boundary_channel: message_channel frame_bytes receive_bytes frame_ok
proof unfold_locales
  fix b d rest
  assume "frame_ok b d"
  then show "\<exists>buf. receive_bytes (frame_bytes b d @ rest) = Inr (buf, rest) \<and> cstr buf = Inr d"
    using receive_bytes_string by (simp add: frame_bytes_def)
qed

section \<open>Properties\<close>

text \<open>
  C13: in both builds, a message sent over a connection is received unchanged at the other end, and
  nothing of what follows it on the wire is consumed, provided it is not empty, has no NUL byte,
  does not contain the boundary prefix and fits the receiver's buffer with its boundary.
\<close>

theorem send_receive_roundtrip:
  assumes "allocator U" and "rng_ok (io_rng w)"
    and "d \<noteq> []" and "nul_free d" and "\<not> sublist BOUNDARY_PREFIX d" and "length d + 30 < 2048"
  shows "\<exists>bytes e' w'.
    comm_send_data T U (d @ [ZERO]) (length d) conn e w = Inr (e', w') \<and>
    fd_out w' (req_fd conn) = fd_out w (req_fd conn) @ bytes \<and> rng_ok (io_rng w') \<and>
    (\<forall>v conn2 e2 rest. fd_in v (res_fd conn2) = bytes @ rest \<longrightarrow>
       (\<exists>buf. comm_receive_data T conn2 e2 v =
          Inr (buf, comm_error 0 ''Receive Data Sucessful'',
               v\<lparr>fd_in := (fd_in v)(res_fd conn2 := rest)\<rparr>) \<and> cstr buf = Inr d))"
proof -
  obtain b r where s: "comm_send_data T U (d @ [ZERO]) (length d) conn e w =
       Inr (case T of Fifo \<Rightarrow> comm_error NO_COMM_ERROR ''OK'' | Socket \<Rightarrow> e,
            emit (req_fd conn) (b @ d @ b) (w\<lparr>io_rng := r\<rparr>))"
    and b: "boundary_shape b" and r: "rng_ok r"
    by (rule comm_send_data_bytes [OF assms(1,2,4), of T "[]" conn e])
  have ok: "frame_ok b d"
    using assms(3-6) b sublist_prefix [OF b] boundary_shape_length [OF b]
    by (auto simp: frame_ok_def BUFFER_LENGTH_def)
  have "\<exists>buf. comm_receive_data T conn2 e2 v =
          Inr (buf, comm_error 0 ''Receive Data Sucessful'',
               v\<lparr>fd_in := (fd_in v)(res_fd conn2 := rest)\<rparr>) \<and> cstr buf = Inr d"
    if "fd_in v (res_fd conn2) = (b @ d @ b) @ rest" for v conn2 e2 rest
    using comm_receive_frame [OF ok, of v conn2 rest T e2] that cstr_append [OF assms(4)]
    by (fastforce simp: NO_COMM_ERROR_def)
  with s r show ?thesis
    by (intro exI [of _ "b @ d @ b"]) (auto simp: emit_def)
qed

definition sample_rng :: rng where
  "sample_rng = \<lparr>seeded = False, rand_max_digits = -1, draws = (\<lambda>n. 7 * n), drawn = 0\<rparr>"

definition sample_io :: io where
  "sample_io = \<lparr>io_rng = sample_rng, fd_in = (\<lambda>_. []), fd_out = (\<lambda>_. []), listeners = []\<rparr>"

definition sample_addr :: comm_addr_t where
  "sample_addr = \<lparr>url = ''fifo://google'', protocol = ''fifo'', host = ''google'', valid = True,
                 extra_port = None\<rparr>"

definition sample_conn :: connection_t where
  "sample_conn = \<lparr>client_addr = sample_addr, server_addr = sample_addr, connection_file = [],
     conn_state = CONNECTION_STATE_OPEN, req_fd = 4, res_fd = 5, sense = COMMUNICATION_CLIENT_SERVER\<rparr>"

lemma sample_rng_ok [simp]: "rng_ok (io_rng sample_io)"
  by (simp add: sample_io_def sample_rng_def rng_ok_def)

theorem send_receive_roundtrip_witness:
  "\<exists>bytes e' w'.
    comm_send_data Fifo exact_size (''hola'' @ [ZERO]) (length ''hola'') sample_conn (comm_error 7 []) sample_io
      = Inr (e', w') \<and>
    fd_out w' (req_fd sample_conn) = fd_out sample_io (req_fd sample_conn) @ bytes \<and> rng_ok (io_rng w') \<and>
    (\<forall>v conn2 e2 rest. fd_in v (res_fd conn2) = bytes @ rest \<longrightarrow>
       (\<exists>buf. comm_receive_data Fifo conn2 e2 v =
          Inr (buf, comm_error 0 ''Receive Data Sucessful'',
               v\<lparr>fd_in := (fd_in v)(res_fd conn2 := rest)\<rparr>) \<and> cstr buf = Inr ''hola''))"
proof -
  have "\<not> sublist BOUNDARY_PREFIX ''hola''"
    by (auto simp: BOUNDARY_PREFIX_def dest: sublist_length_le)
  then show ?thesis
    by (intro send_receive_roundtrip) simp_all
qed

text \<open>
  Any number of messages written one after the other to a connection are read back in order,
  each one unchanged, and the reader stops exactly behind the last one.
\<close>

theorem messages_in_order:
  assumes "\<forall>m \<in> set ms. frame_ok (fst m) (snd m)"
  shows "receive_all receive_bytes (length ms) (concat (map (\<lambda>(b, d). frame_bytes b d) ms) @ rest) =
    Inr (map snd ms, rest)"
  using assms by (rule boundary_channel.receive_all_frames)

definition sample_boundary :: string where
  "sample_boundary = BOUNDARY_PREFIX @ show_nat 1000000007 @ ''__''"

lemma sample_boundary_shape [simp]: "boundary_shape sample_boundary"
  unfolding boundary_shape_def sample_boundary_def RAND_MAX_def by (rule exI [of _ 1000000007]) simp

lemma frame_ok_sample:
  assumes "d \<noteq> []" and "nul_free d" and "length d < 18"
  shows "frame_ok sample_boundary d"
proof -
  have len: "length sample_boundary = 30" by (rule boundary_shape_length) simp
  have "\<not> sublist sample_boundary d"
    using sublist_length_le [of sample_boundary d] len assms(3) by linarith
  with assms len show ?thesis by (simp add: frame_ok_def BUFFER_LENGTH_def)
qed

lemma frame_ok_text:
  assumes "s \<noteq> []" "nul_free s" "CHR ''-'' \<notin> set s" "length s < 2018"
  shows "frame_ok sample_boundary s"
proof -
  have len: "length sample_boundary = 30" by (rule boundary_shape_length) simp
  have "CHR ''-'' \<in> set sample_boundary" by (simp add: sample_boundary_def BOUNDARY_PREFIX_def)
  with assms(3) have "\<not> sublist sample_boundary s"
    using set_mono_sublist by blast
  with len assms show ?thesis by (simp add: frame_ok_def BUFFER_LENGTH_def)
qed

theorem messages_in_order_witness:
  "let b = sample_boundary; ms = [(b, ''uno''), (b, ''dos'')]
   in receive_all receive_bytes (length ms) (concat (map (\<lambda>(b, d). frame_bytes b d) ms) @ ''resto'') =
        Inr (map snd ms, ''resto'')"
  unfolding Let_def by (rule messages_in_order) (simp add: frame_ok_sample)

text \<open>
  The receiver's buffer decides which messages can be read: one that does not contain its
  boundary is received exactly when it and the boundary stay below 2048 bytes, and any longer one is
  written past the end of the buffer.
\<close>

theorem receive_bytes_bound:
  assumes "boundary_shape b" and "nul_free d" and "\<not> sublist b d" and "d \<noteq> []"
  shows "receive_bytes (frame_bytes b d @ rest) = Inl Out_of_bounds \<longleftrightarrow> 2048 \<le> length d + 30"
proof (cases "2048 \<le> length d + 30")
  case True
  with receive_bytes_long [OF assms(1-3)] show ?thesis by (simp add: frame_bytes_def)
next
  case False
  then have "frame_ok b d"
    using assms boundary_shape_length [OF assms(1)] by (simp add: frame_ok_def BUFFER_LENGTH_def)
  with False receive_bytes_frame [of b d rest] show ?thesis by (auto simp: frame_bytes_def)
qed

theorem receive_bytes_bound_witness:
  "receive_bytes (frame_bytes sample_boundary (replicate 2018 (CHR ''a'')) @ []) = Inl Out_of_bounds"
proof -
  define d where "d = replicate 2018 (CHR ''a'')"
  have len: "length d = 2018" by (simp only: d_def length_replicate)
  have s: "set d \<subseteq> {CHR ''a''}" unfolding d_def set_replicate_conv_if by auto
  have "CHR ''-'' \<in> set sample_boundary" by (simp add: sample_boundary_def BOUNDARY_PREFIX_def)
  then have n: "\<not> sublist sample_boundary d"
    using s set_mono_sublist [of sample_boundary d] by auto
  have z: "nul_free d" using s by (auto simp: nul_free_def)
  have "d \<noteq> []" using len by auto
  from receive_bytes_bound [OF sample_boundary_shape z n this, of "[]"] len
  show ?thesis by (simp add: d_def)
qed

text \<open>
  A peer that closes the connection (or sends bytes with no underscore) never makes the
  receiver return an error: it keeps reading nothing until the boundary buffer is overrun.
\<close>

theorem receive_closed_peer:
  assumes "CHR ''_'' \<notin> set (fd_in w (res_fd conn))"
  shows "comm_receive_data T conn e w = Inl Out_of_bounds"
  using receive_bytes_no_boundary [OF assms] by (simp add: comm_receive_data_take take_received_def)

theorem receive_closed_peer_witness:
  "comm_receive_data Socket sample_conn (comm_error 0 []) sample_io = Inl Out_of_bounds"
  by (rule receive_closed_peer) (simp add: sample_io_def)

end
