(* ===== verification/Codec.thy ===== *)
theory Codec
  imports Channel
begin

text \<open>
  The contract between what is written as text and what is read back, as the protocol layers use
  it: \<open>codec\<close> for a text format, \<open>message_link\<close> for a format sent over a framing. The \<open>'l\<close> of a
  codec is whatever third-party code it works with.
\<close>

locale codec =
  fixes enc :: "'l \<Rightarrow> 'm \<Rightarrow> string result"
    and dec :: "'l \<Rightarrow> string \<Rightarrow> 'r result"
    and admissible :: "'l \<Rightarrow> 'm \<Rightarrow> bool"
    and carries :: "'l \<Rightarrow> 'm \<Rightarrow> 'r \<Rightarrow> bool"
  assumes enc_text: "admissible l m \<Longrightarrow> \<exists>t. enc l m = Inr t \<and> nul_free t"
    and dec_enc: "admissible l m \<Longrightarrow> enc l m = Inr t \<Longrightarrow> \<exists>r. dec l t = Inr r \<and> carries l m r"
begin

lemma same_text:
  assumes "admissible l m" and "admissible l m'" and "enc l m = enc l m'"
  shows "\<exists>r. carries l m r \<and> carries l m' r"
proof -
  obtain t where t: "enc l m = Inr t" using enc_text [OF assms(1)] by blast
  with dec_enc [OF assms(1) t] dec_enc [OF assms(2), of t] assms(3) show ?thesis by force
qed

end

text \<open>Reading \<open>n\<close> messages off a stream and decoding each.\<close>

fun decode_all ::
  "(string \<Rightarrow> (buf \<times> string) result) \<Rightarrow> (string \<Rightarrow> 'r result) \<Rightarrow> nat \<Rightarrow> string \<Rightarrow>
   ('r list \<times> string) result" where
  "decode_all unframe dec 0 s = Inr ([], s)"
| "decode_all unframe dec (Suc n) s =
     bindE (unframe s) (\<lambda>(b, s').
     bindE (cstr b) (\<lambda>d.
     bindE (dec d) (\<lambda>r.
     bindE (decode_all unframe dec n s') (\<lambda>(rs, s''). Inr (r # rs, s'')))))"

locale message_link =
  message_channel frame unframe deliverable + codec enc dec admissible carries
  for frame :: "'b \<Rightarrow> string \<Rightarrow> string"
    and unframe :: "string \<Rightarrow> (buf \<times> string) result"
    and deliverable :: "'b \<Rightarrow> string \<Rightarrow> bool"
    and enc :: "'l \<Rightarrow> 'm \<Rightarrow> string result"
    and dec :: "'l \<Rightarrow> string \<Rightarrow> 'r result"
    and admissible :: "'l \<Rightarrow> 'm \<Rightarrow> bool"
    and carries :: "'l \<Rightarrow> 'm \<Rightarrow> 'r \<Rightarrow> bool"
begin

lemma link_delivers:
  assumes "admissible l m" and "enc l m = Inr t" and "deliverable b t"
  shows "\<exists>buf r. unframe (frame b t @ rest) = Inr (buf, rest) \<and> cstr buf = Inr t \<and>
                 dec l t = Inr r \<and> carries l m r"
  using unframe_frame [OF assms(3), of rest] dec_enc [OF assms(1,2)] by blast

lemma link_delivers_all:
  "\<forall>(b, m, t) \<in> set ms. admissible l m \<and> enc l m = Inr t \<and> deliverable b t \<Longrightarrow>
   \<exists>rs. decode_all unframe (dec l) (length ms) (concat (map (\<lambda>(b, m, t). frame b t) ms) @ rest) =
          Inr (rs, rest) \<and> list_all2 (carries l) (map (fst \<circ> snd) ms) rs"
proof (induction ms)
  case Nil
  then show ?case by simp
next
  case (Cons x ms)
  obtain b m t where x: "x = (b, m, t)" by (cases x)
  let ?rest = "concat (map (\<lambda>(b, m, t). frame b t) ms) @ rest"
  from Cons.prems x have "admissible l m" "enc l m = Inr t" "deliverable b t" by simp_all
  from link_delivers [OF this, of ?rest] obtain buf r where
    "unframe (frame b t @ ?rest) = Inr (buf, ?rest)" "cstr buf = Inr t" "dec l t = Inr r" "carries l m r"
    by blast
  with Cons x show ?case by auto
qed

end

end
