(* ===== verification/Serialization.thy ===== *)
theory Serialization
  imports Json_Api Codec
begin

text \<open>
  \<open>lib/serialization/serialization.c\<close> and \<open>client/types.h\<close>: the messages of the protocol, their
  text (\<open>stringify_*\<close>), reading them back (\<open>parse_encoded\<close>), and the calls that send and receive
  them (\<open>send_*\<close>, \<open>receive\<close>). The json-c library is the parameter \<open>J\<close>, the allocator \<open>U\<close>, the
  content of fresh memory \<open>junk\<close>. A member that is missing is a null pointer for the source's
  \<open>strlen\<close>.
\<close>

section \<open>Messages\<close>

record command_get_t =
  get_path :: string

record command_post_t =
  post_data :: string
  post_dest :: string
  post_size :: nat

record user_t =
  username :: string
  password :: string
  admin :: boolean

record command_login_t =
  login_user :: user_t

record command_new_user_t =
  new_user :: user_t

record command_change_pass_t =
  pass :: string

datatype parse_data =
    PInt int
  | PDouble "64 word"
  | PStr string
  | PData buf
  | PGet command_get_t
  | PPost command_post_t
  | PLogin command_login_t
  | PLogout
  | PClose
  | PNew_user command_new_user_t
  | PChange_pass command_change_pass_t
  | PUnset    \<comment> \<open>the union of a result of unknown kind is never written\<close>

record parse_result_t =
  kind :: string
  pdata :: parse_data

section \<open>Text\<close>

definition stringify_int :: "'j json_lib \<Rightarrow> int \<Rightarrow> string" where
  "stringify_int J i = json_to_string J
     (json_object_add J (json_object_add J (json_new_object J)
       ''kind'' (json_new_string J ''int''))
       ''value'' (json_new_int J i))"

definition stringify_double :: "'j json_lib \<Rightarrow> 64 word \<Rightarrow> string" where
  "stringify_double J d = json_to_string J
     (json_object_add J (json_object_add J (json_new_object J)
       ''kind'' (json_new_string J ''double''))
       ''value'' (json_new_double J d))"

definition stringify_string :: "'j json_lib \<Rightarrow> string \<Rightarrow> string" where
  "stringify_string J s = json_to_string J
     (json_object_add J (json_object_add J (json_new_object J)
       ''kind'' (json_new_string J ''string''))
       ''value'' (json_new_string J s))"

definition stringify_data :: "'j json_lib \<Rightarrow> string \<Rightarrow> nat \<Rightarrow> string" where
  "stringify_data J s sz = json_to_string J
     (json_object_add J (json_object_add J (json_object_add J (json_new_object J)
       ''kind'' (json_new_string J ''data''))
       ''value'' (json_new_string J s))
       ''size'' (json_new_int J (to_int32 (int sz))))"

definition stringify_command_get :: "'j json_lib \<Rightarrow> command_get_t \<Rightarrow> string" where
  "stringify_command_get J cmd = json_to_string J
     (json_object_add J (json_object_add J (json_new_object J)
       ''kind'' (json_new_string J ''command.get''))
       ''path'' (json_new_string J (get_path cmd)))"

definition stringify_command_post :: "'j json_lib \<Rightarrow> command_post_t \<Rightarrow> string" where
  "stringify_command_post J cmd = json_to_string J
     (json_object_add J (json_object_add J (json_object_add J (json_object_add J (json_new_object J)
       ''kind'' (json_new_string J ''command.post''))
       ''data'' (json_new_string J (post_data cmd)))
       ''dest'' (json_new_string J (post_dest cmd)))
       ''size'' (json_new_int J (to_int32 (int (post_size cmd)))))"

definition stringify_command_login :: "'j json_lib \<Rightarrow> command_login_t \<Rightarrow> string" where
  "stringify_command_login J cmd = json_to_string J
     (json_object_add J (json_object_add J (json_object_add J (json_new_object J)
       ''kind'' (json_new_string J ''command.login''))
       ''username'' (json_new_string J (username (login_user cmd))))
       ''password'' (json_new_string J (password (login_user cmd))))"

definition stringify_command_logout :: "'j json_lib \<Rightarrow> string" where
  "stringify_command_logout J = json_to_string J
     (json_object_add J (json_new_object J) ''kind'' (json_new_string J ''command.logout''))"

definition stringify_command_close :: "'j json_lib \<Rightarrow> string" where
  "stringify_command_close J = json_to_string J
     (json_object_add J (json_new_object J) ''kind'' (json_new_string J ''command.close''))"

definition stringify_command_new_user :: "'j json_lib \<Rightarrow> command_new_user_t \<Rightarrow> string" where
  "stringify_command_new_user J cmd = json_to_string J
     (json_object_add J (json_object_add J (json_object_add J (json_object_add J (json_new_object J)
       ''kind'' (json_new_string J ''command.new_user''))
       ''username'' (json_new_string J (username (new_user cmd))))
       ''password'' (json_new_string J (password (new_user cmd))))
       ''is_admin'' (json_new_int J (uint (admin (new_user cmd)))))"

definition stringify_command_change_pass :: "'j json_lib \<Rightarrow> command_change_pass_t \<Rightarrow> string" where
  "stringify_command_change_pass J cmd = json_to_string J
     (json_object_add J (json_object_add J (json_new_object J)
       ''kind'' (json_new_string J ''command.change_pass''))
       ''password'' (json_new_string J (pass cmd)))"

section \<open>Parsing\<close>

text \<open>
  A member read as text: \<open>json_object_object_get_ex\<close>, \<open>json_object_get_string\<close>, and the \<open>strlen\<close>
  of the copy that follows.
\<close>

definition str_member :: "'j json_lib \<Rightarrow> 'j option \<Rightarrow> string \<Rightarrow> string result" where
  "str_member J main k =
     (case json_get_string J (json_get_ex J main k) of None \<Rightarrow> Inl Null_deref | Some s \<Rightarrow> Inr s)"

definition int_member :: "'j json_lib \<Rightarrow> 'j option \<Rightarrow> string \<Rightarrow> int" where
  "int_member J main k = json_get_int J (json_get_ex J main k)"

definition parse_encoded ::
  "'j json_lib \<Rightarrow> (nat \<Rightarrow> nat) \<Rightarrow> char \<Rightarrow> string \<Rightarrow> parse_result_t result" where
  "parse_encoded J U junk json =
     (let main = json_parse J json in
      bindE (str_member J main ''kind'') (\<lambda>k.
      let result = (\<lambda>d. Inr \<lparr>kind = k, pdata = d\<rparr>) in
      if k = ''int'' then result (PInt (int_member J main ''value''))
      else if k = ''string'' then bindE (str_member J main ''value'') (\<lambda>s. result (PStr s))
      else if k = ''double'' then result (PDouble (json_get_double J (json_get_ex J main ''value'')))
      else if k = ''data'' then
        bindE (str_member J main ''value'') (\<lambda>s.
        result (PData (s @ drop (length s) (replicate (U (length s + 1)) junk))))
      else if k = ''command.post'' then
        bindE (str_member J main ''data'') (\<lambda>d.
        bindE (str_member J main ''dest'') (\<lambda>t.
        result (PPost \<lparr>post_data = d, post_dest = t,
                       post_size = size_of_int (int_member J main ''size'')\<rparr>)))
      else if k = ''command.get'' then
        bindE (str_member J main ''path'') (\<lambda>p. result (PGet \<lparr>get_path = p\<rparr>))
      else if k = ''command.login'' then
        bindE (str_member J main ''username'') (\<lambda>u.
        bindE (str_member J main ''password'') (\<lambda>p.
        result (PLogin \<lparr>login_user =
          \<lparr>username = u, password = p, admin = of_nat (of_char junk)\<rparr>\<rparr>)))
      else if k = ''command.logout'' then result PLogout
      else if k = ''command.close'' then result PClose
      else if k = ''command.new_user'' then
        bindE (str_member J main ''username'') (\<lambda>u.
        bindE (str_member J main ''password'') (\<lambda>p.
        result (PNew_user \<lparr>new_user =
          \<lparr>username = u, password = p, admin = word_of_int (int_member J main ''is_admin'')\<rparr>\<rparr>)))
      else if k = ''command.change_pass'' then
        bindE (str_member J main ''password'') (\<lambda>p. result (PChange_pass \<lparr>pass = p\<rparr>))
      else result PUnset))"

section \<open>Sending and receiving messages\<close>

text \<open>What every \<open>send_*\<close> ends with: the text and its \<open>strlen\<close>.\<close>

definition send_text ::
  "transport \<Rightarrow> (nat \<Rightarrow> nat) \<Rightarrow> string \<Rightarrow> connection_t \<Rightarrow> comm_error_t \<Rightarrow> io \<Rightarrow> (comm_error_t \<times> io) result" where
  "send_text T U serialized conn error w =
     comm_send_data T U (serialized @ [ZERO]) (length serialized) conn error w"

definition send_text_async ::
  "transport \<Rightarrow> (nat \<Rightarrow> nat) \<Rightarrow> string \<Rightarrow> connection_t \<Rightarrow> io \<Rightarrow> io result" where
  "send_text_async T U serialized conn w =
     comm_send_data_async T U (serialized @ [ZERO]) (length serialized) conn w"

definition send_string where
  "send_string T J U s conn error w = send_text T U (stringify_string J s) conn error w"

definition send_int where
  "send_int T J U i conn error w = send_text T U (stringify_int J i) conn error w"

definition send_double where
  "send_double T J U d conn error w = send_text T U (stringify_double J d) conn error w"

definition send_data where
  "send_data T J U s sz conn error w = send_text T U (stringify_data J s sz) conn error w"

definition send_string_async where
  "send_string_async T J U s conn w = send_text_async T U (stringify_string J s) conn w"

definition send_int_async where
  "send_int_async T J U i conn w = send_text_async T U (stringify_int J i) conn w"

definition send_double_async where
  "send_double_async T J U d conn w = send_text_async T U (stringify_double J d) conn w"

definition send_data_async where
  "send_data_async T J U s sz conn w = send_text_async T U (stringify_data J s sz) conn w"

definition send_cmd_get where
  "send_cmd_get T J U cmd conn error w = send_text T U (stringify_command_get J cmd) conn error w"

definition send_cmd_post where
  "send_cmd_post T J U cmd conn error w = send_text T U (stringify_command_post J cmd) conn error w"

definition send_cmd_login where
  "send_cmd_login T J U cmd conn error w = send_text T U (stringify_command_login J cmd) conn error w"

definition send_cmd_logout where
  "send_cmd_logout T J U conn error w = send_text T U (stringify_command_logout J) conn error w"

definition send_cmd_close where
  "send_cmd_close T J U conn error w = send_text T U (stringify_command_close J) conn error w"

definition send_cmd_change_pass where
  "send_cmd_change_pass T J U cmd conn error w =
     send_text T U (stringify_command_change_pass J cmd) conn error w"

definition send_cmd_new_user where
  "send_cmd_new_user T J U cmd conn error w = send_text T U (stringify_command_new_user J cmd) conn error w"

definition send_cmd_get_async where
  "send_cmd_get_async T J U cmd conn w = send_text_async T U (stringify_command_get J cmd) conn w"

definition send_cmd_post_async where
  "send_cmd_post_async T J U cmd conn w = send_text_async T U (stringify_command_post J cmd) conn w"

text \<open>\<open>receive\<close>: null (\<open>None\<close>) when the transport reported an error.\<close>

definition receive ::
  "transport \<Rightarrow> 'j json_lib \<Rightarrow> (nat \<Rightarrow> nat) \<Rightarrow> char \<Rightarrow> connection_t \<Rightarrow> comm_error_t \<Rightarrow> io \<Rightarrow>
   (parse_result_t option \<times> comm_error_t \<times> io) result" where
  "receive T J U junk conn error w =
     bindE (comm_receive_data T conn error w) (\<lambda>(response, error', w').
     if err_code error' \<noteq> 0 then Inr (None, error', w')
     else bindE (cstr response) (\<lambda>s.
          bindE (parse_encoded J U junk s) (\<lambda>r. Inr (Some r, error', w'))))"

section \<open>The protocol as one format\<close>

text \<open>Every message the two programs exchange, its text, and what a parsed result says.\<close>

datatype message =
    MInt int
  | MDouble "64 word"
  | MString string
  | MData string nat
  | MGet command_get_t
  | MPost command_post_t
  | MLogin command_login_t
  | MLogout
  | MClose
  | MNew_user command_new_user_t
  | MChange_pass command_change_pass_t

fun stringify :: "'j json_lib \<Rightarrow> message \<Rightarrow> string" where
  "stringify J (MInt i) = stringify_int J i"
| "stringify J (MDouble d) = stringify_double J d"
| "stringify J (MString s) = stringify_string J s"
| "stringify J (MData s n) = stringify_data J s n"
| "stringify J (MGet c) = stringify_command_get J c"
| "stringify J (MPost c) = stringify_command_post J c"
| "stringify J (MLogin c) = stringify_command_login J c"
| "stringify J MLogout = stringify_command_logout J"
| "stringify J MClose = stringify_command_close J"
| "stringify J (MNew_user c) = stringify_command_new_user J c"
| "stringify J (MChange_pass c) = stringify_command_change_pass J c"

fun message_ok :: "message \<Rightarrow> bool" where
  "message_ok (MInt i) = int32 i"
| "message_ok (MDouble d) = double_finite d"
| "message_ok (MString s) = nul_free s"
| "message_ok (MData s n) = nul_free s"
| "message_ok (MGet c) = nul_free (get_path c)"
| "message_ok (MPost c) = (nul_free (post_data c) \<and> nul_free (post_dest c) \<and> post_size c < 2 ^ 31)"
| "message_ok (MLogin c) = (nul_free (username (login_user c)) \<and> nul_free (password (login_user c)))"
| "message_ok MLogout = True"
| "message_ok MClose = True"
| "message_ok (MNew_user c) = (nul_free (username (new_user c)) \<and> nul_free (password (new_user c)))"
| "message_ok (MChange_pass c) = nul_free (pass c)"

fun message_carried :: "message \<Rightarrow> parse_result_t \<Rightarrow> bool" where
  "message_carried (MInt i) r = (r = \<lparr>kind = ''int'', pdata = PInt i\<rparr>)"
| "message_carried (MDouble d) r = (r = \<lparr>kind = ''double'', pdata = PDouble d\<rparr>)"
| "message_carried (MString s) r = (r = \<lparr>kind = ''string'', pdata = PStr s\<rparr>)"
| "message_carried (MData s n) r =
     (kind r = ''data'' \<and> (\<exists>b. pdata r = PData b \<and> length s < length b \<and> take (length s) b = s))"
| "message_carried (MGet c) r = (r = \<lparr>kind = ''command.get'', pdata = PGet c\<rparr>)"
| "message_carried (MPost c) r = (r = \<lparr>kind = ''command.post'', pdata = PPost c\<rparr>)"
| "message_carried (MLogin c) r =
     (kind r = ''command.login'' \<and> (\<exists>a. pdata r = PLogin \<lparr>login_user = (login_user c)\<lparr>admin := a\<rparr>\<rparr>))"
| "message_carried MLogout r = (r = \<lparr>kind = ''command.logout'', pdata = PLogout\<rparr>)"
| "message_carried MClose r = (r = \<lparr>kind = ''command.close'', pdata = PClose\<rparr>)"
| "message_carried (MNew_user c) r = (r = \<lparr>kind = ''command.new_user'', pdata = PNew_user c\<rparr>)"
| "message_carried (MChange_pass c) r = (r = \<lparr>kind = ''command.change_pass'', pdata = PChange_pass c\<rparr>)"

lemma str_member_add [json]:
  "json_c_laws J \<Longrightarrow> json_built J j \<Longrightarrow>
   str_member J (Some (json_object_add J j k (json_new_string J s))) k' =
     (if k' = k then Inr s else str_member J (Some j) k')"
  "json_c_laws J \<Longrightarrow> json_built J j \<Longrightarrow> k' \<noteq> k \<Longrightarrow>
   str_member J (Some (json_object_add J j k v)) k' = str_member J (Some j) k'"
  by (simp_all add: str_member_def json)

lemma int_member_add [json]:
  "json_c_laws J \<Longrightarrow> json_built J j \<Longrightarrow> int32 i \<Longrightarrow>
   int_member J (Some (json_object_add J j k (json_new_int J i))) k = i"
  "json_c_laws J \<Longrightarrow> json_built J j \<Longrightarrow> k' \<noteq> k \<Longrightarrow>
   int_member J (Some (json_object_add J j k v)) k' = int_member J (Some j) k'"
  by (simp_all add: int_member_def json)

lemmas stringify_defs =
  stringify_int_def stringify_double_def stringify_string_def stringify_data_def
  stringify_command_get_def stringify_command_post_def stringify_command_login_def
  stringify_command_logout_def stringify_command_close_def stringify_command_new_user_def
  stringify_command_change_pass_def

lemma int32_nat: "n < 2147483648 \<Longrightarrow> int32 (int n)"
  by (simp add: int32_def)

lemma int32_byte [simp]: "int32 (uint (a :: 8 word))"
proof -
  have "- (2 ^ 31) \<le> uint a" by (rule order_trans [OF _ uint_ge_0]) simp
  then show ?thesis using uint_lt2p [of a] by (simp add: int32_def)
qed

lemma user_with_admin: "\<lparr>username = username u, password = password u, admin = a\<rparr> = u\<lparr>admin := a\<rparr>"
  by (cases u) simp

text \<open>The text of a message is what the library prints for an object the code built.\<close>

lemma stringify_built:
  assumes "message_ok m"
  shows "\<exists>j. stringify J m = json_to_string J j \<and> json_built J j"
  using assms
  by (cases m) (rule exI, rule conjI, simp only: stringify.simps stringify_defs,
      simp add: json int32_nat)+

lemma stringify_nul_free: "json_c_laws J \<Longrightarrow> nul_free (stringify J m)"
  by (cases m) (simp_all add: stringify_defs json_text_nul_free)

lemma stringify_not_Nil: "json_c_laws J \<Longrightarrow> message_ok m \<Longrightarrow> stringify J m \<noteq> []"
  by (metis stringify_built json_text_not_Nil)

lemma parse_stringify:
  assumes "json_c_laws J" and "allocator U" and "message_ok m"
  shows "\<exists>r. parse_encoded J U junk (stringify J m) = Inr r \<and> message_carried m r"
proof (cases m)
  case (MData s n)
  have "length s < U (length s + 1)"
    using allocatorD [OF assms(2), of "length s + 1"] by simp
  with MData assms show ?thesis
    by (simp add: stringify_defs parse_encoded_def Let_def json)
next
  case (MPost c)
  with assms show ?thesis
    by (simp add: stringify_defs parse_encoded_def Let_def json int32_nat)
next
  case (MLogin c)
  with assms show ?thesis
    by (auto simp: stringify_defs parse_encoded_def Let_def json user_with_admin)
qed (use assms in \<open>simp_all add: stringify_defs parse_encoded_def Let_def json\<close>)

section \<open>The protocol over the boundary framing\<close>

type_synonym 'j wire_env = "'j json_lib \<times> (nat \<Rightarrow> nat) \<times> char"

fun wire_enc :: "'j wire_env \<Rightarrow> message \<Rightarrow> string result" where
  "wire_enc (J, U, junk) m = Inr (stringify J m)"

fun wire_dec :: "'j wire_env \<Rightarrow> string \<Rightarrow> parse_result_t result" where
  "wire_dec (J, U, junk) t = parse_encoded J U junk t"

fun wire_ok :: "'j wire_env \<Rightarrow> message \<Rightarrow> bool" where
  "wire_ok (J, U, junk) m \<longleftrightarrow> json_c_laws J \<and> allocator U \<and> message_ok m"

definition wire_carries :: "'j wire_env \<Rightarrow> message \<Rightarrow> parse_result_t \<Rightarrow> bool" where
  "wire_carries l m r \<longleftrightarrow> message_carried m r"

interpretation wire: message_link frame_bytes receive_bytes frame_ok
  wire_enc wire_dec wire_ok wire_carries
proof unfold_locales
  fix l :: "'j wire_env" and m :: message
  assume "wire_ok l m"
  then show "\<exists>t. wire_enc l m = Inr t \<and> nul_free t"
    by (cases l) (simp add: stringify_nul_free)
next
  fix l :: "'j wire_env" and m :: message and t
  assume "wire_ok l m" and "wire_enc l m = Inr t"
  then show "\<exists>r. wire_dec l t = Inr r \<and> wire_carries l m r"
    using parse_stringify by (cases l) (auto simp: wire_carries_def)
qed

lemma send_text_bytes:
  assumes "json_c_laws J" and "allocator U" and "rng_ok (io_rng w)"
  obtains b r where
    "send_text T U (stringify J m) conn e w =
       Inr (case T of Fifo \<Rightarrow> comm_error NO_COMM_ERROR ''OK'' | Socket \<Rightarrow> e,
            emit (req_fd conn) (frame_bytes b (stringify J m)) (w\<lparr>io_rng := r\<rparr>))"
    "boundary_shape b" "rng_ok r"
  using comm_send_data_bytes [OF assms(2,3) stringify_nul_free [OF assms(1), of m], of T "[]" conn e]
  by (auto simp: send_text_def frame_bytes_def)

lemma receive_message:
  assumes "json_c_laws J" and "allocator U" and "message_ok m"
    and "frame_ok b (stringify J m)" and "fd_in w (res_fd conn) = frame_bytes b (stringify J m) @ rest"
  obtains r where "receive T J U junk conn e w =
      Inr (Some r, comm_error NO_COMM_ERROR ''Receive Data Sucessful'',
           w\<lparr>fd_in := (fd_in w)(res_fd conn := rest)\<rparr>)" "message_carried m r"
proof -
  obtain r where r: "parse_encoded J U junk (stringify J m) = Inr r" "message_carried m r"
    using parse_stringify [OF assms(1-3)] by blast
  obtain t where "comm_receive_data T conn e w =
      Inr (stringify J m @ ZERO # t, comm_error NO_COMM_ERROR ''Receive Data Sucessful'',
           w\<lparr>fd_in := (fd_in w)(res_fd conn := rest)\<rparr>)"
    by (rule comm_receive_frame [OF assms(4), of w conn rest T e])
      (use assms(5) in \<open>simp_all add: frame_bytes_def\<close>)
  with r show thesis
    using stringify_nul_free [OF assms(1)]
    by (intro that) (simp_all add: receive_def cstr_append NO_COMM_ERROR_def)
qed

section \<open>Properties\<close>

text \<open>
  C21: every message of the protocol survives its text: parsing what \<open>stringify_*\<close> prints gives a
  result of the same kind with the same contents, for every string without NUL, every \<open>int\<close> and
  every finite \<open>double\<close>. (A login carries no admin flag, and a data reply is a block that starts
  with the text.)
\<close>

theorem message_roundtrip:
  assumes "json_c_laws J" and "allocator U" and "message_ok m"
  shows "\<exists>r. parse_encoded J U junk (stringify J m) = Inr r \<and> message_carried m r"
  using assms by (rule parse_stringify)

theorem message_roundtrip_witness:
  "let m = MPost \<lparr>post_data = ''104111108097'', post_dest = ''hola'', post_size = 4\<rparr>
   in \<exists>r. parse_encoded flat_json exact_size ZERO (stringify flat_json m) = Inr r \<and> message_carried m r"
  unfolding Let_def by (rule message_roundtrip) simp_all

text \<open>
  The whole path from one program to the other: a message sent by either build's \<open>send_*\<close> is
  returned by \<open>receive\<close> at the other end with the same kind and contents, whatever follows it on
  the connection, when its text avoids the boundary prefix and fits the receiver's buffer.
\<close>

theorem send_receive_message:
  assumes "json_c_laws J" and "allocator U" and "rng_ok (io_rng w)" and "message_ok m"
    and "\<not> sublist BOUNDARY_PREFIX (stringify J m)" and "length (stringify J m) + 30 < 2048"
  shows "\<exists>bytes e' w'. send_text T U (stringify J m) conn e w = Inr (e', w') \<and>
    fd_out w' (req_fd conn) = fd_out w (req_fd conn) @ bytes \<and>
    (\<forall>v conn2 e2 rest. fd_in v (res_fd conn2) = bytes @ rest \<longrightarrow>
       (\<exists>r. receive T J U junk conn2 e2 v =
          Inr (Some r, comm_error 0 ''Receive Data Sucessful'',
               v\<lparr>fd_in := (fd_in v)(res_fd conn2 := rest)\<rparr>) \<and> message_carried m r))"
proof -
  obtain b r where s: "send_text T U (stringify J m) conn e w =
       Inr (case T of Fifo \<Rightarrow> comm_error NO_COMM_ERROR ''OK'' | Socket \<Rightarrow> e,
            emit (req_fd conn) (frame_bytes b (stringify J m)) (w\<lparr>io_rng := r\<rparr>))"
    and b: "boundary_shape b"
    by (rule send_text_bytes [OF assms(1-3)])
  have ok: "frame_ok b (stringify J m)"
    using assms(5,6) b sublist_prefix [OF b] boundary_shape_length [OF b]
      stringify_nul_free [OF assms(1)] stringify_not_Nil [OF assms(1,4)]
    by (auto simp: frame_ok_def BUFFER_LENGTH_def)
  have "\<exists>r. receive T J U junk conn2 e2 v =
          Inr (Some r, comm_error 0 ''Receive Data Sucessful'',
               v\<lparr>fd_in := (fd_in v)(res_fd conn2 := rest)\<rparr>) \<and> message_carried m r"
    if "fd_in v (res_fd conn2) = frame_bytes b (stringify J m) @ rest" for v conn2 e2 rest
    using receive_message [OF assms(1,2,4) ok that, of T junk e2] unfolding NO_COMM_ERROR_def by metis
  with s show ?thesis
    by (intro exI [of _ "frame_bytes b (stringify J m)"]) (auto simp: emit_def)
qed

theorem send_receive_message_witness:
  "\<exists>bytes e' w'. send_text Fifo exact_size (stringify flat_json (MInt (-7))) sample_conn (comm_error 0 [])
      sample_io = Inr (e', w') \<and>
    fd_out w' (req_fd sample_conn) = fd_out sample_io (req_fd sample_conn) @ bytes \<and>
    (\<forall>v conn2 e2 rest. fd_in v (res_fd conn2) = bytes @ rest \<longrightarrow>
       (\<exists>r. receive Fifo flat_json exact_size ZERO conn2 e2 v =
          Inr (Some r, comm_error 0 ''Receive Data Sucessful'',
               v\<lparr>fd_in := (fd_in v)(res_fd conn2 := rest)\<rparr>) \<and> message_carried (MInt (-7)) r))"
proof -
  have t: "stringify flat_json (MInt (-7)) =
      ''{107105110100.s105110116.118097108117101.m7.''"
    by code_simp
  have "CHR ''-'' \<notin> set ''{107105110100.s105110116.118097108117101.m7.''" by simp
  moreover have "CHR ''-'' \<in> set BOUNDARY_PREFIX" by (simp add: BOUNDARY_PREFIX_def)
  ultimately have "\<not> sublist BOUNDARY_PREFIX (stringify flat_json (MInt (-7)))"
    unfolding t using set_mono_sublist by blast
  then show ?thesis
    by (intro send_receive_message) (simp_all only: t, simp_all add: int32_def)
qed

text \<open>
  Requests sent one after the other over one connection are received in the order they were sent
  and parsed each to what was sent, and nothing behind the last one is consumed.
\<close>

theorem requests_in_order:
  assumes "json_c_laws J" and "allocator U"
    and "\<forall>x \<in> set ms. message_ok (snd x) \<and> frame_ok (fst x) (stringify J (snd x))"
  shows "\<exists>rs. decode_all receive_bytes (parse_encoded J U junk) (length ms)
      (concat (map (\<lambda>(b, m). frame_bytes b (stringify J m)) ms) @ rest) = Inr (rs, rest) \<and>
    list_all2 message_carried (map snd ms) rs"
proof -
  let ?ms = "map (\<lambda>(b, m). (b, m, stringify J m)) ms"
  have "\<forall>(b, m, t) \<in> set ?ms. wire_ok (J, U, junk) m \<and> wire_enc (J, U, junk) m = Inr t \<and> frame_ok b t"
    using assms by auto
  from wire.link_delivers_all [OF this, of rest]
  have "\<exists>rs. decode_all receive_bytes (wire_dec (J, U, junk)) (length ms)
      (concat (map (\<lambda>(b, m, t). frame_bytes b t) ?ms) @ rest) = Inr (rs, rest) \<and>
    list_all2 (wire_carries (J, U, junk)) (map (fst \<circ> snd) ?ms) rs"
    by simp
  moreover have "map (\<lambda>(b, m, t). frame_bytes b t) ?ms =
      map (\<lambda>(b, m). frame_bytes b (stringify J m)) ms"
    by (simp add: case_prod_beta comp_def)
  moreover have "map (fst \<circ> snd) ?ms = map snd ms"
    by (simp add: case_prod_beta comp_def)
  moreover have "wire_dec (J, U, junk) = parse_encoded J U junk"
    by (simp add: fun_eq_iff)
  moreover have "wire_carries (J, U, junk) = message_carried"
    by (simp add: fun_eq_iff wire_carries_def)
  ultimately show ?thesis by (simp only: length_map)
qed

lemma flat_logout_text: "stringify flat_json MLogout =
    ''{107105110100.s099111109109097110100046108111103111117116.''"
  by code_simp

lemma frame_ok_logout: "frame_ok sample_boundary (stringify flat_json MLogout)"
  by (simp only: flat_logout_text, rule frame_ok_text) simp_all

lemma frame_ok_int: "frame_ok sample_boundary (stringify flat_json (MInt 42))"
proof -
  have "(let X = stringify flat_json (MInt 42) in
      list_all (\<lambda>c. c \<noteq> ZERO \<and> c \<noteq> CHR ''-'') X \<and> X \<noteq> [] \<and> length X < 2018)"
    by code_simp
  then show ?thesis using frame_ok_text [of "stringify flat_json (MInt 42)"]
    by (auto simp: Let_def list_all_iff nul_free_def)
qed

theorem requests_in_order_witness:
  "let ms = [(sample_boundary, MLogout), (sample_boundary, MLogout)]
   in \<exists>rs. decode_all receive_bytes (parse_encoded flat_json exact_size ZERO) (length ms)
        (concat (map (\<lambda>(b, m). frame_bytes b (stringify flat_json m)) ms) @ ''x'') = Inr (rs, ''x'') \<and>
      list_all2 message_carried (map snd ms) rs"
  unfolding Let_def by (rule requests_in_order) (simp_all add: frame_ok_logout del: stringify.simps)

text \<open>
  A message that is not JSON, has no \<open>kind\<close>, or lacks a member its kind needs is not rejected:
  the parser takes the length of a null string.
\<close>

theorem parse_encoded_malformed:
  assumes "json_c_laws J"
    and "json_get_string J (json_get_ex J (json_parse J t) ''kind'') = None \<or>
         json_get_string J (json_get_ex J (json_parse J t) ''kind'') = Some ''command.get'' \<and>
         json_get_string J (json_get_ex J (json_parse J t) ''path'') = None \<or>
         json_get_string J (json_get_ex J (json_parse J t) ''kind'') = Some ''command.login'' \<and>
         json_get_string J (json_get_ex J (json_parse J t) ''password'') = None"
  shows "parse_encoded J U junk t = Inl Null_deref"
  using assms(2)
  by (elim disjE conjE)
    (simp_all add: parse_encoded_def str_member_def Let_def bindE_def split: option.split)

theorem parse_encoded_malformed_witness:
  "parse_encoded flat_json exact_size ZERO ''not json'' = Inl Null_deref"
  by (rule parse_encoded_malformed [OF flat_json_laws]) (simp add: flat_json_def)

text \<open>
  The block a \<open>data\<close> reply is copied to has no terminator of its own: read as a string, it is
  the text that was sent exactly when the byte behind it happens to be zero, and is read past its
  end otherwise.
\<close>

theorem data_reply_unterminated:
  assumes "json_c_laws J" and "nul_free s"
  shows "\<exists>b. parse_encoded J exact_size junk (stringify_data J s n) =
               Inr \<lparr>kind = ''data'', pdata = PData b\<rparr> \<and>
             cstr b = (if junk = ZERO then Inr s else Inl Out_of_bounds)"
proof -
  have b: "s @ drop (length s) (replicate (exact_size (length s + 1)) junk) = s @ [junk]"
    by (simp only: exact_size_def drop_replicate) simp
  have "parse_encoded J exact_size junk (stringify_data J s n) =
      Inr \<lparr>kind = ''data'', pdata = PData (s @ [junk])\<rparr>"
    using assms b by (simp add: stringify_data_def parse_encoded_def Let_def json)
  moreover have "cstr (s @ [junk]) = (if junk = ZERO then Inr s else Inl Out_of_bounds)"
    using assms(2) cstr_append [of s "[]"] cstr_no_terminator [of "s @ [junk]"] by simp
  ultimately show ?thesis by blast
qed

theorem data_reply_unterminated_witness:
  "\<exists>b. parse_encoded flat_json exact_size (CHR ''!'') (stringify_data flat_json ''Login failed'' 12) =
         Inr \<lparr>kind = ''data'', pdata = PData b\<rparr> \<and>
       cstr b = (if CHR ''!'' = ZERO then Inr ''Login failed'' else Inl Out_of_bounds)"
  by (rule data_reply_unterminated) simp_all

end
