(* ===== verification/Sql_Query.thy ===== *)
theory Sql_Query
  imports C_Text
begin

text \<open>
  The query builders of \<open>lib/sqlite\<close>: \<open>sqlite.select.c\<close>, \<open>sqlite.insert.c\<close>, \<open>sqlite.update.c\<close>,
  \<open>sqlite.delete.c\<close> and \<open>to_fields_string\<close> of \<open>sqlite.c\<close>. A query is a record of fixed-size
  blocks: a table name, arrays of \<open>MAX_COLUMNS\<close> pointers (\<open>None\<close> is \<open>NULL\<close>) and a condition.
  A call on a null query, or that returns null, is an \<open>Inl\<close> of the \<open>errno\<close> it sets, inside the
  \<open>result\<close> that accounts for memory. Where \<open>sprintf\<close> prints a block onto itself the text is
  extended in place, which is what the source relies on.
\<close>

definition MAX_QUERY_LENGTH :: nat where "MAX_QUERY_LENGTH = 1024"
definition MAX_NAME_LENGTH :: nat where "MAX_NAME_LENGTH = 16"
definition MAX_COLUMNS :: nat where "MAX_COLUMNS = 10"
definition WHERE_LENGTH :: nat where "WHERE_LENGTH = 894"

definition ERR_NULL_QUERY :: int where "ERR_NULL_QUERY = 2001"
definition ERR_NO_TABLE :: int where "ERR_NO_TABLE = 2002"
definition ERR_NO_ATRIBUTE_NOR_VALUE :: int where "ERR_NO_ATRIBUTE_NOR_VALUE = 2003"

lemmas sql_sizes = MAX_QUERY_LENGTH_def MAX_NAME_LENGTH_def MAX_COLUMNS_def WHERE_LENGTH_def

section \<open>Shared pieces\<close>

text \<open>
  \<open>while (atributes[i] != NULL && i++ < MAX_COLUMNS);\<close>: the array is read before the bound is
  tested.
\<close>

function find_slot :: "string option list \<Rightarrow> nat \<Rightarrow> nat result" where
  "find_slot a i =
     (if i < length a then
        (if a ! i = None then Inr i
         else if i < MAX_COLUMNS then find_slot a (Suc i) else Inr (Suc i))
      else Inl Out_of_bounds)"
  by pat_completeness auto
termination
  by (relation "measure (\<lambda>(a, i). length a - i)") auto

declare find_slot.simps [simp del]

definition set_cell :: "string option list \<Rightarrow> nat \<Rightarrow> string \<Rightarrow> string option list result" where
  "set_cell a i s = (if i < length a then Inr (a[i := Some s]) else Inl Out_of_bounds)"

function to_fields_loop :: "(nat \<Rightarrow> nat) \<Rightarrow> string option list \<Rightarrow> nat \<Rightarrow> string \<Rightarrow> string result" where
  "to_fields_loop U fields i aux =
     (if i < length fields then
        (case fields ! i of
           None \<Rightarrow> Inr aux
         | Some f \<Rightarrow>
             bindE (sprintf_into U MAX_QUERY_LENGTH (if i = 0 then f else aux @ '','' @ f)) (\<lambda>aux'.
             to_fields_loop U fields (Suc i) aux'))
      else Inl Out_of_bounds)"
  by pat_completeness auto
termination
  by (relation "measure (\<lambda>(U, fields, i, aux). length fields - i)") auto

declare to_fields_loop.simps [simp del]

definition to_fields_string :: "(nat \<Rightarrow> nat) \<Rightarrow> string option list \<Rightarrow> string result" where
  "to_fields_string U fields = to_fields_loop U fields 0 []"

section \<open>SELECT\<close>

text \<open>The table block is allocated by \<open>create_*\<close> and written by \<open>set_*_table\<close>.\<close>

record sqlite_select_query_t =
  sel_table :: "string option"
  sel_atributes :: "string option list"
  sel_where :: string

definition create_select_query :: "(nat \<Rightarrow> nat) \<Rightarrow> sqlite_select_query_t result" where
  "create_select_query U =
     bindE (sprintf_into U WHERE_LENGTH ''1=1'') (\<lambda>w.
     Inr \<lparr>sel_table = Some [], sel_atributes = replicate MAX_COLUMNS None, sel_where = w\<rparr>)"

definition set_select_query_table ::
  "(nat \<Rightarrow> nat) \<Rightarrow> sqlite_select_query_t option \<Rightarrow> string \<Rightarrow> (int + sqlite_select_query_t) result" where
  "set_select_query_table U query table =
     (case query of
        None \<Rightarrow> Inr (Inl ERR_NULL_QUERY)
      | Some q \<Rightarrow> bindE (sprintf_into U MAX_NAME_LENGTH table) (\<lambda>t.
          Inr (Inr (q\<lparr>sel_table := Some t\<rparr>))))"

definition set_select_query_atribute ::
  "(nat \<Rightarrow> nat) \<Rightarrow> sqlite_select_query_t option \<Rightarrow> string \<Rightarrow> (int + sqlite_select_query_t) result" where
  "set_select_query_atribute U query atribute =
     (case query of
        None \<Rightarrow> Inr (Inl ERR_NULL_QUERY)
      | Some q \<Rightarrow> bindE (find_slot (sel_atributes q) 0) (\<lambda>i.
          if i \<noteq> MAX_COLUMNS then
            bindE (sprintf_into U (length atribute + 1) atribute) (\<lambda>atr.
            bindE (set_cell (sel_atributes q) i atr) (\<lambda>a.
            Inr (Inr (q\<lparr>sel_atributes := a\<rparr>))))
          else Inr (Inr q)))"

definition set_select_query_where ::
  "(nat \<Rightarrow> nat) \<Rightarrow> sqlite_select_query_t option \<Rightarrow> string \<Rightarrow> string \<Rightarrow> string \<Rightarrow>
   (int + sqlite_select_query_t) result" where
  "set_select_query_where U query column op raw_value =
     (case query of
        None \<Rightarrow> Inr (Inl ERR_NULL_QUERY)
      | Some q \<Rightarrow>
          bindE (sprintf_into U WHERE_LENGTH
            (sel_where q @ '' AND '' @ column @ '' '' @ op @ '' '' @ raw_value)) (\<lambda>w.
          Inr (Inr (q\<lparr>sel_where := w\<rparr>))))"

definition select_query_to_str ::
  "(nat \<Rightarrow> nat) \<Rightarrow> sqlite_select_query_t option \<Rightarrow> (int + string \<times> sqlite_select_query_t) result" where
  "select_query_to_str U query =
     (case query of
        None \<Rightarrow> Inr (Inl ERR_NULL_QUERY)
      | Some q \<Rightarrow>
          (case sel_table q of
             None \<Rightarrow> Inr (Inl ERR_NO_TABLE)
           | Some t \<Rightarrow>
               (if length (sel_atributes q) < 4 then Inl Out_of_bounds
                else
                  (let q' = (if sel_atributes q ! 0 = None
                             then q\<lparr>sel_atributes := (sel_atributes q)[0 := Some ''*'']\<rparr> else q)
                   in bindE (to_fields_string U (sel_atributes q')) (\<lambda>f.
                      bindE (sprintf_into U MAX_QUERY_LENGTH
                        (''SELECT '' @ f @ '' FROM '' @ t @ '' WHERE '' @ sel_where q' @ '';'')) (\<lambda>s.
                      Inr (Inr (s, q'))))))))"

section \<open>INSERT\<close>

record sqlite_insert_query_t =
  ins_table :: "string option"
  ins_atributes :: "string option list"
  ins_values :: "string option list"

definition create_insert_query :: "sqlite_insert_query_t" where
  "create_insert_query =
     \<lparr>ins_table = Some [], ins_atributes = replicate MAX_COLUMNS None,
      ins_values = replicate MAX_COLUMNS None\<rparr>"

definition set_insert_query_table ::
  "(nat \<Rightarrow> nat) \<Rightarrow> sqlite_insert_query_t option \<Rightarrow> string \<Rightarrow> (int + sqlite_insert_query_t) result" where
  "set_insert_query_table U query table =
     (case query of
        None \<Rightarrow> Inr (Inl ERR_NULL_QUERY)
      | Some q \<Rightarrow> bindE (sprintf_into U MAX_NAME_LENGTH table) (\<lambda>t.
          Inr (Inr (q\<lparr>ins_table := Some t\<rparr>))))"

text \<open>The copies are allocated with \<open>strlen\<close> bytes, without room for the terminator.\<close>

definition set_insert_query_value ::
  "(nat \<Rightarrow> nat) \<Rightarrow> sqlite_insert_query_t option \<Rightarrow> string \<Rightarrow> string \<Rightarrow>
   (int + sqlite_insert_query_t) result" where
  "set_insert_query_value U query atribute val =
     (case query of
        None \<Rightarrow> Inr (Inl ERR_NULL_QUERY)
      | Some q \<Rightarrow> bindE (find_slot (ins_atributes q) 0) (\<lambda>i.
          if i \<noteq> MAX_COLUMNS then
            bindE (sprintf_into U (length atribute) atribute) (\<lambda>atr.
            bindE (sprintf_into U (length val) val) (\<lambda>v.
            bindE (set_cell (ins_atributes q) i atr) (\<lambda>a.
            bindE (set_cell (ins_values q) i v) (\<lambda>vs.
            Inr (Inr (q\<lparr>ins_atributes := a, ins_values := vs\<rparr>))))))
          else Inr (Inr q)))"

definition insert_query_to_str ::
  "(nat \<Rightarrow> nat) \<Rightarrow> sqlite_insert_query_t option \<Rightarrow> (int + string) result" where
  "insert_query_to_str U query =
     (case query of
        None \<Rightarrow> Inr (Inl ERR_NULL_QUERY)
      | Some q \<Rightarrow>
          (case ins_table q of
             None \<Rightarrow> Inr (Inl ERR_NO_TABLE)
           | Some t \<Rightarrow>
               (if ins_atributes q = [] then Inl Out_of_bounds
                else if ins_atributes q ! 0 = None then Inr (Inl ERR_NO_ATRIBUTE_NOR_VALUE)
                else
                  bindE (to_fields_string U (ins_atributes q)) (\<lambda>f.
                  bindE (to_fields_string U (ins_values q)) (\<lambda>v.
                  bindE (sprintf_into U MAX_QUERY_LENGTH
                    (''INSERT INTO '' @ t @ ''('' @ f @ '') VALUES('' @ v @ '');'')) (\<lambda>s.
                  Inr (Inr s)))))))"

section \<open>UPDATE\<close>

record sqlite_update_query_t =
  upd_table :: "string option"
  upd_atributes :: "string option list"
  upd_values :: "string option list"
  upd_where :: string

definition create_update_query :: "(nat \<Rightarrow> nat) \<Rightarrow> sqlite_update_query_t result" where
  "create_update_query U =
     bindE (sprintf_into U WHERE_LENGTH ''1=1'') (\<lambda>w.
     Inr \<lparr>upd_table = Some [], upd_atributes = replicate MAX_COLUMNS None,
          upd_values = replicate MAX_COLUMNS None, upd_where = w\<rparr>)"

definition set_update_query_table ::
  "(nat \<Rightarrow> nat) \<Rightarrow> sqlite_update_query_t option \<Rightarrow> string \<Rightarrow> (int + sqlite_update_query_t) result" where
  "set_update_query_table U query table =
     (case query of
        None \<Rightarrow> Inr (Inl ERR_NULL_QUERY)
      | Some q \<Rightarrow> bindE (sprintf_into U MAX_NAME_LENGTH table) (\<lambda>t.
          Inr (Inr (q\<lparr>upd_table := Some t\<rparr>))))"

definition set_update_query_value ::
  "(nat \<Rightarrow> nat) \<Rightarrow> sqlite_update_query_t option \<Rightarrow> string \<Rightarrow> string \<Rightarrow>
   (int + sqlite_update_query_t) result" where
  "set_update_query_value U query atribute val =
     (case query of
        None \<Rightarrow> Inr (Inl ERR_NULL_QUERY)
      | Some q \<Rightarrow> bindE (find_slot (upd_atributes q) 0) (\<lambda>i.
          if i \<noteq> MAX_COLUMNS then
            bindE (sprintf_into U (length atribute) atribute) (\<lambda>atr.
            bindE (sprintf_into U (length val) val) (\<lambda>v.
            bindE (set_cell (upd_atributes q) i atr) (\<lambda>a.
            bindE (set_cell (upd_values q) i v) (\<lambda>vs.
            Inr (Inr (q\<lparr>upd_atributes := a, upd_values := vs\<rparr>))))))
          else Inr (Inr q)))"

definition set_update_query_where ::
  "(nat \<Rightarrow> nat) \<Rightarrow> sqlite_update_query_t option \<Rightarrow> string \<Rightarrow> string \<Rightarrow> string \<Rightarrow>
   (int + sqlite_update_query_t) result" where
  "set_update_query_where U query column op raw_value =
     (case query of
        None \<Rightarrow> Inr (Inl ERR_NULL_QUERY)
      | Some q \<Rightarrow>
          bindE (sprintf_into U WHERE_LENGTH
            (upd_where q @ '' AND '' @ column @ '' '' @ op @ '' '' @ raw_value)) (\<lambda>w.
          Inr (Inr (q\<lparr>upd_where := w\<rparr>))))"

text \<open>
  The loop of \<open>update_query_to_str\<close> that fills \<open>aux\<close>, a fresh array of \<open>MAX_COLUMNS\<close> pointers,
  with the \<open>atribute=value\<close> texts, and the null pointer that closes it. The bound is tested after
  the read, and \<open>i = MAX_COLUMNS\<close> passes it.
\<close>

function update_pairs ::
  "(nat \<Rightarrow> nat) \<Rightarrow> string option list \<Rightarrow> string option list \<Rightarrow> nat \<Rightarrow> string option list \<Rightarrow>
   string option list result" where
  "update_pairs U atrs vals i aux =
     (if i < length atrs then
        (case atrs ! i of
           None \<Rightarrow> (if i < length aux then Inr (aux[i := None]) else Inl Out_of_bounds)
         | Some a \<Rightarrow>
             if i \<le> MAX_COLUMNS then
               (if i < length vals then
                  (case vals ! i of
                     None \<Rightarrow> Inl Null_deref
                   | Some v \<Rightarrow>
                       bindE (sprintf_into U (length a + 1 + length v + 1) (a @ ''='' @ v)) (\<lambda>p.
                       bindE (set_cell aux i p) (\<lambda>aux'.
                       update_pairs U atrs vals (Suc i) aux')))
                else Inl Out_of_bounds)
             else (if i < length aux then Inr (aux[i := None]) else Inl Out_of_bounds))
      else Inl Out_of_bounds)"
  by pat_completeness auto
termination
  by (relation "measure (\<lambda>(U, atrs, vals, i, aux). length atrs - i)") auto

declare update_pairs.simps [simp del]

definition update_query_to_str ::
  "(nat \<Rightarrow> nat) \<Rightarrow> sqlite_update_query_t option \<Rightarrow> (int + string) result" where
  "update_query_to_str U query =
     (case query of
        None \<Rightarrow> Inr (Inl ERR_NULL_QUERY)
      | Some q \<Rightarrow>
          (case upd_table q of
             None \<Rightarrow> Inr (Inl ERR_NO_TABLE)
           | Some t \<Rightarrow>
               (if upd_atributes q = [] then Inl Out_of_bounds
                else if upd_atributes q ! 0 = None then Inr (Inl ERR_NO_ATRIBUTE_NOR_VALUE)
                else
                  bindE (update_pairs U (upd_atributes q) (upd_values q) 0
                    (replicate MAX_COLUMNS None)) (\<lambda>aux.
                  bindE (to_fields_string U aux) (\<lambda>f.
                  bindE (sprintf_into U MAX_QUERY_LENGTH
                    (''UPDATE '' @ t @ '' SET '' @ f @ '' WHERE '' @ upd_where q @ '';'')) (\<lambda>s.
                  Inr (Inr s)))))))"

section \<open>DELETE\<close>

record sqlite_delete_query_t =
  del_table :: "string option"
  del_where :: "string option"

definition create_delete_query :: "(nat \<Rightarrow> nat) \<Rightarrow> sqlite_delete_query_t result" where
  "create_delete_query U =
     bindE (sprintf_into U WHERE_LENGTH ''1=1'') (\<lambda>w.
     Inr \<lparr>del_table = Some [], del_where = Some w\<rparr>)"

definition set_delete_query_table ::
  "(nat \<Rightarrow> nat) \<Rightarrow> sqlite_delete_query_t option \<Rightarrow> string \<Rightarrow> (int + sqlite_delete_query_t) result" where
  "set_delete_query_table U query table =
     (case query of
        None \<Rightarrow> Inr (Inl ERR_NULL_QUERY)
      | Some q \<Rightarrow> bindE (sprintf_into U MAX_NAME_LENGTH table) (\<lambda>t.
          Inr (Inr (q\<lparr>del_table := Some t\<rparr>))))"

definition set_delete_query_where ::
  "(nat \<Rightarrow> nat) \<Rightarrow> sqlite_delete_query_t option \<Rightarrow> string \<Rightarrow> (int + sqlite_delete_query_t) result" where
  "set_delete_query_where U query where_text =
     (case query of
        None \<Rightarrow> Inr (Inl ERR_NULL_QUERY)
      | Some q \<Rightarrow> bindE (sprintf_into U WHERE_LENGTH where_text) (\<lambda>w.
          Inr (Inr (q\<lparr>del_where := Some w\<rparr>))))"

text \<open>\<open>%s\<close> of a null table is what glibc prints, \<open>(null)\<close>.\<close>

definition delete_query_to_str ::
  "(nat \<Rightarrow> nat) \<Rightarrow> sqlite_delete_query_t option \<Rightarrow> (int + string) result" where
  "delete_query_to_str U query =
     (case query of
        None \<Rightarrow> Inr (Inl ERR_NULL_QUERY)
      | Some q \<Rightarrow>
          bindE (sprintf_into U MAX_QUERY_LENGTH
            (''DELETE FROM '' @ (case del_table q of None \<Rightarrow> ''(null)'' | Some t \<Rightarrow> t) @ '' WHERE '' @
             (case del_where q of None \<Rightarrow> ''1=1'' | Some w \<Rightarrow> w) @ '';'')) (\<lambda>s.
          Inr (Inr s)))"

section \<open>Column arrays\<close>

text \<open>
  The contract of the three operations that add a column to a query: it goes to the first free
  slot, and with no slot free the search reads past the array. \<open>rest\<close> is what the operation must
  leave alone.
\<close>

fun set_all ::
  "('q option \<Rightarrow> 'a \<Rightarrow> (int + 'q) result) \<Rightarrow> 'q \<Rightarrow> 'a list \<Rightarrow> (int + 'q) result" where
  "set_all add q [] = Inr (Inr q)"
| "set_all add q (x # xs) =
     bindE (add (Some q) x) (\<lambda>r. case r of Inl e \<Rightarrow> Inr (Inl e) | Inr q' \<Rightarrow> set_all add q' xs)"

locale column_array =
  fixes add :: "'q option \<Rightarrow> 'a \<Rightarrow> (int + 'q) result"
    and holds :: "'q \<Rightarrow> 'a list \<Rightarrow> bool"
    and rest :: "'q \<Rightarrow> 'r"
    and fits :: "'a \<Rightarrow> bool"
  assumes add_null: "add None x = Inr (Inl ERR_NULL_QUERY)"
    and add_free: "holds q xs \<Longrightarrow> length xs < MAX_COLUMNS \<Longrightarrow> fits x \<Longrightarrow>
      \<exists>q'. add (Some q) x = Inr (Inr q') \<and> holds q' (xs @ [x]) \<and> rest q' = rest q"
    and add_full: "holds q xs \<Longrightarrow> length xs = MAX_COLUMNS \<Longrightarrow> add (Some q) x = Inl Out_of_bounds"
begin

lemma add_columns_free:
  assumes "holds q xs" "length xs + length ys \<le> MAX_COLUMNS" "list_all fits ys"
  shows "\<exists>q'. set_all add q ys = Inr (Inr q') \<and> holds q' (xs @ ys) \<and> rest q' = rest q"
  using assms
proof (induction ys arbitrary: q xs)
  case Nil
  then show ?case by simp
next
  case (Cons y ys)
  from Cons.prems have "length xs < MAX_COLUMNS" "fits y" by simp_all
  with add_free [OF Cons.prems(1)] obtain q1 where
    q1: "add (Some q) y = Inr (Inr q1)" "holds q1 (xs @ [y])" "rest q1 = rest q" by blast
  from Cons.IH [OF q1(2)] Cons.prems q1 show ?case by simp
qed

lemma add_columns_full:
  assumes "holds q xs" "MAX_COLUMNS < length xs + length ys" "length xs \<le> MAX_COLUMNS"
    "list_all fits ys"
  shows "set_all add q ys = Inl Out_of_bounds"
  using assms
proof (induction ys arbitrary: q xs)
  case Nil
  then show ?case by simp
next
  case (Cons y ys)
  show ?case
  proof (cases "length xs = MAX_COLUMNS")
    case True
    then show ?thesis using add_full [OF Cons.prems(1)] by simp
  next
    case False
    with Cons.prems have "length xs < MAX_COLUMNS" "fits y" by simp_all
    with add_free [OF Cons.prems(1)] obtain q1 where
      q1: "add (Some q) y = Inr (Inr q1)" "holds q1 (xs @ [y])" by blast
    from Cons.IH [OF q1(2)] Cons.prems False q1 show ?thesis by simp
  qed
qed

end

definition column_row :: "string list \<Rightarrow> string option list" where
  "column_row xs = map Some xs @ replicate (MAX_COLUMNS - length xs) None"

lemma length_column_row: "length xs \<le> MAX_COLUMNS \<Longrightarrow> length (column_row xs) = MAX_COLUMNS"
  by (simp add: column_row_def)

lemma column_row_nth:
  "i < length xs \<Longrightarrow> column_row xs ! i = Some (xs ! i)"
  "length xs \<le> i \<Longrightarrow> i < MAX_COLUMNS \<Longrightarrow> column_row xs ! i = None"
  by (simp_all add: column_row_def nth_append)

lemma column_row_Nil [simp]: "column_row [] = replicate MAX_COLUMNS None"
  by (simp add: column_row_def)

lemma column_row_snoc:
  "length xs < MAX_COLUMNS \<Longrightarrow> (column_row xs)[length xs := Some x] = column_row (xs @ [x])"
  by (simp add: column_row_def list_update_append replicate_Suc [symmetric] Suc_diff_Suc del: replicate_Suc)
     (metis Suc_diff_Suc list_update_code(2) replicate_Suc)

lemma find_slot_column_row:
  assumes "length xs \<le> MAX_COLUMNS" "i \<le> length xs"
  shows "find_slot (column_row xs) i =
    (if length xs = MAX_COLUMNS then Inl Out_of_bounds else Inr (length xs))"
  using assms
proof (induction "length xs - i" arbitrary: i)
  case 0
  then have "i = length xs" by simp
  with 0 show ?case
    by (subst find_slot.simps) (simp add: length_column_row column_row_nth)
next
  case (Suc n)
  then have "i < length xs" by simp
  with Suc show ?case
    by (subst find_slot.simps) (simp add: length_column_row column_row_nth)
qed

lemma set_cell_column_row:
  "length xs < MAX_COLUMNS \<Longrightarrow> set_cell (column_row xs) (length xs) x = Inr (column_row (xs @ [x]))"
  by (simp add: set_cell_def length_column_row column_row_snoc)

lemmas column_row_facts = length_column_row column_row_nth column_row_snoc find_slot_column_row
  set_cell_column_row


definition select_holds :: "sqlite_select_query_t \<Rightarrow> string list \<Rightarrow> bool" where
  "select_holds q cs \<longleftrightarrow> length cs \<le> MAX_COLUMNS \<and> sel_atributes q = column_row cs"

definition insert_holds :: "sqlite_insert_query_t \<Rightarrow> (string \<times> string) list \<Rightarrow> bool" where
  "insert_holds q cs \<longleftrightarrow> length cs \<le> MAX_COLUMNS \<and>
     ins_atributes q = column_row (map fst cs) \<and> ins_values q = column_row (map snd cs)"

definition update_holds :: "sqlite_update_query_t \<Rightarrow> (string \<times> string) list \<Rightarrow> bool" where
  "update_holds q cs \<longleftrightarrow> length cs \<le> MAX_COLUMNS \<and>
     upd_atributes q = column_row (map fst cs) \<and> upd_values q = column_row (map snd cs)"

lemmas column_setters = set_select_query_atribute_def set_insert_query_value_def
  set_update_query_value_def select_holds_def insert_holds_def update_holds_def

text \<open>A value fits when the block allocated for its copy also has room for the terminator.\<close>

definition pair_fits :: "(nat \<Rightarrow> nat) \<Rightarrow> string \<times> string \<Rightarrow> bool" where
  "pair_fits U p \<longleftrightarrow> length (fst p) < U (length (fst p)) \<and> length (snd p) < U (length (snd p))"

interpretation sel: column_array "set_select_query_atribute U" select_holds
  "\<lambda>q. (sel_table q, sel_where q)" "\<lambda>c. length c < U (length c + 1)" for U
proof (unfold_locales, goal_cases)
  case (1 x) show ?case by (simp add: column_setters)
next
  case (2 q xs x)
  then show ?case by (simp add: column_setters column_row_facts sprintf_into_Inr)
next
  case (3 q xs x)
  then show ?case by (simp add: column_setters column_row_facts)
qed

interpretation ins: column_array "\<lambda>q p. set_insert_query_value U q (fst p) (snd p)" insert_holds
  ins_table "pair_fits U" for U
proof (unfold_locales, goal_cases)
  case (1 x) show ?case by (simp add: column_setters)
next
  case (2 q xs x)
  then show ?case
    using set_cell_column_row [of "map fst xs" "fst x"] set_cell_column_row [of "map snd xs" "snd x"]
    by (simp add: column_setters pair_fits_def find_slot_column_row sprintf_into_Inr)
next
  case (3 q xs x)
  then show ?case by (simp add: column_setters column_row_facts)
qed

interpretation upd: column_array "\<lambda>q p. set_update_query_value U q (fst p) (snd p)" update_holds
  "\<lambda>q. (upd_table q, upd_where q)" "pair_fits U" for U
proof (unfold_locales, goal_cases)
  case (1 x) show ?case by (simp add: column_setters)
next
  case (2 q xs x)
  then show ?case
    using set_cell_column_row [of "map fst xs" "fst x"] set_cell_column_row [of "map snd xs" "snd x"]
    by (simp add: column_setters pair_fits_def find_slot_column_row sprintf_into_Inr)
next
  case (3 q xs x)
  then show ?case by (simp add: column_setters column_row_facts)
qed

section \<open>The text of a query\<close>

fun join_fields :: "string list \<Rightarrow> string" where
  "join_fields [] = []"
| "join_fields [x] = x"
| "join_fields (x # y # ys) = x @ '','' @ join_fields (y # ys)"

lemma join_fields_snoc:
  "join_fields (xs @ [x]) = (if xs = [] then x else join_fields xs @ '','' @ x)"
  by (induction xs rule: join_fields.induct) auto

lemma length_join_fields_append: "length (join_fields xs) \<le> length (join_fields (xs @ ys))"
proof (induction ys rule: rev_induct)
  case (snoc y ys)
  then show ?case using join_fields_snoc [of "xs @ ys" y] by (auto split: if_splits)
qed simp

lemma to_fields_loop_row:
  assumes "allocator U" "length cs < MAX_COLUMNS" "length (join_fields cs) < MAX_QUERY_LENGTH"
    "i \<le> length cs"
  shows "to_fields_loop U (column_row cs) i (join_fields (take i cs)) = Inr (join_fields cs)"
  using assms(4)
proof (induction "length cs - i" arbitrary: i)
  case 0
  then have "i = length cs" by simp
  then show ?case using assms
    by (subst to_fields_loop.simps) (simp add: column_row_facts)
next
  case (Suc n)
  then have i: "i < length cs" by simp
  have "(if i = 0 then cs ! i else join_fields (take i cs) @ '','' @ cs ! i)
      = join_fields (take (Suc i) cs)"
    using i by (auto simp: take_Suc_conv_app_nth join_fields_snoc)
  moreover have "length (join_fields (take (Suc i) cs)) < MAX_QUERY_LENGTH"
    using assms(3) length_join_fields_append [of "take (Suc i) cs" "drop (Suc i) cs"] by simp
  ultimately show ?case using assms i Suc
    by (subst to_fields_loop.simps) (simp add: column_row_facts sprintf_into_fits)
qed

lemma to_fields_string_row:
  "allocator U \<Longrightarrow> length cs < MAX_COLUMNS \<Longrightarrow> length (join_fields cs) < MAX_QUERY_LENGTH \<Longrightarrow>
    to_fields_string U (column_row cs) = Inr (join_fields cs)"
  using to_fields_loop_row [of U cs 0] by (simp add: to_fields_string_def)

text \<open>A full row has no null pointer to stop at.\<close>

lemma to_fields_loop_full:
  assumes "length cs = MAX_COLUMNS" "i \<le> length cs"
  shows "to_fields_loop U (column_row cs) i aux = Inl Out_of_bounds"
  using assms(2)
proof (induction "length cs - i" arbitrary: i aux)
  case 0
  then show ?case using assms(1)
    by (subst to_fields_loop.simps) (simp add: column_row_facts)
next
  case (Suc n)
  then have "i < length cs" by simp
  with Suc assms(1) show ?case
    by (subst to_fields_loop.simps) (simp add: column_row_facts sprintf_into_def)
qed

lemma to_fields_string_full:
  "length cs = MAX_COLUMNS \<Longrightarrow> to_fields_string U (column_row cs) = Inl Out_of_bounds"
  by (simp add: to_fields_string_def to_fields_loop_full)

lemma column_row_prefix_snoc:
  "length xs < MAX_COLUMNS \<Longrightarrow> xs' = xs @ [x] \<Longrightarrow> (column_row xs)[length xs := Some x] = column_row xs'"
  by (simp add: column_row_snoc)

lemma update_pairs_row:
  assumes "allocator U" "length cs < MAX_COLUMNS" "i \<le> length cs"
  shows "update_pairs U (column_row (map fst cs)) (column_row (map snd cs)) i
      (column_row (map (\<lambda>p. fst p @ ''='' @ snd p) (take i cs)))
    = Inr (column_row (map (\<lambda>p. fst p @ ''='' @ snd p) cs))"
  using assms(3)
proof (induction "length cs - i" arbitrary: i)
  case 0
  then have "i = length cs" by simp
  then show ?case using assms
    by (subst update_pairs.simps) (simp add: column_row_facts list_update_same_conv)
next
  case (Suc n)
  then have i: "i < length cs" by simp
  have "set_cell (column_row (map (\<lambda>p. fst p @ ''='' @ snd p) (take i cs))) i
      (fst (cs ! i) @ ''='' @ snd (cs ! i))
    = Inr (column_row (map (\<lambda>p. fst p @ ''='' @ snd p) (take (Suc i) cs)))"
    using i assms(2) set_cell_column_row
      [of "map (\<lambda>p. fst p @ ''='' @ snd p) (take i cs)" "fst (cs ! i) @ ''='' @ snd (cs ! i)"]
    by (simp add: take_Suc_conv_app_nth)
  with Suc i assms show ?case
    by (subst update_pairs.simps) (simp add: column_row_facts sprintf_into_fits)
qed


section \<open>Whole queries\<close>

text \<open>A setter's query, when it returned one, goes to the next call.\<close>

definition bindQ ::
  "(int + 'q) result \<Rightarrow> ('q \<Rightarrow> (int + 'r) result) \<Rightarrow> (int + 'r) result" where
  "bindQ m f = bindE m (\<lambda>r. case r of Inl e \<Rightarrow> Inr (Inl e) | Inr q \<Rightarrow> f q)"

lemma bindQ_simps [simp]:
  "bindQ (Inl e) f = Inl e"
  "bindQ (Inr (Inl n)) f = Inr (Inl n)"
  "bindQ (Inr (Inr q)) f = f q"
  by (simp_all add: bindQ_def)

lemma bindQ_Inr_iff: "bindQ m f = Inr (Inr y) \<longleftrightarrow> (\<exists>x. m = Inr (Inr x) \<and> f x = Inr (Inr y))"
proof (cases m)
  case (Inr r)
  then show ?thesis by (cases r) simp_all
qed simp

type_synonym condition = "string \<times> string \<times> string"

fun condition_text :: "condition \<Rightarrow> string" where
  "condition_text (c, op, v) = '' AND '' @ c @ '' '' @ op @ '' '' @ v"

definition where_text :: "condition list \<Rightarrow> string" where
  "where_text ws = ''1=1'' @ concat (map condition_text ws)"

lemma where_text_Nil [simp]: "where_text [] = ''1=1''"
  by (simp add: where_text_def)

lemma where_text_snoc: "where_text (ws @ [w]) = where_text ws @ condition_text w"
  by (simp add: where_text_def)

lemma length_where_text_append: "length (where_text ws) \<le> length (where_text (ws @ vs))"
  by (simp add: where_text_def)

definition select_text ::
  "(nat \<Rightarrow> nat) \<Rightarrow> string \<Rightarrow> string list \<Rightarrow> condition list \<Rightarrow> (int + string) result" where
  "select_text U table cs ws =
     bindE (create_select_query U) (\<lambda>q.
     bindQ (set_select_query_table U (Some q) table) (\<lambda>q.
     bindQ (set_all (set_select_query_atribute U) q cs) (\<lambda>q.
     bindQ (set_all (\<lambda>q (c, op, v). set_select_query_where U q c op v) q ws) (\<lambda>q.
     bindQ (select_query_to_str U (Some q)) (\<lambda>(s, _).
     Inr (Inr s))))))"

definition insert_text ::
  "(nat \<Rightarrow> nat) \<Rightarrow> string \<Rightarrow> (string \<times> string) list \<Rightarrow> (int + string) result" where
  "insert_text U table cs =
     bindQ (set_insert_query_table U (Some create_insert_query) table) (\<lambda>q.
     bindQ (set_all (\<lambda>q p. set_insert_query_value U q (fst p) (snd p)) q cs) (\<lambda>q.
     insert_query_to_str U (Some q)))"

definition update_text ::
  "(nat \<Rightarrow> nat) \<Rightarrow> string \<Rightarrow> (string \<times> string) list \<Rightarrow> condition list \<Rightarrow> (int + string) result" where
  "update_text U table cs ws =
     bindE (create_update_query U) (\<lambda>q.
     bindQ (set_update_query_table U (Some q) table) (\<lambda>q.
     bindQ (set_all (\<lambda>q p. set_update_query_value U q (fst p) (snd p)) q cs) (\<lambda>q.
     bindQ (set_all (\<lambda>q (c, op, v). set_update_query_where U q c op v) q ws) (\<lambda>q.
     update_query_to_str U (Some q)))))"

definition delete_text ::
  "(nat \<Rightarrow> nat) \<Rightarrow> string \<Rightarrow> string \<Rightarrow> (int + string) result" where
  "delete_text U table w =
     bindE (create_delete_query U) (\<lambda>q.
     bindQ (set_delete_query_table U (Some q) table) (\<lambda>q.
     bindQ (set_delete_query_where U (Some q) w) (\<lambda>q.
     delete_query_to_str U (Some q))))"

lemma select_conditions:
  assumes "allocator U" "sel_where q = where_text vs" "length (where_text (vs @ ws)) < WHERE_LENGTH"
  shows "set_all (\<lambda>q (c, op, v). set_select_query_where U q c op v) q ws
    = Inr (Inr (q\<lparr>sel_where := where_text (vs @ ws)\<rparr>))"
  using assms(2,3)
proof (induction ws arbitrary: q vs)
  case Nil
  then show ?case by simp
next
  case (Cons w ws)
  obtain c op v where w: "w = (c, op, v)" by (cases w)
  have "length (where_text (vs @ [w])) < WHERE_LENGTH"
    using Cons.prems(2) length_where_text_append [of "vs @ [w]" ws] by simp
  with Cons.prems(1) w have "set_select_query_where U (Some q) c op v
      = Inr (Inr (q\<lparr>sel_where := where_text (vs @ [w])\<rparr>))"
    using assms(1) by (simp add: set_select_query_where_def sprintf_into_fits where_text_snoc)
  then show ?case
    using Cons.IH [of "q\<lparr>sel_where := where_text (vs @ [w])\<rparr>" "vs @ [w]"] Cons.prems w by simp
qed

lemma update_conditions:
  assumes "allocator U" "upd_where q = where_text vs" "length (where_text (vs @ ws)) < WHERE_LENGTH"
  shows "set_all (\<lambda>q (c, op, v). set_update_query_where U q c op v) q ws
    = Inr (Inr (q\<lparr>upd_where := where_text (vs @ ws)\<rparr>))"
  using assms(2,3)
proof (induction ws arbitrary: q vs)
  case Nil
  then show ?case by simp
next
  case (Cons w ws)
  obtain c op v where w: "w = (c, op, v)" by (cases w)
  have "length (where_text (vs @ [w])) < WHERE_LENGTH"
    using Cons.prems(2) length_where_text_append [of "vs @ [w]" ws] by simp
  with Cons.prems(1) w have "set_update_query_where U (Some q) c op v
      = Inr (Inr (q\<lparr>upd_where := where_text (vs @ [w])\<rparr>))"
    using assms(1) by (simp add: set_update_query_where_def sprintf_into_fits where_text_snoc)
  then show ?case
    using Cons.IH [of "q\<lparr>upd_where := where_text (vs @ [w])\<rparr>" "vs @ [w]"] Cons.prems w by simp
qed

lemma create_where_fits: "allocator U \<Longrightarrow> sprintf_into U WHERE_LENGTH ''1=1'' = Inr ''1=1''"
  by (rule sprintf_into_fits) (simp_all add: sql_sizes)

definition select_spec :: "string \<Rightarrow> string list \<Rightarrow> condition list \<Rightarrow> string" where
  "select_spec table cs ws = ''SELECT '' @ join_fields (if cs = [] then [''*''] else cs) @
     '' FROM '' @ table @ '' WHERE '' @ where_text ws @ '';''"

definition insert_spec :: "string \<Rightarrow> (string \<times> string) list \<Rightarrow> string" where
  "insert_spec table cs = ''INSERT INTO '' @ table @ ''('' @ join_fields (map fst cs) @
     '') VALUES('' @ join_fields (map snd cs) @ '');''"

definition update_spec :: "string \<Rightarrow> (string \<times> string) list \<Rightarrow> condition list \<Rightarrow> string" where
  "update_spec table cs ws = ''UPDATE '' @ table @ '' SET '' @
     join_fields (map (\<lambda>p. fst p @ ''='' @ snd p) cs) @ '' WHERE '' @ where_text ws @ '';''"


lemma select_query_to_str_row:
  assumes "allocator U" "select_holds q cs" "length cs < MAX_COLUMNS" "sel_table q = Some t"
    "sel_where q = where_text ws" "length (select_spec t cs ws) < MAX_QUERY_LENGTH"
  shows "\<exists>q'. select_query_to_str U (Some q) = Inr (Inr (select_spec t cs ws, q'))"
proof -
  let ?cs = "if cs = [] then [''*''] else cs"
  have row: "(if sel_atributes q ! 0 = None then q\<lparr>sel_atributes := (sel_atributes q)[0 := Some ''*'']\<rparr>
      else q) = q\<lparr>sel_atributes := column_row ?cs\<rparr>"
    using assms(2) column_row_snoc [of "[]" "''*''"]
    by (auto simp: select_holds_def column_row_facts MAX_COLUMNS_def)
  have len: "\<not> length (sel_atributes q) < 4"
    using assms(2) by (simp add: select_holds_def length_column_row MAX_COLUMNS_def)
  have "to_fields_string U (column_row ?cs) = Inr (join_fields ?cs)"
    using assms(1,3,6) by (intro to_fields_string_row) (auto simp: select_spec_def sql_sizes)
  then show ?thesis
    using assms len by (simp add: select_query_to_str_def row select_spec_def sprintf_into_fits Let_def)
qed

lemma select_steps:
  assumes "allocator U" "length t < MAX_NAME_LENGTH" "length cs \<le> MAX_COLUMNS"
    "length (where_text ws) < WHERE_LENGTH"
  shows "\<exists>q. select_text U t cs ws =
      bindQ (select_query_to_str U (Some q)) (\<lambda>(s, _). Inr (Inr s)) \<and>
    select_holds q cs \<and> sel_table q = Some t \<and> sel_where q = where_text ws"
proof -
  define q0 where "q0 = \<lparr>sel_table = Some t, sel_atributes = replicate MAX_COLUMNS None,
    sel_where = ''1=1''\<rparr>"
  have h0: "select_holds q0 []" by (simp add: select_holds_def q0_def)
  have "list_all (\<lambda>c. length c < U (length c + 1)) cs"
    using assms(1) by (simp add: list_all_iff allocator_less)
  then obtain q1 where q1: "set_all (set_select_query_atribute U) q0 cs = Inr (Inr q1)"
    "select_holds q1 cs" "sel_table q1 = Some t" "sel_where q1 = where_text []"
    using sel.add_columns_free [OF h0, where ys = cs] assms(3) by (auto simp: q0_def)
  have "select_text U t cs ws = bindQ (set_all (set_select_query_atribute U) q0 cs) (\<lambda>q.
     bindQ (set_all (\<lambda>q (c, op, v). set_select_query_where U q c op v) q ws) (\<lambda>q.
     bindQ (select_query_to_str U (Some q)) (\<lambda>(s, _). Inr (Inr s))))"
    using assms(1,2)
    by (simp add: select_text_def create_select_query_def create_where_fits
        set_select_query_table_def sprintf_into_fits q0_def)
  then show ?thesis
    using q1 select_conditions [OF assms(1) q1(4), of ws] assms(4)
    by (intro exI [of _ "q1\<lparr>sel_where := where_text ws\<rparr>"]) (simp add: select_holds_def)
qed

text \<open>
  C23: a SELECT built with up to nine columns and any conditions that fit its block is rendered as
  SQL's \<open>SELECT c1,\<dots>,cn FROM t WHERE 1=1 AND \<dots>;\<close> (a star without columns), with no access
  outside a block.
\<close>

theorem select_text_correct:
  assumes "allocator U" "length t < MAX_NAME_LENGTH" "length cs < MAX_COLUMNS"
    "length (where_text ws) < WHERE_LENGTH" "length (select_spec t cs ws) < MAX_QUERY_LENGTH"
  shows "select_text U t cs ws = Inr (Inr (select_spec t cs ws))"
proof -
  obtain q where q: "select_text U t cs ws =
      bindQ (select_query_to_str U (Some q)) (\<lambda>(s, _). Inr (Inr s))"
    "select_holds q cs" "sel_table q = Some t" "sel_where q = where_text ws"
    using select_steps [OF assms(1,2) less_imp_le [OF assms(3)] assms(4)] by blast
  from select_query_to_str_row [OF assms(1) q(2) assms(3) q(3,4) assms(5)] q(1)
  show ?thesis by auto
qed

theorem select_text_correct_witness:
  "select_text exact_size ''files'' [''path'', ''owner''] [(''alias'', ''='', ''7'')]
    = Inr (Inr ''SELECT path,owner FROM files WHERE 1=1 AND alias = 7;'')"
  using select_text_correct [of exact_size "''files''" "[''path'', ''owner'']" "[(''alias'', ''='', ''7'')]"]
  by (simp add: select_spec_def where_text_def sql_sizes)

text \<open>
  The arrays of a query have no room for a null pointer after ten columns: a SELECT with ten
  columns, or with more, reads outside them.
\<close>

theorem select_capacity:
  assumes "allocator U" "length t < MAX_NAME_LENGTH" "MAX_COLUMNS \<le> length cs"
    "length (where_text ws) < WHERE_LENGTH"
  shows "select_text U t cs ws = Inl Out_of_bounds"
proof (cases "length cs = MAX_COLUMNS")
  case True
  obtain q where q: "select_text U t cs ws =
      bindQ (select_query_to_str U (Some q)) (\<lambda>(s, _). Inr (Inr s))"
    "select_holds q cs" "sel_table q = Some t"
    using select_steps [OF assms(1,2) _ assms(4), of cs] True by auto
  moreover from True have "column_row cs ! 0 = Some (cs ! 0)" "\<not> length (column_row cs) < 4"
    by (simp_all add: column_row_facts MAX_COLUMNS_def)
  ultimately show ?thesis
    using True by (simp add: select_query_to_str_def select_holds_def to_fields_string_full Let_def)
next
  case False
  define q0 where "q0 = \<lparr>sel_table = Some t, sel_atributes = replicate MAX_COLUMNS None,
    sel_where = ''1=1''\<rparr>"
  have h0: "select_holds q0 []" by (simp add: select_holds_def q0_def)
  have "list_all (\<lambda>c. length c < U (length c + 1)) cs"
    using assms(1) by (simp add: list_all_iff allocator_less)
  then have "set_all (set_select_query_atribute U) q0 cs = Inl Out_of_bounds"
    using sel.add_columns_full [OF h0, where ys = cs] assms(3) False by simp
  then show ?thesis
    using assms(1,2)
    by (simp add: select_text_def create_select_query_def create_where_fits
        set_select_query_table_def sprintf_into_fits q0_def)
qed

theorem select_capacity_witness:
  "select_text exact_size ''t'' (replicate 10 ''c'') [] = Inl Out_of_bounds"
  by (rule select_capacity) (simp_all add: sql_sizes)


lemma insert_text_eq:
  assumes "allocator U" "length t < MAX_NAME_LENGTH" "cs \<noteq> []" "length cs < MAX_COLUMNS"
    "list_all (pair_fits U) cs" "length (insert_spec t cs) < MAX_QUERY_LENGTH"
  shows "insert_text U t cs = Inr (Inr (insert_spec t cs))"
proof -
  let ?q0 = "create_insert_query\<lparr>ins_table := Some t\<rparr>"
  have h0: "insert_holds ?q0 []" by (simp add: insert_holds_def create_insert_query_def)
  obtain q where q: "set_all (\<lambda>q p. set_insert_query_value U q (fst p) (snd p)) ?q0 cs = Inr (Inr q)"
    "insert_holds q cs" "ins_table q = Some t"
    using ins.add_columns_free [OF h0, where ys = cs and U = U] assms(4,5) by auto
  have "column_row (map fst cs) ! 0 \<noteq> None" "column_row (map fst cs) \<noteq> []"
    using assms(3,4) by (auto simp: column_row_nth) (simp add: column_row_def)
  moreover have "to_fields_string U (column_row (map fst cs)) = Inr (join_fields (map fst cs))"
    "to_fields_string U (column_row (map snd cs)) = Inr (join_fields (map snd cs))"
    using assms(1,4,6) by (auto intro!: to_fields_string_row simp: insert_spec_def)
  ultimately have "insert_query_to_str U (Some q) = Inr (Inr (insert_spec t cs))"
    using q(2,3) assms(1,6)
    by (simp add: insert_query_to_str_def insert_holds_def insert_spec_def sprintf_into_fits)
  with q(1) assms(1,2) show ?thesis
    by (simp add: insert_text_def set_insert_query_table_def sprintf_into_fits)
qed

text \<open>
  An INSERT with one to nine columns whose copies fit is rendered as
  \<open>INSERT INTO t(c1,\<dots>,cn) VALUES(v1,\<dots>,vn);\<close>, each value in the place of its column.
\<close>

theorem insert_text_correct:
  assumes "allocator U" "length t < MAX_NAME_LENGTH" "cs \<noteq> []" "length cs < MAX_COLUMNS"
    "list_all (pair_fits U) cs" "length (insert_spec t cs) < MAX_QUERY_LENGTH"
  shows "insert_text U t cs = Inr (Inr (insert_spec t cs))"
  using assms by (rule insert_text_eq)

theorem insert_text_correct_witness:
  "insert_text granule_size ''files'' [(''path'', ''7''), (''owner'', ''2'')]
    = Inr (Inr ''INSERT INTO files(path,owner) VALUES(7,2);'')"
  using insert_text_correct [of granule_size "''files''" "[(''path'', ''7''), (''owner'', ''2'')]"]
  by (simp add: insert_spec_def pair_fits_def granule_size_def sql_sizes)

lemma update_text_eq:
  assumes "allocator U" "length t < MAX_NAME_LENGTH" "cs \<noteq> []" "length cs < MAX_COLUMNS"
    "list_all (pair_fits U) cs" "length (where_text ws) < WHERE_LENGTH"
    "length (update_spec t cs ws) < MAX_QUERY_LENGTH"
  shows "update_text U t cs ws = Inr (Inr (update_spec t cs ws))"
proof -
  define q0 where "q0 = \<lparr>upd_table = Some t, upd_atributes = replicate MAX_COLUMNS None,
    upd_values = replicate MAX_COLUMNS None, upd_where = ''1=1''\<rparr>"
  have h0: "update_holds q0 []" by (simp add: update_holds_def q0_def)
  obtain q where q: "set_all (\<lambda>q p. set_update_query_value U q (fst p) (snd p)) q0 cs = Inr (Inr q)"
    "update_holds q cs" "upd_table q = Some t" "upd_where q = where_text []"
    using upd.add_columns_free [OF h0, where ys = cs and U = U] assms(4,5) by (auto simp: q0_def)
  let ?q = "q\<lparr>upd_where := where_text ws\<rparr>"
  let ?ps = "map (\<lambda>p. fst p @ ''='' @ snd p) cs"
  have "column_row (map fst cs) ! 0 \<noteq> None" "column_row (map fst cs) \<noteq> []"
    using assms(3,4) by (auto simp: column_row_nth) (simp add: column_row_def)
  moreover have "to_fields_string U (column_row ?ps) = Inr (join_fields ?ps)"
    using assms(1,4,7) by (auto intro!: to_fields_string_row simp: update_spec_def)
  moreover have "update_pairs U (column_row (map fst cs)) (column_row (map snd cs)) 0
      (replicate MAX_COLUMNS None) = Inr (column_row ?ps)"
    using update_pairs_row [OF assms(1,4), of 0] by simp
  ultimately have "update_query_to_str U (Some ?q) = Inr (Inr (update_spec t cs ws))"
    using q(2,3) assms(1,7)
    by (simp add: update_query_to_str_def update_holds_def update_spec_def sprintf_into_fits)
  with q update_conditions [OF assms(1) q(4), of ws] assms(1,2,6) show ?thesis
    by (simp add: update_text_def create_update_query_def create_where_fits
        set_update_query_table_def sprintf_into_fits q0_def)
qed

text \<open>
  An UPDATE with one to nine assignments whose copies fit is rendered as
  \<open>UPDATE t SET c1=v1,\<dots>,cn=vn WHERE 1=1 AND \<dots>;\<close>.
\<close>

theorem update_text_correct:
  assumes "allocator U" "length t < MAX_NAME_LENGTH" "cs \<noteq> []" "length cs < MAX_COLUMNS"
    "list_all (pair_fits U) cs" "length (where_text ws) < WHERE_LENGTH"
    "length (update_spec t cs ws) < MAX_QUERY_LENGTH"
  shows "update_text U t cs ws = Inr (Inr (update_spec t cs ws))"
  using assms by (rule update_text_eq)

theorem update_text_correct_witness:
  "update_text granule_size ''users'' [(''password'', ''7'')] [(''user_id'', ''='', ''3'')]
    = Inr (Inr ''UPDATE users SET password=7 WHERE 1=1 AND user_id = 3;'')"
  using update_text_correct
    [of granule_size "''users''" "[(''password'', ''7'')]" "[(''user_id'', ''='', ''3'')]"]
  by (simp add: update_spec_def where_text_def pair_fits_def granule_size_def sql_sizes)

lemma delete_text_correct:
  assumes "allocator U" "length t < MAX_NAME_LENGTH" "length w < WHERE_LENGTH"
  shows "delete_text U t w = Inr (Inr (''DELETE FROM '' @ t @ '' WHERE '' @ w @ '';''))"
  using assms
  by (simp add: delete_text_def create_delete_query_def create_where_fits set_delete_query_table_def
      set_delete_query_where_def delete_query_to_str_def sprintf_into_fits sql_sizes)

text \<open>
  \<open>set_insert_query_value\<close> copies both strings into blocks of
  \<open>strlen\<close> bytes: under an allocator that gives exactly what is asked for, every call writes a
  terminator outside its block.
\<close>

theorem value_copy_off_by_one:
  assumes "insert_holds q cs"
  shows "set_insert_query_value exact_size (Some q) a v = Inl Out_of_bounds"
  using assms by (auto simp: column_setters find_slot_column_row sprintf_into_exact)

theorem value_copy_off_by_one_witness:
  "set_insert_query_value exact_size (Some create_insert_query) ''owner'' ''2'' = Inl Out_of_bounds"
  by (rule value_copy_off_by_one [where cs = "[]"])
     (simp add: insert_holds_def create_insert_query_def)


section \<open>Callers that ignore the codes\<close>

text \<open>
  The callers of the setters ignore what they return: the query a caller goes on with is the one
  the setter wrote, or the old one.
\<close>

definition ignore_code :: "'q \<Rightarrow> (int + 'q) result \<Rightarrow> 'q result" where
  "ignore_code q r = bindE r (\<lambda>x. case x of Inl _ \<Rightarrow> Inr q | Inr q' \<Rightarrow> Inr q')"

lemma ignore_code_simps [simp]:
  "ignore_code q (Inl e) = Inl e"
  "ignore_code q (Inr (Inl n)) = Inr q"
  "ignore_code q (Inr (Inr q')) = Inr q'"
  by (simp_all add: ignore_code_def)

fun set_each ::
  "('q option \<Rightarrow> 'a \<Rightarrow> (int + 'q) result) \<Rightarrow> 'q \<Rightarrow> 'a list \<Rightarrow> 'q result" where
  "set_each add q [] = Inr q"
| "set_each add q (x # xs) = bindE (ignore_code q (add (Some q) x)) (\<lambda>q'. set_each add q' xs)"

lemma set_each_all: "set_all add q xs = Inr (Inr q') \<Longrightarrow> set_each add q xs = Inr q'"
proof (induction xs arbitrary: q)
  case (Cons x xs)
  then have "bindQ (add (Some q) x) (\<lambda>q'. set_all add q' xs) = Inr (Inr q')"
    by (simp add: bindQ_def)
  with Cons.IH show ?case by (auto simp: bindQ_Inr_iff)
qed simp

definition select_query ::
  "(nat \<Rightarrow> nat) \<Rightarrow> string \<Rightarrow> string list \<Rightarrow> condition list \<Rightarrow> sqlite_select_query_t result" where
  "select_query U table cs ws =
     bindE (create_select_query U) (\<lambda>q.
     bindE (ignore_code q (set_select_query_table U (Some q) table)) (\<lambda>q.
     bindE (set_each (set_select_query_atribute U) q cs) (\<lambda>q.
     set_each (\<lambda>q (c, op, v). set_select_query_where U q c op v) q ws)))"

definition insert_query ::
  "(nat \<Rightarrow> nat) \<Rightarrow> string \<Rightarrow> (string \<times> string) list \<Rightarrow> sqlite_insert_query_t result" where
  "insert_query U table cs =
     bindE (ignore_code create_insert_query
       (set_insert_query_table U (Some create_insert_query) table)) (\<lambda>q.
     set_each (\<lambda>q p. set_insert_query_value U q (fst p) (snd p)) q cs)"

definition update_query ::
  "(nat \<Rightarrow> nat) \<Rightarrow> string \<Rightarrow> (string \<times> string) list \<Rightarrow> condition list \<Rightarrow> sqlite_update_query_t result" where
  "update_query U table cs ws =
     bindE (create_update_query U) (\<lambda>q.
     bindE (ignore_code q (set_update_query_table U (Some q) table)) (\<lambda>q.
     bindE (set_each (\<lambda>q p. set_update_query_value U q (fst p) (snd p)) q cs) (\<lambda>q.
     set_each (\<lambda>q (c, op, v). set_update_query_where U q c op v) q ws)))"

lemma set_all_step: "bindQ (set_all add q xs) f = Inr (Inr r) \<Longrightarrow>
  \<exists>q'. set_each add q xs = Inr q' \<and> f q' = Inr (Inr r)"
  by (auto simp: bindQ_Inr_iff intro: set_each_all)

lemma select_query_built:
  assumes "allocator U" "length t < MAX_NAME_LENGTH" "length cs < MAX_COLUMNS"
    "length (where_text ws) < WHERE_LENGTH" "length (select_spec t cs ws) < MAX_QUERY_LENGTH"
  shows "\<exists>q q'. select_query U t cs ws = Inr q \<and>
    select_query_to_str U (Some q) = Inr (Inr (select_spec t cs ws, q'))"
proof -
  define q0 where "q0 = \<lparr>sel_table = Some t, sel_atributes = replicate MAX_COLUMNS None,
    sel_where = ''1=1''\<rparr>"
  have h0: "select_holds q0 []" by (simp add: select_holds_def q0_def)
  have "list_all (\<lambda>c. length c < U (length c + 1)) cs"
    using assms(1) by (simp add: list_all_iff allocator_less)
  then obtain q1 where q1: "set_all (set_select_query_atribute U) q0 cs = Inr (Inr q1)"
    "select_holds q1 cs" "sel_table q1 = Some t" "sel_where q1 = where_text []"
    using sel.add_columns_free [OF h0, where ys = cs] assms(3) by (auto simp: q0_def)
  let ?q = "q1\<lparr>sel_where := where_text ws\<rparr>"
  have "select_query U t cs ws = Inr ?q"
    using assms(1,2) set_each_all [OF q1(1)]
      set_each_all [OF select_conditions [OF assms(1) q1(4), of ws, simplified, OF assms(4)]]
    by (simp add: select_query_def create_select_query_def create_where_fits
        set_select_query_table_def sprintf_into_fits q0_def)
  moreover have "\<exists>q'. select_query_to_str U (Some ?q) = Inr (Inr (select_spec t cs ws, q'))"
    using q1 assms by (intro select_query_to_str_row) (simp_all add: select_holds_def)
  ultimately show ?thesis by blast
qed

lemma insert_query_built:
  assumes "allocator U" "length t < MAX_NAME_LENGTH"
    "insert_text U t cs = Inr (Inr (insert_spec t cs))"
  shows "\<exists>q. insert_query U t cs = Inr q \<and> insert_query_to_str U (Some q) = Inr (Inr (insert_spec t cs))"
  using assms
  by (auto simp: insert_text_def insert_query_def set_insert_query_table_def sprintf_into_fits
      dest!: set_all_step)

lemma update_query_built:
  assumes "allocator U" "length t < MAX_NAME_LENGTH"
    "update_text U t cs ws = Inr (Inr (update_spec t cs ws))"
  shows "\<exists>q. update_query U t cs ws = Inr q \<and>
    update_query_to_str U (Some q) = Inr (Inr (update_spec t cs ws))"
  using assms
  by (auto simp: update_text_def update_query_def set_update_query_table_def sprintf_into_fits
      create_update_query_def create_where_fits dest!: set_all_step)

end
