(* ===== verification/Sql_Conn.thy ===== *)
theory Sql_Conn
  imports Sql_Query
begin

text \<open>
  The SQL connection of \<open>lib/sqlite/sqlite.c\<close>: a child process that reads queries from a pipe and
  writes the rows and a line \<open>END\<close> to another (\<open>init_sqlite_server\<close>, \<open>callback\<close>), and the side
  of the caller (\<open>run_sqlite_query\<close> and the functions over it, opening and closing).

  \<^item> \<open>sqlite3_exec\<close> is not in the repository. It is the parameter \<open>exec\<close>: from a database and a
    text to the database after it and the rows the callback is called with, a cell being \<open>None\<close>
    for SQL's null. The code prints the return code of \<open>sqlite3_exec\<close> and does not use it.
  \<^item> The two processes are connected by two pipes only and each reads its pipe in order, so what
    the child writes is a function of what it has read. A link is the database, the bytes of the
    request pipe the child has read no full query from, and the bytes of the reply pipe the caller
    has not read. A \<open>read\<close> that can never return is \<open>Blocked\<close>; a \<open>write\<close> to a child that has
    exited is \<open>Aborted\<close>, the default of \<open>SIGPIPE\<close>. Pipes are taken to hold what is written to
    them.
\<close>

definition SQL_CONNECTION_CLOSE_STR :: string where
  "SQL_CONNECTION_CLOSE_STR = ''CLOSE CONNECTION;''"
definition END_STR :: string where "END_STR = ''END''"
definition NULL_STR :: string where "NULL_STR = ''NULL''"
definition MAX_QUERY_RESPONSE_LENGTH :: nat where "MAX_QUERY_RESPONSE_LENGTH = 2048"
definition SQL_OK :: int where "SQL_OK = 0"
definition ERR_RUN_SQL_ERROR :: int where "ERR_RUN_SQL_ERROR = 999"
definition ERR_SQL_CONNECTION_IS_NULL :: int where "ERR_SQL_CONNECTION_IS_NULL = 1002"

type_synonym row = "string option list"
type_synonym 'db sql_engine = "'db \<Rightarrow> string \<Rightarrow> 'db \<times> row list"

record 'db sql_link =
  link_db :: 'db
  link_requests :: string
  link_replies :: string
  link_running :: bool

section \<open>The child\<close>

text \<open>
  \<open>do \<dots> while (written_bytes < size)\<close>: the byte at the index is written before the bound is
  tested, so that a size of 0 writes one byte. \<open>b\<close> is the block, terminator included.
\<close>

function write_one_by_one_in_fd :: "buf \<Rightarrow> nat \<Rightarrow> nat \<Rightarrow> string result" where
  "write_one_by_one_in_fd b n w =
     bindE (peek b w) (\<lambda>c.
     if Suc w < n then bindE (write_one_by_one_in_fd b n (Suc w)) (\<lambda>cs. Inr (c # cs))
     else Inr [c])"
  by pat_completeness auto
termination
  by (relation "measure (\<lambda>(b, n, w). n - w)") auto

declare write_one_by_one_in_fd.simps [simp del]

definition cell_text :: "string option \<Rightarrow> string" where
  "cell_text v = (case v of None \<Rightarrow> NULL_STR | Some s \<Rightarrow> s)"

fun callback_loop :: "(nat \<Rightarrow> nat) \<Rightarrow> row \<Rightarrow> string \<Rightarrow> string result" where
  "callback_loop U [] str = Inr str"
| "callback_loop U (v # vs) str =
     bindE (sprintf_into U MAX_QUERY_RESPONSE_LENGTH
       (if length str = 0 then cell_text v else str @ '' '' @ cell_text v)) (\<lambda>str'.
     callback_loop U vs str')"

text \<open>What one call of the callback writes to the reply pipe.\<close>

definition callback :: "(nat \<Rightarrow> nat) \<Rightarrow> row \<Rightarrow> string result" where
  "callback U argv =
     bindE (callback_loop U argv []) (\<lambda>str.
     bindE (sprintf_into U MAX_QUERY_RESPONSE_LENGTH (str @ [NEWLINE])) (\<lambda>line.
     write_one_by_one_in_fd (line @ [ZERO]) (length line) 0))"

fun run_callbacks :: "(nat \<Rightarrow> nat) \<Rightarrow> row list \<Rightarrow> string result" where
  "run_callbacks U [] = Inr []"
| "run_callbacks U (r # rs) =
     bindE (callback U r) (\<lambda>s. bindE (run_callbacks U rs) (\<lambda>ss. Inr (s @ ss)))"

text \<open>
  The reading of one query: up to a semicolon, or until the counter \<open>q\<close> reaches 100. A byte 0 is
  read and counted but \<open>strcat\<close> adds nothing. \<open>None\<close> is a read that waits.
\<close>

fun read_query :: "nat \<Rightarrow> string \<Rightarrow> string \<Rightarrow> (string \<times> string) option" where
  "read_query q buffer [] = None"
| "read_query q buffer (c # pipe) =
     (let buffer' = (if c = ZERO then buffer else buffer @ [c])
      in if c \<noteq> CHR '';'' \<and> q < 100 then read_query (q + 1) buffer' pipe
         else Some (buffer', pipe))"

lemma read_query_shorter: "read_query q b p = Some (s, p') \<Longrightarrow> length p' < length p"
  by (induction q b p rule: read_query.induct) (auto simp: Let_def split: if_splits)

text \<open>The answer to one query: the lines of its rows and the line \<open>END\<close>.\<close>

definition answer_query ::
  "(nat \<Rightarrow> nat) \<Rightarrow> 'db sql_engine \<Rightarrow> 'db \<Rightarrow> string \<Rightarrow> ('db \<times> string) result" where
  "answer_query U exec db query_buffer =
     (let (db', rows) = exec db query_buffer
      in bindE (run_callbacks U rows) (\<lambda>lines.
         bindE (sprintf_into U (length END_STR + 2) (END_STR @ [NEWLINE])) (\<lambda>aux.
         bindE (write_one_by_one_in_fd (aux @ [ZERO]) (length aux) 0) (\<lambda>s.
         Inr (db', lines @ s)))))"

text \<open>\<open>init_sqlite_server\<close>, until it waits for more requests or exits.\<close>

function sqlite_server :: "(nat \<Rightarrow> nat) \<Rightarrow> 'db sql_engine \<Rightarrow> 'db sql_link \<Rightarrow> 'db sql_link result" where
  "sqlite_server U exec l =
     (if \<not> link_running l then Inr l
      else case read_query 0 [] (link_requests l) of
        None \<Rightarrow> Inr l
      | Some (query_buffer, pipe) \<Rightarrow>
          if query_buffer \<noteq> SQL_CONNECTION_CLOSE_STR then
            bindE (answer_query U exec (link_db l) query_buffer) (\<lambda>(db', s).
            sqlite_server U exec (l\<lparr>link_db := db', link_requests := pipe,
              link_replies := link_replies l @ s\<rparr>))
          else Inr (l\<lparr>link_requests := pipe, link_running := False\<rparr>))"
  by pat_completeness auto
termination
  by (relation "measure (\<lambda>(U, exec, l). length (link_requests l))")
     (auto dest: read_query_shorter)

declare sqlite_server.simps [simp del]

definition init_sqlite_server :: "'db \<Rightarrow> 'db sql_link" where
  "init_sqlite_server db =
     \<lparr>link_db = db, link_requests = [], link_replies = [], link_running = True\<rparr>"

section \<open>The caller\<close>

text \<open>
  One line of the reply: \<open>readd\<close> counts the bytes read, the last one, at \<open>readd - 1\<close>, is
  overwritten by a terminator.
\<close>

fun read_line :: "(nat \<Rightarrow> nat) \<Rightarrow> nat \<Rightarrow> string \<Rightarrow> string \<Rightarrow> (string \<times> string) result" where
  "read_line U readd response [] = Inl Blocked"
| "read_line U readd response (c # pipe) =
     bindE (sprintf_into U MAX_QUERY_RESPONSE_LENGTH
       (if c = ZERO then response else response @ [c])) (\<lambda>response'.
     if c \<noteq> NEWLINE then read_line U (readd + 1) response' pipe
     else if readd < U MAX_QUERY_RESPONSE_LENGTH then Inr (take readd response', pipe)
     else Inl Out_of_bounds)"

lemma read_line_shorter: "read_line U n b p = Inr (s, p') \<Longrightarrow> length p' < length p"
  by (induction U n b p rule: read_line.induct) (auto simp: bindE_Inr_iff split: if_splits)

text \<open>The lines up to \<open>END\<close> go to a block of \<open>MAX_COLUMNS\<close> pointers; the first is returned.\<close>

definition POINTER_SIZE :: nat where "POINTER_SIZE = 8"

function read_reply ::
  "(nat \<Rightarrow> nat) \<Rightarrow> string list \<Rightarrow> string \<Rightarrow> (string list \<times> string) result" where
  "read_reply U asn_vector pipe =
     bindE (read_line U 0 [] pipe) (\<lambda>(line, pipe').
     if POINTER_SIZE * (length asn_vector + 1) \<le> U (MAX_COLUMNS * POINTER_SIZE) then
       (if line \<noteq> END_STR then read_reply U (asn_vector @ [line]) pipe'
        else Inr (asn_vector @ [line], pipe'))
     else Inl Out_of_bounds)"
  by pat_completeness auto
termination
  by (relation "measure (\<lambda>(U, a, p). length p)") (auto dest: read_line_shorter)

declare read_reply.simps [simp del]

definition write_request ::
  "(nat \<Rightarrow> nat) \<Rightarrow> 'db sql_engine \<Rightarrow> string \<Rightarrow> 'db sql_link \<Rightarrow> 'db sql_link result" where
  "write_request U exec bytes l =
     (if link_running l then sqlite_server U exec (l\<lparr>link_requests := link_requests l @ bytes\<rparr>)
      else Inl Aborted)"

text \<open>A null connection is an \<open>Inl\<close> of the \<open>errno\<close> set; the query text is \<open>None\<close> when null.\<close>

definition run_sqlite_query ::
  "(nat \<Rightarrow> nat) \<Rightarrow> 'db sql_engine \<Rightarrow> 'db sql_link option \<Rightarrow> string option \<Rightarrow>
   (int + string \<times> 'db sql_link) result" where
  "run_sqlite_query U exec conn query_text =
     (case conn of
        None \<Rightarrow> Inr (Inl ERR_SQL_CONNECTION_IS_NULL)
      | Some l \<Rightarrow>
          (case query_text of
             None \<Rightarrow> Inl Null_deref
           | Some query \<Rightarrow>
               bindE (write_one_by_one_in_fd (query @ [ZERO]) (length query) 0) (\<lambda>bytes.
               bindE (write_request U exec bytes l) (\<lambda>l'.
               bindE (read_reply U [] (link_replies l')) (\<lambda>(asn_vector, pipe).
               Inr (Inr (hd asn_vector, l'\<lparr>link_replies := pipe\<rparr>)))))))"

text \<open>The text of a query, null when the builder failed.\<close>

definition text_or_null :: "(int + string) result \<Rightarrow> string option result" where
  "text_or_null r = bindE r (\<lambda>t. case t of Inl _ \<Rightarrow> Inr None | Inr s \<Rightarrow> Inr (Some s))"

text \<open>\<open>strcmp\<close> of a null answer is a dereference of it.\<close>

definition answer_code ::
  "(int + string \<times> 'l) result \<Rightarrow> (int \<times> 'l) result" where
  "answer_code r = bindE r (\<lambda>a. case a of
       Inl _ \<Rightarrow> Inl Null_deref
     | Inr (s, l) \<Rightarrow> Inr (if s \<noteq> END_STR then ERR_RUN_SQL_ERROR else SQL_OK, l))"

definition run_insert_sqlite_query ::
  "(nat \<Rightarrow> nat) \<Rightarrow> 'db sql_engine \<Rightarrow> 'db sql_link option \<Rightarrow> sqlite_insert_query_t option \<Rightarrow>
   (int \<times> 'db sql_link) result" where
  "run_insert_sqlite_query U exec conn query =
     bindE (text_or_null (insert_query_to_str U query)) (\<lambda>t.
     answer_code (run_sqlite_query U exec conn t))"

definition run_select_sqlite_query ::
  "(nat \<Rightarrow> nat) \<Rightarrow> 'db sql_engine \<Rightarrow> 'db sql_link option \<Rightarrow> sqlite_select_query_t option \<Rightarrow>
   (int + string \<times> 'db sql_link) result" where
  "run_select_sqlite_query U exec conn query =
     bindE (text_or_null (bindQ (select_query_to_str U query) (\<lambda>(s, _). Inr (Inr s)))) (\<lambda>t.
     run_sqlite_query U exec conn t)"

definition run_delete_sqlite_query ::
  "(nat \<Rightarrow> nat) \<Rightarrow> 'db sql_engine \<Rightarrow> 'db sql_link option \<Rightarrow> sqlite_delete_query_t option \<Rightarrow>
   (int \<times> 'db sql_link) result" where
  "run_delete_sqlite_query U exec conn query =
     bindE (text_or_null (delete_query_to_str U query)) (\<lambda>t.
     answer_code (run_sqlite_query U exec conn t))"

definition run_update_sqlite_query ::
  "(nat \<Rightarrow> nat) \<Rightarrow> 'db sql_engine \<Rightarrow> 'db sql_link option \<Rightarrow> sqlite_update_query_t option \<Rightarrow>
   (int \<times> 'db sql_link) result" where
  "run_update_sqlite_query U exec conn query =
     bindE (text_or_null (update_query_to_str U query)) (\<lambda>t.
     answer_code (run_sqlite_query U exec conn t))"

definition close_sql_conn ::
  "(nat \<Rightarrow> nat) \<Rightarrow> 'db sql_engine \<Rightarrow> 'db sql_link \<Rightarrow> 'db sql_link result" where
  "close_sql_conn U exec l = write_request U exec (SQL_CONNECTION_CLOSE_STR @ [ZERO]) l"


section \<open>What the child writes\<close>

lemma write_one_by_one_in_fd_take:
  "w < n \<Longrightarrow> n \<le> length b \<Longrightarrow> write_one_by_one_in_fd b n w = Inr (take (n - w) (drop w b))"
proof (induction "n - w" arbitrary: w)
  case 0
  then show ?case by simp
next
  case (Suc k)
  have "take (n - w) (drop w b) = b ! w # take (n - Suc w) (drop (Suc w) b)"
    using Suc.prems by (metis Cons_nth_drop_Suc Suc_diff_Suc less_le_trans take_Suc_Cons)
  moreover have "\<not> Suc w < n \<Longrightarrow> n - Suc w = 0" by simp
  ultimately show ?case
    using Suc by (subst write_one_by_one_in_fd.simps) (auto simp: peek_def)
qed

lemma write_string: "s \<noteq> [] \<Longrightarrow> write_one_by_one_in_fd (s @ [ZERO]) (length s) 0 = Inr s"
  by (simp add: write_one_by_one_in_fd_take)

definition add_cell :: "string \<Rightarrow> string option \<Rightarrow> string" where
  "add_cell s v = (if s = [] then cell_text v else s @ '' '' @ cell_text v)"

text \<open>The text of a row: its cells separated by blanks, empty cells in front dropped.\<close>

definition row_line :: "row \<Rightarrow> string" where
  "row_line r = foldl add_cell [] r"

lemma length_foldl_add_cell: "length s \<le> length (foldl add_cell s r)"
proof (induction r arbitrary: s)
  case (Cons v r)
  have "length s \<le> length (add_cell s v)" by (simp add: add_cell_def)
  with Cons [of "add_cell s v"] show ?case by simp
qed simp

lemma callback_loop_line:
  "allocator U \<Longrightarrow> length (foldl add_cell s r) < MAX_QUERY_RESPONSE_LENGTH \<Longrightarrow>
    callback_loop U r s = Inr (foldl add_cell s r)"
proof (induction r arbitrary: s)
  case (Cons v r)
  have "length (add_cell s v) < MAX_QUERY_RESPONSE_LENGTH"
    using Cons.prems(2) length_foldl_add_cell [of "add_cell s v" r] by simp
  with Cons show ?case by (simp add: add_cell_def sprintf_into_fits)
qed simp

text \<open>The rows the connection can carry: a line each, of a length that fits the blocks.\<close>

definition row_ok :: "row \<Rightarrow> bool" where
  "row_ok r \<longleftrightarrow> length (row_line r) + 1 < MAX_QUERY_RESPONSE_LENGTH \<and> nul_free (row_line r) \<and>
     NEWLINE \<notin> set (row_line r) \<and> row_line r \<noteq> END_STR"

lemma callback_row: "allocator U \<Longrightarrow> row_ok r \<Longrightarrow> callback U r = Inr (row_line r @ [NEWLINE])"
  using callback_loop_line [of U "[]" r] write_string [of "row_line r @ [NEWLINE]"]
  by (simp add: callback_def row_ok_def row_line_def sprintf_into_fits)

lemma run_callbacks_rows:
  "allocator U \<Longrightarrow> list_all row_ok rs \<Longrightarrow>
    run_callbacks U rs = Inr (concat (map (\<lambda>r. row_line r @ [NEWLINE]) rs))"
  by (induction rs) (simp_all add: callback_row)

definition reply_text :: "row list \<Rightarrow> string" where
  "reply_text rs = concat (map (\<lambda>r. row_line r @ [NEWLINE]) rs) @ END_STR @ [NEWLINE]"

lemma answer_query_reply:
  "allocator U \<Longrightarrow> list_all row_ok (snd (exec db q)) \<Longrightarrow>
    answer_query U exec db q = Inr (fst (exec db q), reply_text (snd (exec db q)))"
  using write_string [of "END_STR @ [NEWLINE]"]
  by (simp add: answer_query_def run_callbacks_rows reply_text_def sprintf_into_fits split_beta)

section \<open>What the child reads\<close>

lemma read_query_waits:
  "CHR '';'' \<notin> set s \<Longrightarrow> q + length s \<le> 100 \<Longrightarrow> read_query q b s = None"
  by (induction q b s rule: read_query.induct) (auto simp: Let_def)

lemma read_query_end:
  "CHR '';'' \<notin> set s \<Longrightarrow> nul_free s \<Longrightarrow> q + length s \<le> 100 \<Longrightarrow>
    read_query q b (s @ CHR '';'' # rest) = Some (b @ s @ '';'', rest)"
  by (induction s arbitrary: q b) (auto simp: Let_def)

text \<open>A longer text is cut after the byte that finds the counter at 100.\<close>

lemma read_query_cut:
  "CHR '';'' \<notin> set s \<Longrightarrow> nul_free s \<Longrightarrow> q + length s = 101 \<Longrightarrow> s \<noteq> [] \<Longrightarrow>
    read_query q b (s @ rest) = Some (b @ s, rest)"
proof (induction s arbitrary: q b)
  case (Cons c s)
  then have "s \<noteq> [] \<Longrightarrow> q < 100" by (cases s) simp_all
  with Cons show ?case by (cases "s = []") (auto simp: Let_def)
qed simp

section \<open>What the caller reads\<close>

lemma read_line_newline:
  assumes "allocator U" "nul_free s" "NEWLINE \<notin> set s"
    "length b + length s + 1 < MAX_QUERY_RESPONSE_LENGTH" "n = length b"
  shows "read_line U n b (s @ NEWLINE # rest) = Inr (b @ s, rest)"
  using assms(2-5)
proof (induction s arbitrary: n b)
  case Nil
  then show ?case
    using allocator_less [OF assms(1), of "length b" MAX_QUERY_RESPONSE_LENGTH]
    by (simp add: sprintf_into_fits [OF assms(1)])
next
  case (Cons c s)
  then show ?case
    using Cons.IH [of "b @ [c]" "Suc n"] by (auto simp: sprintf_into_fits [OF assms(1)])
qed

lemma read_reply_lines:
  assumes "allocator U" "list_all row_ok rs" "length v + length rs < MAX_COLUMNS"
  shows "read_reply U v (reply_text rs @ rest) = Inr (v @ map row_line rs @ [END_STR], rest)"
  using assms(2,3)
proof (induction rs arbitrary: v)
  case Nil
  have "read_line U 0 [] (END_STR @ NEWLINE # rest) = Inr (END_STR, rest)"
    using read_line_newline [OF assms(1), of END_STR "[]"]
    by (simp add: END_STR_def MAX_QUERY_RESPONSE_LENGTH_def)
  moreover have "POINTER_SIZE * (length v + 1) \<le> U (MAX_COLUMNS * POINTER_SIZE)"
    using Nil.prems allocatorD [OF assms(1), of "MAX_COLUMNS * POINTER_SIZE"]
    by (simp add: POINTER_SIZE_def)
  ultimately show ?case by (subst read_reply.simps) (simp add: reply_text_def)
next
  case (Cons r rs)
  have "read_line U 0 [] (row_line r @ NEWLINE # reply_text rs @ rest) = Inr (row_line r, reply_text rs @ rest)"
    using read_line_newline [OF assms(1), of "row_line r" "[]"] Cons.prems(1)
    by (simp add: row_ok_def)
  moreover have "POINTER_SIZE * (length v + 1) \<le> U (MAX_COLUMNS * POINTER_SIZE)"
    using Cons.prems allocatorD [OF assms(1), of "MAX_COLUMNS * POINTER_SIZE"]
    by (simp add: POINTER_SIZE_def)
  ultimately show ?case
    using Cons by (subst read_reply.simps) (simp add: reply_text_def row_ok_def)
qed

section \<open>One query\<close>

definition link_idle :: "'db sql_link \<Rightarrow> bool" where
  "link_idle l \<longleftrightarrow> link_running l \<and> link_requests l = [] \<and> link_replies l = []"

text \<open>A query the child reads whole: one semicolon, its last character, within 101.\<close>

definition query_ok :: "string \<Rightarrow> bool" where
  "query_ok q \<longleftrightarrow> (\<exists>s. q = s @ '';'' \<and> CHR '';'' \<notin> set s \<and> nul_free s \<and> length s \<le> 100) \<and>
     q \<noteq> SQL_CONNECTION_CLOSE_STR"

definition first_line :: "row list \<Rightarrow> string" where
  "first_line rs = (case rs of [] \<Rightarrow> END_STR | r # _ \<Rightarrow> row_line r)"

definition rows_ok :: "row list \<Rightarrow> bool" where
  "rows_ok rs \<longleftrightarrow> list_all row_ok rs \<and> length rs < MAX_COLUMNS"

lemma sqlite_server_waits: "read_query 0 [] (link_requests l) = None \<Longrightarrow> sqlite_server U exec l = Inr l"
  by (subst sqlite_server.simps) simp

lemma sqlite_server_query:
  assumes "allocator U" "link_running l" "read_query 0 [] (link_requests l) = Some (q, rest)"
    "q \<noteq> SQL_CONNECTION_CLOSE_STR" "list_all row_ok (snd (exec (link_db l) q))"
  shows "sqlite_server U exec l = sqlite_server U exec (l\<lparr>link_db := fst (exec (link_db l) q),
    link_requests := rest, link_replies := link_replies l @ reply_text (snd (exec (link_db l) q))\<rparr>)"
  using assms by (subst sqlite_server.simps) (simp add: answer_query_reply)

lemma run_sqlite_query_ok:
  assumes "allocator U" "link_idle l" "query_ok q" "rows_ok (snd (exec (link_db l) q))"
  shows "run_sqlite_query U exec (Some l) (Some q) =
    Inr (Inr (first_line (snd (exec (link_db l) q)), l\<lparr>link_db := fst (exec (link_db l) q)\<rparr>))"
proof -
  obtain s where s: "q = s @ '';''" "CHR '';'' \<notin> set s" "nul_free s" "length s \<le> 100"
    "q \<noteq> SQL_CONNECTION_CLOSE_STR"
    using assms(3) by (auto simp: query_ok_def)
  let ?rs = "snd (exec (link_db l) q)"
  have r: "read_query 0 [] q = Some (q, [])" using s by (simp add: read_query_end)
  have "sqlite_server U exec (l\<lparr>link_requests := q\<rparr>)
      = Inr (l\<lparr>link_db := fst (exec (link_db l) q), link_replies := reply_text ?rs\<rparr>)"
    using assms r s(5) sqlite_server_query [of U "l\<lparr>link_requests := q\<rparr>" q "[]" exec]
    by (simp add: link_idle_def rows_ok_def sqlite_server_waits)
  moreover have "read_reply U [] (reply_text ?rs) = Inr (map row_line ?rs @ [END_STR], [])"
    using read_reply_lines [OF assms(1), of ?rs "[]" "[]"] assms(4) by (simp add: rows_ok_def)
  moreover have "write_one_by_one_in_fd (q @ [ZERO]) (length q) 0 = Inr q"
    using s(1) by (intro write_string) simp
  moreover have "hd (map row_line ?rs @ [END_STR]) = first_line ?rs"
    by (cases ?rs) (simp_all add: first_line_def)
  ultimately show ?thesis
    using assms(2) by (simp add: run_sqlite_query_def write_request_def link_idle_def)
qed


section \<open>Sequences of queries\<close>

text \<open>
  What the helpers of the server rely on: a service that runs one query at a time, answers with
  the first row and is ready for the next one.
\<close>

fun run_all ::
  "('l \<Rightarrow> string \<Rightarrow> (int + string \<times> 'l) result) \<Rightarrow> 'l \<Rightarrow> string list \<Rightarrow> (int + string list \<times> 'l) result"
where
  "run_all run l [] = Inr (Inr ([], l))"
| "run_all run l (q # qs) =
     bindQ (run l q) (\<lambda>(a, l'). bindQ (run_all run l' qs) (\<lambda>(as, l''). Inr (Inr (a # as, l''))))"

fun exec_all :: "'db sql_engine \<Rightarrow> 'db \<Rightarrow> string list \<Rightarrow> string list \<times> 'db" where
  "exec_all exec db [] = ([], db)"
| "exec_all exec db (q # qs) =
     (let (db', rows) = exec db q; (as, db'') = exec_all exec db' qs in (first_line rows # as, db''))"

fun exec_rows_ok :: "'db sql_engine \<Rightarrow> 'db \<Rightarrow> string list \<Rightarrow> bool" where
  "exec_rows_ok exec db [] = True"
| "exec_rows_ok exec db (q # qs) =
     (query_ok q \<and> rows_ok (snd (exec db q)) \<and> exec_rows_ok exec (fst (exec db q)) qs)"

locale sql_service =
  fixes run :: "'l \<Rightarrow> string \<Rightarrow> (int + string \<times> 'l) result"
    and database :: "'l \<Rightarrow> 'db"
    and exec :: "'db sql_engine"
    and idle :: "'l \<Rightarrow> bool"
  assumes run_ok: "idle l \<Longrightarrow> query_ok q \<Longrightarrow> rows_ok (snd (exec (database l) q)) \<Longrightarrow>
    \<exists>l'. run l q = Inr (Inr (first_line (snd (exec (database l) q)), l')) \<and> idle l' \<and>
      database l' = fst (exec (database l) q)"
begin

lemma run_all_ok:
  "idle l \<Longrightarrow> exec_rows_ok exec (database l) qs \<Longrightarrow>
    \<exists>l'. run_all run l qs = Inr (Inr (fst (exec_all exec (database l) qs), l')) \<and> idle l' \<and>
      database l' = snd (exec_all exec (database l) qs)"
proof (induction qs arbitrary: l)
  case Nil
  then show ?case by simp
next
  case (Cons q qs)
  then obtain l1 where l1: "run l q = Inr (Inr (first_line (snd (exec (database l) q)), l1))"
    "idle l1" "database l1 = fst (exec (database l) q)"
    using run_ok [of l q] by auto
  from Cons.IH [OF l1(2)] Cons.prems l1 show ?case
    by (auto simp: split_beta Let_def)
qed

end

interpretation link: sql_service "\<lambda>l q. run_sqlite_query U exec (Some l) (Some q)" link_db exec
  "\<lambda>l. allocator U \<and> link_idle l" for U exec
proof (unfold_locales, goal_cases)
  case (1 l q)
  then show ?case
    using run_sqlite_query_ok [of U l q exec] by (auto simp: link_idle_def)
qed

text \<open>
  C17: over an idle link, a sequence of queries that the child can read whole, and whose rows fit,
  is executed in order, once each; every call of \<open>run_sqlite_query\<close> returns the first row of its
  own query, or \<open>END\<close>, and leaves the link idle.
\<close>

theorem queries_in_order:
  assumes "allocator U" "link_idle l" "exec_rows_ok exec (link_db l) qs"
  shows "\<exists>l'. run_all (\<lambda>l q. run_sqlite_query U exec (Some l) (Some q)) l qs
      = Inr (Inr (fst (exec_all exec (link_db l) qs), l')) \<and>
    link_idle l' \<and> link_db l' = snd (exec_all exec (link_db l) qs)"
  using link.run_all_ok [of U l exec qs] assms by blast

text \<open>A small engine for the witnesses: it keeps the texts it ran and answers with the last two.\<close>

definition echo_engine :: "string list sql_engine" where
  "echo_engine db q = (q # db, map (\<lambda>s. [Some (butlast s)]) (take 2 db))"

theorem queries_in_order_witness:
  "let l = init_sqlite_server []; qs = [''insert a;'', ''select b;'', ''select c;'']
   in \<exists>l'. run_all (\<lambda>l q. run_sqlite_query exact_size echo_engine (Some l) (Some q)) l qs
      = Inr (Inr (fst (exec_all echo_engine (link_db l) qs), l')) \<and>
    link_idle l' \<and> link_db l' = snd (exec_all echo_engine (link_db l) qs)"
  unfolding Let_def
  by (rule queries_in_order)
     (auto simp: link_idle_def init_sqlite_server_def echo_engine_def query_ok_def rows_ok_def row_ok_def
       row_line_def add_cell_def cell_text_def SQL_CONNECTION_CLOSE_STR_def END_STR_def sql_sizes
       MAX_QUERY_RESPONSE_LENGTH_def)

lemma run_long_query:
  assumes "allocator U" "link_idle l" "q = p1 @ p2 @ '';''" "length p1 = 101"
    "CHR '';'' \<notin> set (p1 @ p2)" "nul_free (p1 @ p2)" "length p2 \<le> 100" "p2 @ '';'' \<noteq> SQL_CONNECTION_CLOSE_STR"
    "exec (link_db l) p1 = (db1, rows1)" "rows_ok rows1"
    "exec db1 (p2 @ '';'') = (db2, rows2)" "list_all row_ok rows2"
  shows "run_sqlite_query U exec (Some l) (Some q) =
    Inr (Inr (first_line rows1, l\<lparr>link_db := db2, link_replies := reply_text rows2\<rparr>))"
proof -
  have p1: "p1 \<noteq> SQL_CONNECTION_CLOSE_STR"
    using assms(5) by (auto simp: SQL_CONNECTION_CLOSE_STR_def)
  have r1: "read_query 0 [] q = Some (p1, p2 @ '';'')"
    using assms(3-6) read_query_cut [of p1 0 "[]" "p2 @ '';''"] by force
  have r2: "read_query 0 [] (p2 @ '';'') = Some (p2 @ '';'', [])"
    using assms(5-7) by (simp add: read_query_end)
  have "sqlite_server U exec (l\<lparr>link_requests := q\<rparr>)
      = Inr (l\<lparr>link_db := db2, link_replies := reply_text rows1 @ reply_text rows2\<rparr>)"
    using assms p1 r1 r2 sqlite_server_query [of U "l\<lparr>link_requests := q\<rparr>" p1 "p2 @ '';''" exec]
      sqlite_server_query [of U "l\<lparr>link_db := db1, link_requests := p2 @ '';'',
        link_replies := reply_text rows1\<rparr>" "p2 @ '';''" "[]" exec]
    by (simp add: link_idle_def rows_ok_def sqlite_server_waits)
  moreover have "read_reply U [] (reply_text rows1 @ reply_text rows2)
      = Inr (map row_line rows1 @ [END_STR], reply_text rows2)"
    using read_reply_lines [OF assms(1), of rows1 "[]" "reply_text rows2"] assms(10)
    by (simp add: rows_ok_def)
  moreover have "write_one_by_one_in_fd (q @ [ZERO]) (length q) 0 = Inr q"
    using assms(3) by (intro write_string) simp
  moreover have "hd (map row_line rows1 @ [END_STR]) = first_line rows1"
    by (cases rows1) (simp_all add: first_line_def)
  ultimately show ?thesis
    using assms(2) by (simp add: run_sqlite_query_def write_request_def link_idle_def)
qed

text \<open>
  C39: a query with more than 101 characters is executed in pieces: the child cuts the text after
  101 bytes and answers each piece, while \<open>run_sqlite_query\<close> reads one answer. The answer to the
  second piece stays in the pipe, where the next call will take it for its own.
\<close>

theorem long_query_desynchronises:
  assumes "allocator U" "link_idle l" "q = p1 @ p2 @ '';''" "length p1 = 101"
    "CHR '';'' \<notin> set (p1 @ p2)" "nul_free (p1 @ p2)" "length p2 \<le> 100" "p2 @ '';'' \<noteq> SQL_CONNECTION_CLOSE_STR"
    "exec (link_db l) p1 = (db1, rows1)" "rows_ok rows1"
    "exec db1 (p2 @ '';'') = (db2, rows2)" "list_all row_ok rows2"
  shows "run_sqlite_query U exec (Some l) (Some q) =
    Inr (Inr (first_line rows1, l\<lparr>link_db := db2, link_replies := reply_text rows2\<rparr>))"
  using assms by (rule run_long_query)

theorem long_query_desynchronises_witness:
  "let l = init_sqlite_server []; p1 = replicate 101 CHR ''a''
   in run_sqlite_query exact_size echo_engine (Some l) (Some (p1 @ ''b'' @ '';'')) =
    Inr (Inr (''END'', l\<lparr>link_db := [''b;'', p1], link_replies := reply_text [[Some (butlast p1)]]\<rparr>))"
proof -
  let ?p = "replicate 101 CHR ''a''"
  have line: "row_line [Some (butlast ?p)] = butlast ?p"
    by (simp add: row_line_def add_cell_def cell_text_def butlast_conv_take)
  have "row_ok [Some (butlast ?p)]"
    unfolding row_ok_def line
    by (auto simp: butlast_conv_take MAX_QUERY_RESPONSE_LENGTH_def nul_free_def END_STR_def
        dest: in_set_takeD arg_cong [where f = length])
  then show ?thesis
    unfolding Let_def
    using long_query_desynchronises [of exact_size "init_sqlite_server []" "?p @ ''b'' @ '';''" ?p "''b''"
        echo_engine "[?p]" "[]" "[''b;'', ?p]" "[[Some (butlast ?p)]]"]
    by (simp add: link_idle_def init_sqlite_server_def echo_engine_def rows_ok_def first_line_def END_STR_def
        SQL_CONNECTION_CLOSE_STR_def sql_sizes nul_free_def)
qed


lemma read_reply_overflow:
  assumes "list_all row_ok rs" "length v \<le> MAX_COLUMNS" "MAX_COLUMNS \<le> length v + length rs"
  shows "read_reply exact_size v (reply_text rs @ rest) = Inl Out_of_bounds"
  using assms
proof (induction rs arbitrary: v)
  case Nil
  then have full: "length v = MAX_COLUMNS" by simp
  have "read_line exact_size 0 [] (END_STR @ NEWLINE # rest) = Inr (END_STR, rest)"
    using read_line_newline [of exact_size END_STR "[]"]
    by (simp add: END_STR_def MAX_QUERY_RESPONSE_LENGTH_def)
  with full show ?case
    by (subst read_reply.simps) (simp add: reply_text_def exact_size_def POINTER_SIZE_def)
next
  case (Cons r rs)
  have l: "read_line exact_size 0 [] (row_line r @ NEWLINE # reply_text rs @ rest)
      = Inr (row_line r, reply_text rs @ rest)"
    using read_line_newline [of exact_size "row_line r" "[]"] Cons.prems(1)
    by (simp add: row_ok_def)
  show ?case
  proof (cases "length v = MAX_COLUMNS")
    case True
    with l show ?thesis
      by (subst read_reply.simps) (simp add: reply_text_def exact_size_def POINTER_SIZE_def)
  next
    case False
    have "read_reply exact_size (v @ [row_line r]) (reply_text rs @ rest) = Inl Out_of_bounds"
      using Cons.prems False by (intro Cons.IH) simp_all
    with l False Cons.prems show ?thesis
      by (subst read_reply.simps) (simp add: reply_text_def exact_size_def row_ok_def POINTER_SIZE_def)
  qed
qed

text \<open>
  \<open>run_sqlite_query\<close> keeps the lines of a reply in a block of ten pointers: a query that
  selects ten rows or more, so that \<open>END\<close> is at least the eleventh line, writes behind the block.
\<close>

theorem reply_lines_overflow:
  assumes "link_idle l" "query_ok q" "list_all row_ok (snd (exec (link_db l) q))"
    "MAX_COLUMNS \<le> length (snd (exec (link_db l) q))"
  shows "run_sqlite_query exact_size exec (Some l) (Some q) = Inl Out_of_bounds"
proof -
  obtain s where s: "q = s @ '';''" "CHR '';'' \<notin> set s" "nul_free s" "length s \<le> 100"
    "q \<noteq> SQL_CONNECTION_CLOSE_STR"
    using assms(2) by (auto simp: query_ok_def)
  let ?rs = "snd (exec (link_db l) q)"
  have r: "read_query 0 [] q = Some (q, [])" using s by (simp add: read_query_end)
  have "sqlite_server exact_size exec (l\<lparr>link_requests := q\<rparr>)
      = Inr (l\<lparr>link_db := fst (exec (link_db l) q), link_replies := reply_text ?rs\<rparr>)"
    using assms r s(5) sqlite_server_query [of exact_size "l\<lparr>link_requests := q\<rparr>" q "[]" exec]
    by (simp add: link_idle_def sqlite_server_waits)
  moreover have "read_reply exact_size [] (reply_text ?rs) = Inl Out_of_bounds"
    using read_reply_overflow [of ?rs "[]" "[]"] assms(3,4) by simp
  moreover have "write_one_by_one_in_fd (q @ [ZERO]) (length q) 0 = Inr q"
    using s(1) by (intro write_string) simp
  ultimately show ?thesis
    using assms(1) by (simp add: run_sqlite_query_def write_request_def link_idle_def)
qed

theorem reply_lines_overflow_witness:
  "run_sqlite_query exact_size (\<lambda>n q. (n, replicate n [Some ''7''])) (Some (init_sqlite_server 10))
    (Some ''select a;'') = Inl Out_of_bounds"
  by (rule reply_lines_overflow)
     (auto simp: link_idle_def init_sqlite_server_def query_ok_def row_ok_def
       row_line_def add_cell_def cell_text_def SQL_CONNECTION_CLOSE_STR_def END_STR_def MAX_COLUMNS_def
       MAX_QUERY_RESPONSE_LENGTH_def list_all_iff)

text \<open>Statements that return no rows, failed ones among them, count as successful.\<close>

lemma insert_without_rows:
  assumes "allocator U" "link_idle l" "insert_query_to_str U (Some q) = Inr (Inr s)" "query_ok s"
    "exec (link_db l) s = (db', [])"
  shows "run_insert_sqlite_query U exec (Some l) (Some q) = Inr (SQL_OK, l\<lparr>link_db := db'\<rparr>)"
  using run_sqlite_query_ok [OF assms(1,2,4), of exec] assms(3,5)
  by (simp add: run_insert_sqlite_query_def text_or_null_def answer_code_def rows_ok_def first_line_def
      MAX_COLUMNS_def)

lemma update_without_rows:
  assumes "allocator U" "link_idle l" "update_query_to_str U (Some q) = Inr (Inr s)" "query_ok s"
    "exec (link_db l) s = (db', [])"
  shows "run_update_sqlite_query U exec (Some l) (Some q) = Inr (SQL_OK, l\<lparr>link_db := db'\<rparr>)"
  using run_sqlite_query_ok [OF assms(1,2,4), of exec] assms(3,5)
  by (simp add: run_update_sqlite_query_def text_or_null_def answer_code_def rows_ok_def first_line_def
      MAX_COLUMNS_def)

text \<open>
  Closing an idle link makes the child exit without touching the database; any query after it
  is killed by \<open>SIGPIPE\<close> rather than answered.
\<close>

theorem close_stops_child:
  assumes "link_idle l"
  shows "\<exists>l'. close_sql_conn U exec l = Inr l' \<and> \<not> link_running l' \<and> link_db l' = link_db l \<and>
    run_sqlite_query U exec (Some l') (Some q) = Inl Aborted"
proof -
  have "read_query 0 [] (SQL_CONNECTION_CLOSE_STR @ [ZERO]) = Some (SQL_CONNECTION_CLOSE_STR, [ZERO])"
    by (simp add: SQL_CONNECTION_CLOSE_STR_def Let_def)
  then have "close_sql_conn U exec l = Inr (l\<lparr>link_requests := [ZERO], link_running := False\<rparr>)"
    using assms by (simp add: close_sql_conn_def write_request_def link_idle_def)
      (subst sqlite_server.simps, simp)
  moreover have "write_one_by_one_in_fd (q @ [ZERO]) (length q) 0 = Inr (if q = [] then [ZERO] else q)"
    using write_string [of q] by (auto simp: write_one_by_one_in_fd.simps [of "[ZERO]"] peek_def)
  ultimately show ?thesis
    by (simp add: run_sqlite_query_def write_request_def)
qed

theorem close_stops_child_witness:
  "\<exists>l'. close_sql_conn exact_size echo_engine (init_sqlite_server [''a'']) = Inr l' \<and>
    \<not> link_running l' \<and> link_db l' = link_db (init_sqlite_server [''a'']) \<and>
    run_sqlite_query exact_size echo_engine (Some l') (Some ''select b;'') = Inl Aborted"
  by (rule close_stops_child) (simp add: link_idle_def init_sqlite_server_def)


section \<open>Opening\<close>

text \<open>
  \<open>open_sql_conn\<close>: whether the two pipes, the mutex and the process can be made, and the database the
  child opens, if it can. The call returns before the child has opened anything, so a database that
  does not open is not seen: the child exits. \<open>l\<close> is what the block held before, which stays when
  the call fails.
\<close>

record 'db sql_env =
  se_pipes :: bool
  se_mutex :: bool
  se_forks :: bool
  se_database :: "'db option"

definition open_sql_conn :: "'db sql_env \<Rightarrow> bool \<Rightarrow> 'db sql_link \<Rightarrow> int \<times> bool \<times> 'db sql_link" where
  "open_sql_conn V mutex_init l =
     (if \<not> se_pipes V then (-1, mutex_init, l)
      else if \<not> mutex_init \<and> \<not> se_mutex V then (-2, mutex_init, l)
      else if \<not> se_forks V then (-1, True, l)
      else
        (SQL_OK, True,
         case se_database V of
           Some db \<Rightarrow> init_sqlite_server db
         | None \<Rightarrow> l\<lparr>link_requests := [], link_replies := [], link_running := False\<rparr>))"

lemma open_sql_conn_ok:
  "se_pipes V \<Longrightarrow> se_mutex V \<Longrightarrow> se_forks V \<Longrightarrow> se_database V = Some db \<Longrightarrow>
    open_sql_conn V mi l = (SQL_OK, True, init_sqlite_server db) \<and> link_idle (init_sqlite_server db)"
  by (simp add: open_sql_conn_def link_idle_def init_sqlite_server_def)

text \<open>
  A database that does not open is reported as success; the first query of the server dies on the
  broken pipe.
\<close>

theorem missing_database_unnoticed:
  assumes "se_pipes V" "se_mutex V" "se_forks V" "se_database V = None"
  shows "\<exists>l'. open_sql_conn V mi l = (SQL_OK, True, l') \<and>
    run_sqlite_query U exec (Some l') (Some q) = Inl Aborted"
proof -
  have "write_one_by_one_in_fd (q @ [ZERO]) (length q) 0 = Inr (if q = [] then [ZERO] else q)"
    using write_string [of q] by (auto simp: write_one_by_one_in_fd.simps [of "[ZERO]"] peek_def)
  with assms show ?thesis
    by (simp add: open_sql_conn_def run_sqlite_query_def write_request_def)
qed

theorem missing_database_unnoticed_witness:
  "\<exists>l'. open_sql_conn \<lparr>se_pipes = True, se_mutex = True, se_forks = True, se_database = None\<rparr> False
      (init_sqlite_server [''a'']) = (SQL_OK, True, l') \<and>
    run_sqlite_query exact_size echo_engine (Some l') (Some ''select b;'') = Inl Aborted"
  by (rule missing_database_unnoticed) simp_all

end
