(* ===== verification/Sql_Helpers.thy ===== *)
theory Sql_Helpers
  imports Utils Sql_Conn
begin

text \<open>
  \<open>server/sql_helpers.c\<close>: the queries of the server. Each function builds one query with the
  builders of \<open>Sql_Query\<close>, runs it over the global \<open>sql_connection\<close> (here the argument \<open>conn\<close>)
  and reads the first line of the answer. The \<open>malloc\<close>ed copies of the values are checked against
  the sizes the source asks for. A function that returns null with \<open>errno\<close> set returns \<open>Inl\<close> of
  that code.
\<close>

definition EXPECTED_RESPONSE :: int where "EXPECTED_RESPONSE = 0"
definition EMPTY_RESPONSE :: int where "EMPTY_RESPONSE = 7000"

record fs_user_t =
  fs_name :: string
  fs_home :: string
  fs_is_admin :: boolean
  fs_id :: int

definition quoted :: "string \<Rightarrow> string" where
  "quoted s = [QUOTE] @ s @ [QUOTE]"

text \<open>\<open>path LIKE 'home%'\<close>\<close>

definition home_pattern :: "string \<Rightarrow> string" where
  "home_pattern home = [CHR 0x27] @ home @ [CHR ''%'', CHR 0x27]"

text \<open>\<open>strcmp\<close> of the answer with \<open>END\<close>; a null answer is dereferenced.\<close>

definition answer_text :: "(int + string \<times> 'l) result \<Rightarrow> (string \<times> 'l) result" where
  "answer_text r = bindE r (\<lambda>a. case a of Inl _ \<Rightarrow> Inl Null_deref | Inr x \<Rightarrow> Inr x)"

definition ask_for_file_to_db ::
  "(nat \<Rightarrow> nat) \<Rightarrow> 'db sql_engine \<Rightarrow> 'db sql_link option \<Rightarrow> string \<Rightarrow> fs_user_t \<Rightarrow>
   ((int + string) \<times> 'db sql_link) result" where
  "ask_for_file_to_db U exec conn file_alias user =
     bindE (create_select_query U) (\<lambda>q.
     bindE (ignore_code q (set_select_query_table U (Some q) ''files'')) (\<lambda>q.
     bindE (ignore_code q (set_select_query_atribute U (Some q) ''path'')) (\<lambda>q.
     bindE (sprintf_into U (1 + length file_alias + 2) (quoted file_alias)) (\<lambda>alias_str.
     bindE (sprintf_into U (1 + (length (fs_home user) + 3)) (home_pattern (fs_home user))) (\<lambda>path_str.
     bindE (ignore_code q (set_select_query_where U (Some q) ''alias'' ''='' alias_str)) (\<lambda>q.
     bindE (ignore_code q (set_select_query_where U (Some q) ''path'' ''LIKE'' path_str)) (\<lambda>q.
     bindE (answer_text (run_select_sqlite_query U exec conn (Some q))) (\<lambda>(ans, l).
     Inr (if ans = END_STR then Inl EMPTY_RESPONSE else Inr ans, l)))))))))"

definition insert_alias_in_db ::
  "(nat \<Rightarrow> nat) \<Rightarrow> 'db sql_engine \<Rightarrow> 'db sql_link option \<Rightarrow> string \<Rightarrow> fs_user_t \<Rightarrow>
   (int \<times> 'db sql_link) result" where
  "insert_alias_in_db U exec conn file_alias user =
     bindE (ignore_code create_insert_query
       (set_insert_query_table U (Some create_insert_query) ''files'')) (\<lambda>q.
     bindE (sprintf_into U (1 + length (fs_home user) + 1 + length file_alias + 2)
       (quoted (fs_home user @ ''/'' @ file_alias))) (\<lambda>path_str.
     bindE (sprintf_into U (length file_alias + 1) (quoted file_alias)) (\<lambda>alias_str.
     bindE (ignore_code q (set_insert_query_value U (Some q) ''path'' path_str)) (\<lambda>q.
     bindE (ignore_code q (set_insert_query_value U (Some q) ''owner'' ''2'')) (\<lambda>q.
     bindE (ignore_code q (set_insert_query_value U (Some q) ''alias'' alias_str)) (\<lambda>q.
     bindE (run_insert_sqlite_query U exec conn (Some q)) (\<lambda>(ans, l).
     Inr (if ans \<noteq> 0 then ans else EXPECTED_RESPONSE, l))))))))"

text \<open>\<open>response_array[i]\<close>\<close>

definition word_at :: "string list \<Rightarrow> nat \<Rightarrow> string result" where
  "word_at ws i = (if i < length ws then Inr (ws ! i) else Inl Out_of_bounds)"

definition user_identification_in_db ::
  "(nat \<Rightarrow> nat) \<Rightarrow> 'db sql_engine \<Rightarrow> 'db sql_link option \<Rightarrow> string \<Rightarrow> string \<Rightarrow> fs_user_t \<Rightarrow>
   (int \<times> fs_user_t \<times> 'db sql_link) result" where
  "user_identification_in_db U exec conn name password user =
     bindE (create_select_query U) (\<lambda>q.
     bindE (ignore_code q (set_select_query_table U (Some q) ''users'')) (\<lambda>q.
     bindE (ignore_code q (set_select_query_atribute U (Some q) ''home'')) (\<lambda>q.
     bindE (ignore_code q (set_select_query_atribute U (Some q) ''user_id'')) (\<lambda>q.
     bindE (ignore_code q (set_select_query_atribute U (Some q) ''is_admin'')) (\<lambda>q.
     bindE (sprintf_into U (2 + length name + 1) (quoted name)) (\<lambda>usern.
     bindE (sprintf_into U (2 + length password + 1) (quoted password)) (\<lambda>pass.
     bindE (ignore_code q (set_select_query_where U (Some q) ''username'' ''='' usern)) (\<lambda>q.
     bindE (ignore_code q (set_select_query_where U (Some q) ''password'' ''='' pass)) (\<lambda>q.
     bindE (answer_text (run_select_sqlite_query U exec conn (Some q))) (\<lambda>(response, l).
     if response = END_STR then Inr (EMPTY_RESPONSE, user, l)
     else (case split_arguments response of
             None \<Rightarrow> Inl Null_deref
           | Some response_array \<Rightarrow>
               bindE (word_at response_array 0) (\<lambda>home.
               bindE (word_at response_array 1) (\<lambda>uid.
               bindE (word_at response_array 2) (\<lambda>adm.
               Inr (EXPECTED_RESPONSE,
                    \<lparr>fs_name = name, fs_home = home, fs_is_admin = word_of_int (atoi adm),
                     fs_id = atoi uid\<rparr>, l)))))))))))))))"

definition user_in_db ::
  "(nat \<Rightarrow> nat) \<Rightarrow> 'db sql_engine \<Rightarrow> 'db sql_link option \<Rightarrow> string \<Rightarrow> (bool \<times> 'db sql_link) result" where
  "user_in_db U exec conn name =
     bindE (create_select_query U) (\<lambda>q.
     bindE (ignore_code q (set_select_query_table U (Some q) ''users'')) (\<lambda>q.
     bindE (ignore_code q (set_select_query_atribute U (Some q) ''home'')) (\<lambda>q.
     bindE (sprintf_into U (2 + length name + 1) (quoted name)) (\<lambda>user.
     bindE (ignore_code q (set_select_query_where U (Some q) ''username'' ''='' user)) (\<lambda>q.
     bindE (answer_text (run_select_sqlite_query U exec conn (Some q))) (\<lambda>(response, l).
     Inr (response \<noteq> END_STR, l)))))))"

text \<open>The user to create, as \<open>client/types.h\<close> has it: name, password and the administrator flag.\<close>

definition new_user_in_db ::
  "(nat \<Rightarrow> nat) \<Rightarrow> 'db sql_engine \<Rightarrow> 'db sql_link option \<Rightarrow> string \<Rightarrow> string \<Rightarrow> boolean \<Rightarrow>
   (int \<times> 'db sql_link) result" where
  "new_user_in_db U exec conn name password admin =
     bindE (ignore_code create_insert_query
       (set_insert_query_table U (Some create_insert_query) ''users'')) (\<lambda>q.
     bindE (sprintf_into U (1 + length name + 2) (quoted name)) (\<lambda>name_str.
     bindE (sprintf_into U (1 + length password + 2) (quoted password)) (\<lambda>pass_str.
     bindE (sprintf_into U (4 + length name + 2) (quoted (''/fs/'' @ name))) (\<lambda>home_str.
     bindE (sprintf_into U 2 (quoted (show_int (if admin > 0 then 1 else 0)))) (\<lambda>root_str.
     bindE (ignore_code q (set_insert_query_value U (Some q) ''username'' name_str)) (\<lambda>q.
     bindE (ignore_code q (set_insert_query_value U (Some q) ''password'' pass_str)) (\<lambda>q.
     bindE (ignore_code q (set_insert_query_value U (Some q) ''home'' home_str)) (\<lambda>q.
     bindE (ignore_code q (set_insert_query_value U (Some q) ''is_admin'' root_str)) (\<lambda>q.
     bindE (run_insert_sqlite_query U exec conn (Some q)) (\<lambda>(ans, l).
     Inr (if ans \<noteq> 0 then ans else EXPECTED_RESPONSE, l)))))))))))"

definition update_pass_in_db ::
  "(nat \<Rightarrow> nat) \<Rightarrow> 'db sql_engine \<Rightarrow> 'db sql_link option \<Rightarrow> fs_user_t \<Rightarrow> string \<Rightarrow>
   (int \<times> 'db sql_link) result" where
  "update_pass_in_db U exec conn user new_pass =
     bindE (create_update_query U) (\<lambda>q.
     bindE (ignore_code q (set_update_query_table U (Some q) ''users'')) (\<lambda>q.
     bindE (sprintf_into U (1 + length new_pass + 2) (quoted new_pass)) (\<lambda>pass_str.
     bindE (sprintf_into U 6 (show_int (fs_id user))) (\<lambda>id_str.
     bindE (ignore_code q (set_update_query_value U (Some q) ''password'' pass_str)) (\<lambda>q.
     bindE (ignore_code q (set_update_query_where U (Some q) ''user_id'' ''='' id_str)) (\<lambda>q.
     bindE (run_update_sqlite_query U exec conn (Some q)) (\<lambda>(_, l).
     Inr (EXPECTED_RESPONSE, l))))))))"


section \<open>The queries\<close>

definition file_query :: "string \<Rightarrow> string \<Rightarrow> string" where
  "file_query file_alias home = select_spec ''files'' [''path'']
     [(''alias'', ''='', quoted file_alias), (''path'', ''LIKE'', home_pattern home)]"

definition alias_query :: "string \<Rightarrow> string \<Rightarrow> string" where
  "alias_query file_alias home = insert_spec ''files''
     [(''path'', quoted (home @ ''/'' @ file_alias)), (''owner'', ''2''), (''alias'', quoted file_alias)]"

definition login_query :: "string \<Rightarrow> string \<Rightarrow> string" where
  "login_query name password = select_spec ''users'' [''home'', ''user_id'', ''is_admin'']
     [(''username'', ''='', quoted name), (''password'', ''='', quoted password)]"

definition user_query :: "string \<Rightarrow> string" where
  "user_query name = select_spec ''users'' [''home''] [(''username'', ''='', quoted name)]"

definition new_user_query :: "string \<Rightarrow> string \<Rightarrow> boolean \<Rightarrow> string" where
  "new_user_query name password admin = insert_spec ''users''
     [(''username'', quoted name), (''password'', quoted password), (''home'', quoted (''/fs/'' @ name)),
      (''is_admin'', quoted (show_int (if admin > 0 then 1 else 0)))]"

definition pass_query :: "int \<Rightarrow> string \<Rightarrow> string" where
  "pass_query uid new_pass = update_spec ''users'' [(''password'', quoted new_pass)]
     [(''user_id'', ''='', show_int uid)]"

lemmas query_texts = file_query_def alias_query_def login_query_def user_query_def new_user_query_def
  pass_query_def

lemma query_ok_length: "query_ok q \<Longrightarrow> length q \<le> 101"
  by (auto simp: query_ok_def)

lemma select_query_short:
  assumes "allocator U" "s = select_spec t cs ws" "query_ok s" "length t < 16" "length cs < 10"
  obtains q q' where "select_query U t cs ws = Inr q"
    "select_query_to_str U (Some q) = Inr (Inr (s, q'))"
proof -
  have "length (select_spec t cs ws) \<le> 101" using assms(2,3) by (simp add: query_ok_length)
  moreover then have "length (where_text ws) \<le> 101" by (simp add: select_spec_def)
  ultimately show thesis
    using select_query_built [OF assms(1), of t cs ws] assms that by (auto simp: sql_sizes)
qed

lemma quoted_length [simp]: "length (quoted s) = length s + 2"
  by (simp add: quoted_def)

lemma home_pattern_length [simp]: "length (home_pattern s) = length s + 3"
  by (simp add: home_pattern_def)

lemma bindE_Inr [simp]: "bindE m Inr = m"
  by (cases m) simp_all

lemma run_select_ok:
  assumes "allocator U" "link_idle l" "select_query_to_str U (Some q) = Inr (Inr (s, q'))" "query_ok s"
    "rows_ok (snd (exec (link_db l) s))"
  shows "run_select_sqlite_query U exec (Some l) (Some q) =
    Inr (Inr (first_line (snd (exec (link_db l) s)), l\<lparr>link_db := fst (exec (link_db l) s)\<rparr>))"
  using run_sqlite_query_ok [OF assms(1,2,4), of exec] assms(3,5)
  by (simp add: run_select_sqlite_query_def text_or_null_def)

lemma row_line_not_END: "rows_ok (r # rs) \<Longrightarrow> row_line r \<noteq> END_STR"
  by (simp add: rows_ok_def row_ok_def)

text \<open>The answer of a selection: the first row, if there is one.\<close>

definition first_row :: "row list \<Rightarrow> string option" where
  "first_row rs = (case rs of [] \<Rightarrow> None | r # _ \<Rightarrow> Some (row_line r))"

lemma first_line_row:
  "rows_ok rs \<Longrightarrow> first_line rs = END_STR \<longleftrightarrow> first_row rs = None"
  "first_row rs = Some s \<Longrightarrow> first_line rs = s"
  by (auto simp: first_line_def first_row_def row_line_not_END split: list.splits)

subsection \<open>What the helpers do on an idle link\<close>

lemma ask_for_file_steps:
  assumes "allocator U"
  shows "ask_for_file_to_db U exec conn file_alias user =
    bindE (select_query U ''files'' [''path''] [(''alias'', ''='', quoted file_alias),
      (''path'', ''LIKE'', home_pattern (fs_home user))]) (\<lambda>q.
    bindE (answer_text (run_select_sqlite_query U exec conn (Some q))) (\<lambda>(ans, l).
    Inr (if ans = END_STR then Inl EMPTY_RESPONSE else Inr ans, l)))"
  using assms
  by (simp add: ask_for_file_to_db_def select_query_def bindE_assoc sprintf_into_fits)

lemma ask_for_file_ok:
  assumes "allocator U" "link_idle l" "s = file_query file_alias (fs_home user)" "query_ok s"
    "rows_ok (snd (exec (link_db l) s))"
  shows "ask_for_file_to_db U exec (Some l) file_alias user =
    Inr (case first_row (snd (exec (link_db l) s)) of None \<Rightarrow> Inl EMPTY_RESPONSE | Some a \<Rightarrow> Inr a,
         l\<lparr>link_db := fst (exec (link_db l) s)\<rparr>)"
proof -
  obtain q q' where q: "select_query U ''files'' [''path''] [(''alias'', ''='', quoted file_alias),
      (''path'', ''LIKE'', home_pattern (fs_home user))] = Inr q"
    "select_query_to_str U (Some q) = Inr (Inr (s, q'))"
    by (rule select_query_short [OF assms(1) assms(3) [unfolded file_query_def] assms(4)]) simp_all
  show ?thesis
    using run_select_ok [OF assms(1,2) q(2) assms(4), of exec] assms(5) first_line_row [of "snd (exec (link_db l) s)"] assms(5)
    by (simp add: ask_for_file_steps [OF assms(1)] q(1) answer_text_def split: option.splits)
qed

lemma user_in_db_steps:
  assumes "allocator U"
  shows "user_in_db U exec conn name =
    bindE (select_query U ''users'' [''home''] [(''username'', ''='', quoted name)]) (\<lambda>q.
    bindE (answer_text (run_select_sqlite_query U exec conn (Some q))) (\<lambda>(response, l).
    Inr (response \<noteq> END_STR, l)))"
  using assms
  by (simp add: user_in_db_def select_query_def bindE_assoc sprintf_into_fits)

lemma user_in_db_ok:
  assumes "allocator U" "link_idle l" "s = user_query name" "query_ok s"
    "rows_ok (snd (exec (link_db l) s))"
  shows "user_in_db U exec (Some l) name =
    Inr (snd (exec (link_db l) s) \<noteq> [], l\<lparr>link_db := fst (exec (link_db l) s)\<rparr>)"
proof -
  obtain q q' where q: "select_query U ''users'' [''home''] [(''username'', ''='', quoted name)] = Inr q"
    "select_query_to_str U (Some q) = Inr (Inr (s, q'))"
    by (rule select_query_short [OF assms(1) assms(3) [unfolded user_query_def] assms(4)]) simp_all
  show ?thesis
    using run_select_ok [OF assms(1,2) q(2) assms(4), of exec] assms(5) first_line_row(1) [OF assms(5)]
    by (auto simp: user_in_db_steps [OF assms(1)] q(1) answer_text_def first_row_def split: list.splits)
qed


lemma user_identification_steps:
  assumes "allocator U"
  shows "user_identification_in_db U exec conn name password user =
    bindE (select_query U ''users'' [''home'', ''user_id'', ''is_admin'']
      [(''username'', ''='', quoted name), (''password'', ''='', quoted password)]) (\<lambda>q.
    bindE (answer_text (run_select_sqlite_query U exec conn (Some q))) (\<lambda>(response, l).
     if response = END_STR then Inr (EMPTY_RESPONSE, user, l)
     else (case split_arguments response of
             None \<Rightarrow> Inl Null_deref
           | Some response_array \<Rightarrow>
               bindE (word_at response_array 0) (\<lambda>home.
               bindE (word_at response_array 1) (\<lambda>uid.
               bindE (word_at response_array 2) (\<lambda>adm.
               Inr (EXPECTED_RESPONSE,
                    \<lparr>fs_name = name, fs_home = home, fs_is_admin = word_of_int (atoi adm),
                     fs_id = atoi uid\<rparr>, l)))))))"
  using assms
  by (simp add: user_identification_in_db_def select_query_def bindE_assoc sprintf_into_fits)

lemma login_query_obtain:
  assumes "allocator U" "s = login_query name password" "query_ok s"
  obtains q q' where "select_query U ''users'' [''home'', ''user_id'', ''is_admin'']
      [(''username'', ''='', quoted name), (''password'', ''='', quoted password)] = Inr q"
    "select_query_to_str U (Some q) = Inr (Inr (s, q'))"
  by (rule select_query_short [OF assms(1) assms(2) [unfolded login_query_def] assms(3)]) simp_all

lemma user_identification_unknown:
  assumes "allocator U" "link_idle l" "s = login_query name password" "query_ok s"
    "exec (link_db l) s = (db', [])"
  shows "user_identification_in_db U exec (Some l) name password user =
    Inr (EMPTY_RESPONSE, user, l\<lparr>link_db := db'\<rparr>)"
proof -
  obtain q q' where q: "select_query U ''users'' [''home'', ''user_id'', ''is_admin'']
      [(''username'', ''='', quoted name), (''password'', ''='', quoted password)] = Inr q"
    "select_query_to_str U (Some q) = Inr (Inr (s, q'))"
    by (rule login_query_obtain [OF assms(1,3,4)])
  show ?thesis
    using run_select_ok [OF assms(1,2) q(2) assms(4), of exec] assms(5)
    by (simp add: user_identification_steps [OF assms(1)] q(1) answer_text_def rows_ok_def first_line_def
        MAX_COLUMNS_def)
qed

text \<open>The row of a user: home, number and administrator flag.\<close>

definition user_row :: "string \<Rightarrow> int \<Rightarrow> int \<Rightarrow> row" where
  "user_row home uid adm = [Some home, Some (show_int uid), Some (show_int adm)]"

lemma arg_scan_plain: "\<forall>c \<in> set w. c \<noteq> SPACE \<and> c \<noteq> QUOTE \<Longrightarrow> arg_scan False w"
  by (induction w) simp_all

lemma arg_ok_show_int: "arg_ok (show_int i)"
proof -
  have "\<forall>c \<in> set (show_int i). c \<noteq> SPACE \<and> c \<noteq> QUOTE"
    using show_int_chars by (auto dest: is_digit_neq)
  then show ?thesis by (simp add: arg_ok_def arg_scan_plain)
qed

lemma user_row_words:
  assumes "arg_ok home"
  shows "split_arguments (row_line (user_row home uid adm)) =
    Some [home, show_int uid, show_int adm, '''']"
proof -
  have "home \<noteq> []" using assms by (simp add: arg_ok_def)
  then have "row_line (user_row home uid adm) =
      join_args [(0, home), (0, show_int uid), (0, show_int adm)]"
    by (simp add: row_line_def user_row_def add_cell_def cell_text_def)
  with assms split_join_args_aux [of "[(0, home), (0, show_int uid), (0, show_int adm)]"]
  show ?thesis by (simp add: arg_ok_show_int)
qed

lemma user_identification_known:
  assumes "allocator U" "link_idle l" "s = login_query name password" "query_ok s"
    "exec (link_db l) s = (db', user_row home uid adm # rs)" "rows_ok (user_row home uid adm # rs)"
    "arg_ok home" "int32 uid" "int32 adm"
  shows "user_identification_in_db U exec (Some l) name password user =
    Inr (EXPECTED_RESPONSE, \<lparr>fs_name = name, fs_home = home, fs_is_admin = word_of_int adm, fs_id = uid\<rparr>,
         l\<lparr>link_db := db'\<rparr>)"
proof -
  obtain q q' where q: "select_query U ''users'' [''home'', ''user_id'', ''is_admin'']
      [(''username'', ''='', quoted name), (''password'', ''='', quoted password)] = Inr q"
    "select_query_to_str U (Some q) = Inr (Inr (s, q'))"
    by (rule login_query_obtain [OF assms(1,3,4)])
  show ?thesis
    using run_select_ok [OF assms(1,2) q(2) assms(4), of exec] assms(5-9) row_line_not_END [OF assms(6)]
    by (simp add: user_identification_steps [OF assms(1)] q(1) answer_text_def first_line_def
        user_row_words word_at_def)
qed

text \<open>An insertion that fits the blocks of its values.\<close>

lemma insert_query_short:
  assumes "allocator U" "s = insert_spec t cs" "query_ok s" "length t < 16" "cs \<noteq> []" "length cs < 10"
    "list_all (pair_fits U) cs"
  obtains q where "insert_query U t cs = Inr q" "insert_query_to_str U (Some q) = Inr (Inr s)"
proof -
  have "length (insert_spec t cs) \<le> 101" using assms(2,3) by (simp add: query_ok_length)
  then have "insert_text U t cs = Inr (Inr (insert_spec t cs))"
    using assms by (intro insert_text_eq) (simp_all add: sql_sizes)
  with insert_query_built [OF assms(1), of t cs] assms that show thesis by (auto simp: sql_sizes)
qed

lemma update_query_short:
  assumes "allocator U" "s = update_spec t cs ws" "query_ok s" "length t < 16" "cs \<noteq> []" "length cs < 10"
    "list_all (pair_fits U) cs"
  obtains q where "update_query U t cs ws = Inr q" "update_query_to_str U (Some q) = Inr (Inr s)"
proof -
  have "length (update_spec t cs ws) \<le> 101" using assms(2,3) by (simp add: query_ok_length)
  moreover then have "length (where_text ws) \<le> 101" by (simp add: update_spec_def)
  ultimately have "update_text U t cs ws = Inr (Inr (update_spec t cs ws))"
    using assms by (intro update_text_eq) (simp_all add: sql_sizes)
  with update_query_built [OF assms(1), of t cs] assms that show thesis by (auto simp: sql_sizes)
qed

text \<open>
  What an allocator must give beyond what it is asked for, so that the copies the helpers make stay
  inside their blocks.
\<close>

definition alias_fits :: "(nat \<Rightarrow> nat) \<Rightarrow> string \<Rightarrow> string \<Rightarrow> bool" where
  "alias_fits U file_alias home \<longleftrightarrow> length file_alias + 2 < U (length file_alias + 1) \<and>
     list_all (pair_fits U) [(''path'', quoted (home @ ''/'' @ file_alias)), (''owner'', ''2''),
       (''alias'', quoted file_alias)]"

definition new_user_fits :: "(nat \<Rightarrow> nat) \<Rightarrow> string \<Rightarrow> string \<Rightarrow> boolean \<Rightarrow> bool" where
  "new_user_fits U name password admin \<longleftrightarrow> length name + 6 < U (length name + 6) \<and> 3 < U 2 \<and>
     list_all (pair_fits U) [(''username'', quoted name), (''password'', quoted password),
       (''home'', quoted (''/fs/'' @ name)),
       (''is_admin'', quoted (show_int (if admin > 0 then 1 else 0)))]"

definition pass_fits :: "(nat \<Rightarrow> nat) \<Rightarrow> int \<Rightarrow> string \<Rightarrow> bool" where
  "pass_fits U uid new_pass \<longleftrightarrow> length (show_int uid) < U 6 \<and> pair_fits U (''password'', quoted new_pass)"

lemma insert_alias_ok:
  assumes "allocator U" "link_idle l" "s = alias_query file_alias (fs_home user)" "query_ok s"
    "alias_fits U file_alias (fs_home user)" "exec (link_db l) s = (db', [])"
  shows "insert_alias_in_db U exec (Some l) file_alias user = Inr (EXPECTED_RESPONSE, l\<lparr>link_db := db'\<rparr>)"
proof -
  obtain q where q: "insert_query U ''files'' [(''path'', quoted (fs_home user @ ''/'' @ file_alias)),
      (''owner'', ''2''), (''alias'', quoted file_alias)] = Inr q"
    "insert_query_to_str U (Some q) = Inr (Inr s)"
    by (rule insert_query_short [OF assms(1) assms(3) [unfolded alias_query_def] assms(4)])
       (use assms(5) in \<open>simp_all add: alias_fits_def\<close>)
  have step: "insert_alias_in_db U exec (Some l) file_alias user =
    bindE (insert_query U ''files'' [(''path'', quoted (fs_home user @ ''/'' @ file_alias)),
      (''owner'', ''2''), (''alias'', quoted file_alias)]) (\<lambda>q.
    bindE (run_insert_sqlite_query U exec (Some l) (Some q)) (\<lambda>(ans, l).
    Inr (if ans \<noteq> 0 then ans else EXPECTED_RESPONSE, l)))"
    using assms(1,5)
    by (simp add: insert_alias_in_db_def insert_query_def bindE_assoc sprintf_into_fits sprintf_into_Inr
        alias_fits_def)
  show ?thesis
    unfolding step q(1) using insert_without_rows [OF assms(1,2) q(2) assms(4), of exec, OF assms(6)] by (simp add: SQL_OK_def)
qed

lemma new_user_ok:
  assumes "allocator U" "link_idle l" "s = new_user_query name password admin" "query_ok s"
    "new_user_fits U name password admin" "exec (link_db l) s = (db', [])"
  shows "new_user_in_db U exec (Some l) name password admin = Inr (EXPECTED_RESPONSE, l\<lparr>link_db := db'\<rparr>)"
proof -
  let ?root = "quoted (show_int (if admin > 0 then 1 else 0))"
  let ?cs = "[(''username'', quoted name), (''password'', quoted password),
    (''home'', quoted (''/fs/'' @ name)), (''is_admin'', ?root)]"
  obtain q where q: "insert_query U ''users'' ?cs = Inr q" "insert_query_to_str U (Some q) = Inr (Inr s)"
    by (rule insert_query_short [OF assms(1) assms(3) [unfolded new_user_query_def] assms(4)])
       (use assms(5) in \<open>simp_all add: new_user_fits_def\<close>)
  have root: "sprintf_into U 2 ?root = Inr ?root"
    using assms(5) by (intro sprintf_into_Inr) (simp add: new_user_fits_def show_int_def show_nat.simps)
  have home: "sprintf_into U (4 + length name + 2) (quoted (''/fs/'' @ name)) = Inr (quoted (''/fs/'' @ name))"
    using assms(5) by (intro sprintf_into_Inr) (simp add: new_user_fits_def add.commute)
  have step: "new_user_in_db U exec (Some l) name password admin =
    bindE (insert_query U ''users'' ?cs) (\<lambda>q.
    bindE (run_insert_sqlite_query U exec (Some l) (Some q)) (\<lambda>(ans, l).
    Inr (if ans \<noteq> 0 then ans else EXPECTED_RESPONSE, l)))"
    unfolding new_user_in_db_def root home using assms(1)
    by (simp add: insert_query_def bindE_assoc sprintf_into_fits)
  show ?thesis
    unfolding step q(1) using insert_without_rows [OF assms(1,2) q(2) assms(4), of exec, OF assms(6)] by (simp add: SQL_OK_def)
qed

lemma update_pass_ok:
  assumes "allocator U" "link_idle l" "s = pass_query (fs_id user) new_pass" "query_ok s"
    "pass_fits U (fs_id user) new_pass" "exec (link_db l) s = (db', [])"
  shows "update_pass_in_db U exec (Some l) user new_pass = Inr (EXPECTED_RESPONSE, l\<lparr>link_db := db'\<rparr>)"
proof -
  obtain q where q: "update_query U ''users'' [(''password'', quoted new_pass)]
      [(''user_id'', ''='', show_int (fs_id user))] = Inr q"
    "update_query_to_str U (Some q) = Inr (Inr s)"
    by (rule update_query_short [OF assms(1) assms(3) [unfolded pass_query_def] assms(4)])
       (use assms(5) in \<open>simp_all add: pass_fits_def\<close>)
  have step: "update_pass_in_db U exec (Some l) user new_pass =
    bindE (update_query U ''users'' [(''password'', quoted new_pass)]
      [(''user_id'', ''='', show_int (fs_id user))]) (\<lambda>q.
    bindE (run_update_sqlite_query U exec (Some l) (Some q)) (\<lambda>(_, l).
    Inr (EXPECTED_RESPONSE, l)))"
    using assms(1,5)
    by (simp add: update_pass_in_db_def update_query_def bindE_assoc sprintf_into_fits sprintf_into_Inr
        pass_fits_def)
  show ?thesis
    unfolding step q(1) using update_without_rows [OF assms(1,2) q(2) assms(4), of exec, OF assms(6)] by (simp add: SQL_OK_def)
qed


section \<open>Properties\<close>

text \<open>
  Over an idle link, \<open>user_identification_in_db\<close> of a user whose row is home, number and
  administrator flag runs the login query once and fills in the user from the first row; it returns
  \<open>EMPTY_RESPONSE\<close> and leaves the user alone when there is no row.
\<close>

theorem user_identification_correct:
  assumes "allocator U" "link_idle l" "s = login_query name password" "query_ok s"
    "exec (link_db l) s = (db', rows)" "rows_ok rows"
    "rows = [] \<or> (\<exists>rs. rows = user_row home uid adm # rs)" "arg_ok home" "int32 uid" "int32 adm"
  shows "user_identification_in_db U exec (Some l) name password user =
    Inr (if rows = [] then (EMPTY_RESPONSE, user, l\<lparr>link_db := db'\<rparr>)
         else (EXPECTED_RESPONSE, \<lparr>fs_name = name, fs_home = home, fs_is_admin = word_of_int adm,
                 fs_id = uid\<rparr>, l\<lparr>link_db := db'\<rparr>))"
proof (cases "rows = []")
  case True
  then show ?thesis using user_identification_unknown [OF assms(1-4)] assms(5) by simp
next
  case False
  with assms(7) obtain rs where "rows = user_row home uid adm # rs" by blast
  then show ?thesis
    using user_identification_known [OF assms(1-4), of exec db' home uid adm rs user] assms(5-10) by simp
qed

lemma query_ok_select:
  assumes "CHR '';'' \<notin> set (butlast (select_spec t cs ws))" "nul_free (select_spec t cs ws)"
    "length (select_spec t cs ws) \<le> 101" "t \<noteq> ''''"
  shows "query_ok (select_spec t cs ws)"
proof -
  have "select_spec t cs ws = butlast (select_spec t cs ws) @ '';''"
    by (simp add: select_spec_def butlast_append)
  moreover have "select_spec t cs ws \<noteq> SQL_CONNECTION_CLOSE_STR"
    by (simp add: select_spec_def SQL_CONNECTION_CLOSE_STR_def)
  moreover have "nul_free (butlast (select_spec t cs ws))"
    using assms(2) by (auto simp: nul_free_def dest: in_set_butlastD)
  ultimately show ?thesis using assms(1,3) by (auto simp: query_ok_def)
qed

text \<open>An engine with one user, for the witnesses.\<close>

definition nobody :: fs_user_t where
  "nobody = \<lparr>fs_name = [], fs_home = [], fs_is_admin = 0, fs_id = 0\<rparr>"

definition one_user_engine :: "nat sql_engine" where
  "one_user_engine n q = (Suc n, if q = login_query ''ana'' ''x'' then [user_row ''/fs/ana'' 7 1] else [])"

lemma query_ok_ana: "query_ok (login_query ''ana'' ''x'')"
  unfolding login_query_def
  by (rule query_ok_select)
     (simp_all add: select_spec_def where_text_def quoted_def)

lemma rows_ok_ana: "rows_ok [user_row ''/fs/ana'' 7 1]"
  by code_simp

theorem user_identification_correct_witness:
  "let l = init_sqlite_server 0
   in user_identification_in_db exact_size one_user_engine (Some l) ''ana'' ''x'' nobody =
    Inr (EXPECTED_RESPONSE, \<lparr>fs_name = ''ana'', fs_home = ''/fs/ana'', fs_is_admin = 1, fs_id = 7\<rparr>,
      l\<lparr>link_db := 1\<rparr>)"
  unfolding Let_def
  using user_identification_correct [of exact_size "init_sqlite_server 0" _ "''ana''" "''x''" one_user_engine
      1 "[user_row ''/fs/ana'' 7 1]" "''/fs/ana''" 7 1 nobody, OF _ _ refl query_ok_ana _ rows_ok_ana]
  by (simp add: link_idle_def init_sqlite_server_def one_user_engine_def arg_ok_def int32_def)

text \<open>
  With an allocator that gives exactly what is asked for, \<open>new_user_in_db\<close> writes outside a
  block whatever the user is: the home has one byte too few, and the flag two.
\<close>

theorem new_user_in_db_overflows:
  "new_user_in_db exact_size exec conn name password admin = Inl Out_of_bounds"
  by (simp add: new_user_in_db_def set_insert_query_table_def create_insert_query_def sprintf_into_exact
      sql_sizes)

text \<open>
  A login query of more than 101 characters, which a name and a password of sixteen
  characters together make it, is cut in two: the user is not found, and the answer to the rest of the text
  stays in the pipe for the next query.
\<close>

theorem long_login_desynchronises:
  assumes "allocator U" "link_idle l" "login_query name password = p1 @ p2 @ '';''"
    "length p1 = 101" "CHR '';'' \<notin> set (p1 @ p2)" "nul_free (p1 @ p2)" "length p2 \<le> 100"
    "p2 @ '';'' \<noteq> SQL_CONNECTION_CLOSE_STR"
    "exec (link_db l) p1 = (db1, [])" "exec db1 (p2 @ '';'') = (db2, rows2)" "list_all row_ok rows2"
  shows "user_identification_in_db U exec (Some l) name password user =
    Inr (EMPTY_RESPONSE, user, l\<lparr>link_db := db2, link_replies := reply_text rows2\<rparr>)"
proof -
  let ?cs = "[''home'', ''user_id'', ''is_admin'']"
  let ?ws = "[(''username'', ''='', quoted name), (''password'', ''='', quoted password)]"
  have spec: "select_spec ''users'' ?cs ?ws = p1 @ p2 @ '';''"
    using assms(3) by (simp only: login_query_def)
  have "length (select_spec ''users'' ?cs ?ws) \<le> 202"
    unfolding spec using assms(4,7) by simp
  moreover then have "length (where_text ?ws) \<le> 202" by (simp add: select_spec_def)
  ultimately obtain q q' where q: "select_query U ''users'' ?cs ?ws = Inr q"
    "select_query_to_str U (Some q) = Inr (Inr (select_spec ''users'' ?cs ?ws, q'))"
    using select_query_built [OF assms(1), of "''users''" ?cs ?ws] by (auto simp: sql_sizes)
  have "run_select_sqlite_query U exec (Some l) (Some q) =
      Inr (Inr (END_STR, l\<lparr>link_db := db2, link_replies := reply_text rows2\<rparr>))"
    using run_long_query [OF assms(1,2) refl assms(4-8), of exec db1 "[]" db2 rows2] assms(9-11)
    by (simp add: run_select_sqlite_query_def q(2) spec text_or_null_def rows_ok_def first_line_def
        MAX_COLUMNS_def)
  then show ?thesis
    by (simp add: user_identification_steps [OF assms(1)] q(1) answer_text_def)
qed

theorem long_login_desynchronises_witness:
  "let s = login_query ''administrator'' ''password''; l = init_sqlite_server (0::nat)
   in user_identification_in_db exact_size (\<lambda>n q. (Suc n, [])) (Some l) ''administrator'' ''password'' nobody
      = Inr (EMPTY_RESPONSE, nobody, l\<lparr>link_db := 2, link_replies := reply_text []\<rparr>)"
  unfolding Let_def
proof (rule long_login_desynchronises [where ?p1.0 = "take 101 (login_query ''administrator'' ''password'')"
      and ?p2.0 = "butlast (drop 101 (login_query ''administrator'' ''password''))"])
qed (simp_all add: link_idle_def init_sqlite_server_def, code_simp+)

end
