(* ===== verification/Responder.thy ===== *)
theory Responder
  imports Serialization Sql_Helpers
begin

text \<open>
  \<open>server/responder.c\<close>: the handlers of the commands. The state of a worker is the global \<open>user\<close>
  (\<open>None\<close> while nobody is logged in), the global \<open>sql_connection\<close>, the disk, the folders
  \<open>/bin/mkdir\<close> was run for and the input and output of the process. What the handlers use and is
  not in the repository is one record, \<open>platform\<close>: the transport chosen by the build, the JSON
  library, the allocator, the contents of fresh memory, SQLite, and whether \<open>fork\<close> succeeds.

  The only caller passes a fresh error block, so the branches for a null \<open>err\<close> are not modelled;
  \<open>ERROR\<close> and \<open>printf\<close> only print.
\<close>

record ('j, 'db) platform =
  plat_transport :: transport
  plat_json :: "'j json_lib"
  plat_usable :: "nat \<Rightarrow> nat"
  plat_junk :: char
  plat_exec :: "'db sql_engine"
  plat_can_fork :: bool

record 'db worker =
  w_user :: "fs_user_t option"
  w_link :: "'db sql_link option"
  w_disk :: disk
  w_folders :: "string list"
  w_io :: io

definition ERR_OK :: int where "ERR_OK = 0"
definition ERR_ASKED_FILE_IS_NOT_AVAILABLE :: int where "ERR_ASKED_FILE_IS_NOT_AVAILABLE = 6000"
definition ERR_USER_ALREADY_LOGGED :: int where "ERR_USER_ALREADY_LOGGED = 6001"
definition ERR_USER_NOT_EXISTS :: int where "ERR_USER_NOT_EXISTS = 6002"
definition ERR_USER_HAVE_NOT_PERMISSION :: int where "ERR_USER_HAVE_NOT_PERMISSION = 6003"
definition ERR_USER_NOT_LOGGED :: int where "ERR_USER_NOT_LOGGED = 6004"
definition ERR_USER_EXISTS :: int where "ERR_USER_EXISTS = 6005"
definition ERR_FILE_EXISTS :: int where "ERR_FILE_EXISTS = 6006"

lemmas responder_codes = ERR_OK_def ERR_ASKED_FILE_IS_NOT_AVAILABLE_def ERR_USER_ALREADY_LOGGED_def
  ERR_USER_NOT_EXISTS_def ERR_USER_HAVE_NOT_PERMISSION_def ERR_USER_NOT_LOGGED_def
  ERR_USER_EXISTS_def ERR_FILE_EXISTS_def

type_synonym 'db handled = "(comm_error_t \<times> 'db worker) result"

section \<open>Handlers\<close>

text \<open>\<open>send_data(s, sz, conn, err)\<close>\<close>

definition reply ::
  "('j, 'db) platform \<Rightarrow> string \<Rightarrow> nat \<Rightarrow> connection_t \<Rightarrow> comm_error_t \<Rightarrow> 'db worker \<Rightarrow> 'db handled" where
  "reply P s sz conn err w =
     bindE (send_data (plat_transport P) (plat_json P) (plat_usable P) s sz conn err (w_io w)) (\<lambda>(err', v).
     Inr (err', w\<lparr>w_io := v\<rparr>))"

definition check_user_logged ::
  "('j, 'db) platform \<Rightarrow> fs_user_t option \<Rightarrow> connection_t \<Rightarrow> comm_error_t \<Rightarrow> 'db worker \<Rightarrow>
   (bool \<times> comm_error_t \<times> 'db worker) result" where
  "check_user_logged P user conn err w =
     (if user = None then
        bindE (reply P ''NOT logged'' 10 conn (comm_error ERR_USER_NOT_LOGGED ''NOT logged'') w) (\<lambda>(err', w').
        Inr (False, err', w'))
      else Inr (True, err, w))"

text \<open>\<open>user->field\<close> of the global user\<close>

definition with_user :: "'db worker \<Rightarrow> (fs_user_t \<Rightarrow> 'a result) \<Rightarrow> 'a result" where
  "with_user w f = (case w_user w of None \<Rightarrow> Inl Null_deref | Some u \<Rightarrow> f u)"

definition process_get_cmd ::
  "('j, 'db) platform \<Rightarrow> connection_t \<Rightarrow> command_get_t \<Rightarrow> comm_error_t \<Rightarrow> 'db worker \<Rightarrow> 'db handled" where
  "process_get_cmd P conn cmd err w =
     (let U = plat_usable P in
      bindE (check_user_logged P (w_user w) conn err w) (\<lambda>(logged, err, w).
      if \<not> logged then Inr (err, w)
      else
        with_user w (\<lambda>user.
        bindE (ask_for_file_to_db U (plat_exec P) (w_link w) (get_path cmd) user) (\<lambda>(aux, l).
        let w = w\<lparr>w_link := Some l\<rparr> in
        case aux of
          Inl errno \<Rightarrow>
            reply P ''FILE IS NOT IN DB'' 17 conn
              (if errno = EMPTY_RESPONSE
               then comm_error ERR_ASKED_FILE_IS_NOT_AVAILABLE ''FILE IS NOT IN DB'' else err) w
        | Inr path \<Rightarrow>
            bindE (sprintf_into U (length path + 2) (''.'' @ path)) (\<lambda>p.
            let (contents, sz) = (case raw_data_from_file (w_disk w) p of
                  Inl _ \<Rightarrow> (None, length path + 2) | Inr (c, n) \<Rightarrow> (Some c, n))
            in bindE (encode_raw_data U contents sz) (\<lambda>encoded.
               bindE (reply P encoded sz conn err w) (\<lambda>(_, w).
               Inr (comm_error ERR_OK ''OK'', w))))))))"

definition process_post_cmd ::
  "('j, 'db) platform \<Rightarrow> connection_t \<Rightarrow> command_post_t \<Rightarrow> comm_error_t \<Rightarrow> 'db worker \<Rightarrow> 'db handled" where
  "process_post_cmd P conn post err w =
     (let U = plat_usable P in
      bindE (check_user_logged P (w_user w) conn err w) (\<lambda>(logged, err, w).
      if \<not> logged then Inr (err, w)
      else
        with_user w (\<lambda>user.
        bindE (ask_for_file_to_db U (plat_exec P) (w_link w) (post_dest post) user) (\<lambda>(aux, l).
        let w = w\<lparr>w_link := Some l\<rparr> in
        case aux of
          Inr _ \<Rightarrow> reply P ''FILE EXISTS'' 11 conn (comm_error ERR_FILE_EXISTS ''FILE EXISTS'') w
        | Inl _ \<Rightarrow>
            bindE (insert_alias_in_db U (plat_exec P) (w_link w) (post_dest post) user) (\<lambda>(_, l).
            let w = w\<lparr>w_link := Some l\<rparr> in
            bindE (sprintf_into U (1 + length (fs_home user) + 1 + length (post_dest post) + 1)
              (''.'' @ fs_home user @ ''/'' @ post_dest post)) (\<lambda>path.
            bindE (decode_to_raw_data U (plat_junk P) (post_data post @ [ZERO])) (\<lambda>data.
            bindE (file_from_raw_data (w_disk w) path data (post_size post)) (\<lambda>(_, d).
            reply P ''File OK'' (length ''File OK'') conn (comm_error ERR_OK ''OK'') (w\<lparr>w_disk := d\<rparr>)))))))))"

text \<open>What \<open>NEW(fs_user_t)\<close> holds is written before it is read, or dropped.\<close>

definition fresh_user :: fs_user_t where
  "fresh_user = \<lparr>fs_name = [], fs_home = [], fs_is_admin = 0, fs_id = 0\<rparr>"

definition process_login_cmd ::
  "('j, 'db) platform \<Rightarrow> connection_t \<Rightarrow> command_login_t \<Rightarrow> comm_error_t \<Rightarrow> 'db worker \<Rightarrow> 'db handled" where
  "process_login_cmd P conn login err w =
     (if w_user w \<noteq> None then
        reply P ''You are already logged in'' (length ''You are already logged in'') conn
          (comm_error ERR_USER_ALREADY_LOGGED ''Already logged in'') w
      else
        bindE (user_identification_in_db (plat_usable P) (plat_exec P) (w_link w)
          (username (login_user login)) (password (login_user login)) fresh_user) (\<lambda>(aux, user, l).
        let w = w\<lparr>w_user := Some user, w_link := Some l\<rparr> in
        if aux \<noteq> 0 then
          bindE (reply P ''Login failed'' (length ''Login failed'') conn
            (comm_error ERR_USER_NOT_EXISTS ''Login failed'') w) (\<lambda>(err, w).
          Inr (err, w\<lparr>w_user := None\<rparr>))
        else
          reply P ''Logged in successfully'' (length ''Logged in successfully'') conn
            (comm_error ERR_OK ''Logged in successfully'') w))"

definition process_logout_cmd ::
  "('j, 'db) platform \<Rightarrow> connection_t \<Rightarrow> comm_error_t \<Rightarrow> 'db worker \<Rightarrow> 'db handled" where
  "process_logout_cmd P conn err w =
     bindE (check_user_logged P (w_user w) conn err w) (\<lambda>(logged, err, w).
     if \<not> logged then Inr (err, w)
     else
       bindE (reply P ''Log out successful'' (length ''Log out successful'') conn
         (comm_error ERR_OK ''OK'') w) (\<lambda>(err, w).
       Inr (err, w\<lparr>w_user := None\<rparr>)))"

text \<open>The child runs \<open>/bin/mkdir ./fs/username\<close>; its outcome is not looked at.\<close>

definition create_user_folder :: "('j, 'db) platform \<Rightarrow> string \<Rightarrow> 'db worker \<Rightarrow> 'db worker result" where
  "create_user_folder P name w =
     (if plat_can_fork P then
        bindE (sprintf_into (plat_usable P) (5 + length name + 1) (''./fs/'' @ name)) (\<lambda>path.
        Inr (w\<lparr>w_folders := w_folders w @ [path]\<rparr>))
      else Inr w)"

definition process_new_user_cmd ::
  "('j, 'db) platform \<Rightarrow> connection_t \<Rightarrow> command_new_user_t \<Rightarrow> comm_error_t \<Rightarrow> 'db worker \<Rightarrow> 'db handled" where
  "process_new_user_cmd P conn cmd err w =
     (let U = plat_usable P in
      bindE (check_user_logged P (w_user w) conn err w) (\<lambda>(logged, err, w).
      if \<not> logged then Inr (err, w)
      else
        with_user w (\<lambda>user.
        if fs_is_admin user = 0 then
          reply P ''HAVE NOT PERMISION'' 10 conn
            (comm_error ERR_USER_HAVE_NOT_PERMISSION ''HAVE NOT PERMISION'') w
        else
          bindE (user_in_db U (plat_exec P) (w_link w) (username (new_user cmd))) (\<lambda>(found, l).
          let w = w\<lparr>w_link := Some l\<rparr> in
          if found then
            reply P ''User already exists'' 19 conn (comm_error ERR_USER_EXISTS ''User already exists'') w
          else
            bindE (create_user_folder P (username (new_user cmd)) w) (\<lambda>w.
            bindE (new_user_in_db U (plat_exec P) (w_link w) (username (new_user cmd))
              (password (new_user cmd)) (admin (new_user cmd))) (\<lambda>(_, l).
            reply P ''User registered'' 15 conn (comm_error ERR_OK ''OK'') (w\<lparr>w_link := Some l\<rparr>)))))))"

definition process_change_pass_cmd ::
  "('j, 'db) platform \<Rightarrow> connection_t \<Rightarrow> command_change_pass_t \<Rightarrow> comm_error_t \<Rightarrow> 'db worker \<Rightarrow> 'db handled"
where
  "process_change_pass_cmd P conn change err w =
     bindE (check_user_logged P (w_user w) conn err w) (\<lambda>(logged, err, w).
     if \<not> logged then Inr (err, w)
     else
       with_user w (\<lambda>user.
       bindE (update_pass_in_db (plat_usable P) (plat_exec P) (w_link w) user (pass change)) (\<lambda>(_, l).
       reply P ''PASSWORD UPDATED'' 16 conn (comm_error ERR_OK ''OK'') (w\<lparr>w_link := Some l\<rparr>))))"

section \<open>Replies\<close>

definition platform_ok :: "('j, 'db) platform \<Rightarrow> bool" where
  "platform_ok P \<longleftrightarrow> json_c_laws (plat_json P) \<and> allocator (plat_usable P)"

text \<open>What one reply does: one frame with a data message goes out on the request descriptor.\<close>

definition replied ::
  "('j, 'db) platform \<Rightarrow> connection_t \<Rightarrow> string \<Rightarrow> nat \<Rightarrow> io \<Rightarrow> io \<Rightarrow> bool" where
  "replied P conn s n v v' \<longleftrightarrow>
     (\<exists>b r. boundary_shape b \<and> rng_ok r \<and>
        v' = emit (req_fd conn) (frame_bytes b (stringify (plat_json P) (MData s n))) (v\<lparr>io_rng := r\<rparr>))"

text \<open>The error block after a reply: the FIFO build overwrites it, the socket build leaves it.\<close>

definition error_after_send :: "('j, 'db) platform \<Rightarrow> comm_error_t \<Rightarrow> comm_error_t" where
  "error_after_send P e =
     (case plat_transport P of Fifo \<Rightarrow> comm_error NO_COMM_ERROR ''OK'' | Socket \<Rightarrow> e)"

lemma reply_ok:
  assumes "platform_ok P" "rng_ok (io_rng (w_io w))" "nul_free s"
  obtains v where "reply P s n conn e w = Inr (error_after_send P e, w\<lparr>w_io := v\<rparr>)"
    "replied P conn s n (w_io w) v"
proof -
  obtain b r where s: "send_text (plat_transport P) (plat_usable P) (stringify (plat_json P) (MData s n))
      conn e (w_io w) = Inr (error_after_send P e,
      emit (req_fd conn) (frame_bytes b (stringify (plat_json P) (MData s n))) ((w_io w)\<lparr>io_rng := r\<rparr>))"
    "boundary_shape b" "rng_ok r"
    using send_text_bytes [where J = "plat_json P" and U = "plat_usable P" and w = "w_io w" and m = "MData s n"
        and T = "plat_transport P" and conn = conn and e = e] assms unfolding platform_ok_def error_after_send_def by auto
  then show thesis
    by (intro that) (auto simp: reply_def send_data_def replied_def)
qed

lemma reply_sends:
  assumes "platform_ok P" "rng_ok (io_rng (w_io w))" "nul_free s"
  shows "\<exists>v. reply P s n conn e w = Inr (error_after_send P e, w\<lparr>w_io := v\<rparr>) \<and> replied P conn s n (w_io w) v"
  using reply_ok [OF assms, of n conn e] by blast

lemma replied_rng: "replied P conn s n v v' \<Longrightarrow> rng_ok (io_rng v')"
  by (auto simp: replied_def emit_def)


text \<open>Every completed call of a handler sends exactly one data message.\<close>

definition answered :: "('j, 'db) platform \<Rightarrow> connection_t \<Rightarrow> io \<Rightarrow> io \<Rightarrow> bool" where
  "answered P conn v v' \<longleftrightarrow> (\<exists>s n. nul_free s \<and> replied P conn s n v v')"

lemma reply_Inr:
  assumes "reply P s n conn e w = Inr (e', w')" "platform_ok P" "rng_ok (io_rng (w_io w))" "nul_free s"
  shows "e' = error_after_send P e \<and> w_user w' = w_user w \<and> w_link w' = w_link w \<and> w_disk w' = w_disk w \<and>
    w_folders w' = w_folders w \<and> answered P conn (w_io w) (w_io w')"
proof -
  obtain v where "reply P s n conn e w = Inr (error_after_send P e, w\<lparr>w_io := v\<rparr>)"
    "replied P conn s n (w_io w) v"
    by (rule reply_ok [OF assms(2-4)])
  then show ?thesis using assms(1,4) unfolding answered_def by auto
qed

lemma nul_free_byte_text: "nul_free (byte_text c)"
proof -
  have "(of_char c :: nat) < 100 * 10"
    by (rule less_trans [OF nat_of_char_less_256]) simp
  then have "of_char c div 100 < (10::nat)" by (simp only: less_mult_imp_div_less mult.commute)
  then show ?thesis
    by (simp add: byte_text_def Let_def digit_char_digit is_digit_neq(1))
qed

lemma encode_loop_nul_free:
  "encode_loop U d sz k out = Inr t \<Longrightarrow> nul_free out \<Longrightarrow> nul_free t"
proof (induction U d sz k out rule: encode_loop.induct)
  case (1 U d sz k out)
  show ?case
  proof (cases "k < sz")
    case False
    with 1 show ?thesis by (simp add: encode_loop.simps [of U d sz k out])
  next
    case True
    with "1.prems"(1) obtain c where c: "peek d k = Inr c" "sprintf_into U 3 (byte_text c) = Inr (byte_text c)"
      "sprintf_into U (sz * 3 + 2) (out @ take 3 (byte_text c)) = Inr (out @ take 3 (byte_text c))"
      "encode_loop U d sz (Suc k) (out @ take 3 (byte_text c)) = Inr t"
      by (subst (asm) encode_loop.simps) (auto simp: bindE_Inr_iff sprintf_into_def split: if_splits)
    have "nul_free (out @ take 3 (byte_text c))"
      using nul_free_byte_text [of c] "1.prems"(2) by simp
    then show ?thesis by (rule "1.IH" [OF True c])
  qed
qed

lemma encode_raw_data_nul_free: "encode_raw_data U c sz = Inr t \<Longrightarrow> nul_free t"
  by (auto simp: encode_raw_data_def encode_loop_nul_free split: option.splits if_splits)

section \<open>The contract of the guarded handlers\<close>

text \<open>
  Five handlers begin with \<open>check_user_logged\<close>: with nobody logged in they only refuse. \<open>refuse\<close> is
  that answer.
\<close>

definition refuse :: "('j, 'db) platform \<Rightarrow> connection_t \<Rightarrow> 'db worker \<Rightarrow> 'db handled" where
  "refuse P conn w = reply P ''NOT logged'' 10 conn (comm_error ERR_USER_NOT_LOGGED ''NOT logged'') w"

locale guarded_handler =
  fixes P :: "('j, 'db) platform"
    and conn :: connection_t
    and handle :: "comm_error_t \<Rightarrow> 'db worker \<Rightarrow> 'db handled"
  assumes refuses: "w_user w = None \<Longrightarrow> handle err w = refuse P conn w"
begin

lemma refuse_effect:
  assumes "platform_ok P" "rng_ok (io_rng (w_io w))" "w_user w = None"
  shows "\<exists>v. handle err w = Inr (error_after_send P (comm_error ERR_USER_NOT_LOGGED ''NOT logged''),
      w\<lparr>w_io := v\<rparr>) \<and> replied P conn ''NOT logged'' 10 (w_io w) v"
proof -
  obtain v where "reply P ''NOT logged'' 10 conn (comm_error ERR_USER_NOT_LOGGED ''NOT logged'') w =
      Inr (error_after_send P (comm_error ERR_USER_NOT_LOGGED ''NOT logged''), w\<lparr>w_io := v\<rparr>)"
    "replied P conn ''NOT logged'' 10 (w_io w) v"
    by (rule reply_ok [OF assms(1,2), of "''NOT logged''" 10 conn]) simp_all
  then show ?thesis unfolding refuses [OF assms(3)] refuse_def by blast
qed

end

lemma check_logged_out:
  "check_user_logged P None conn err w = bindE (refuse P conn w) (\<lambda>(err', w'). Inr (False, err', w'))"
  by (simp add: check_user_logged_def refuse_def)

lemma check_logged_in:
  "check_user_logged P (Some u) conn err w = Inr (True, err, w)"
  by (simp add: check_user_logged_def)

lemma bindE_pair_Inr: "bindE m (\<lambda>(a, b). Inr (a, b)) = m"
  by (cases m) auto

lemma guard_refuses:
  "bindE (check_user_logged P None conn err w)
     (\<lambda>(logged, err, w). if \<not> logged then Inr (err, w) else body err w) = refuse P conn w"
  by (cases "refuse P conn w") (auto simp: check_logged_out)

interpretation get_guard: guarded_handler P conn "process_get_cmd P conn cmd" for P conn cmd
  by unfold_locales (simp only: process_get_cmd_def Let_def guard_refuses)

interpretation post_guard: guarded_handler P conn "process_post_cmd P conn cmd" for P conn cmd
  by unfold_locales (simp only: process_post_cmd_def Let_def guard_refuses)

interpretation logout_guard: guarded_handler P conn "process_logout_cmd P conn" for P conn
  by unfold_locales (simp only: process_logout_cmd_def Let_def guard_refuses)

interpretation new_user_guard: guarded_handler P conn "process_new_user_cmd P conn cmd" for P conn cmd
  by unfold_locales (simp only: process_new_user_cmd_def Let_def guard_refuses)

interpretation change_pass_guard: guarded_handler P conn "process_change_pass_cmd P conn cmd" for P conn cmd
  by unfold_locales (simp only: process_change_pass_cmd_def Let_def guard_refuses)

section \<open>One answer per request\<close>

lemmas handler_splits = sum.splits option.splits if_splits prod.splits

lemma returns_reply:
  assumes "platform_ok P" "rng_ok (io_rng (w_io w))" "nul_free s"
    "\<And>v. answered P conn (w_io w) v \<Longrightarrow> Q (error_after_send P e, w\<lparr>w_io := v\<rparr>)"
  shows "returns (reply P s n conn e w) Q"
proof -
  obtain v where "reply P s n conn e w = Inr (error_after_send P e, w\<lparr>w_io := v\<rparr>)"
    "replied P conn s n (w_io w) v"
    by (rule reply_ok [OF assms(1-3)])
  then show ?thesis using assms(3,4) by (auto simp: answered_def)
qed

lemma returns_refuse:
  assumes "platform_ok P" "rng_ok (io_rng (w_io w))"
    "\<And>v. answered P conn (w_io w) v \<Longrightarrow>
      Q (error_after_send P (comm_error ERR_USER_NOT_LOGGED ''NOT logged''), w\<lparr>w_io := v\<rparr>)"
  shows "returns (refuse P conn w) Q"
  unfolding refuse_def by (rule returns_reply) (use assms in simp_all)

text \<open>The calls whose results the handlers only pass on.\<close>

lemma returns_calls:
  "(\<And>a l. Q1 (a, l)) \<Longrightarrow> returns (ask_for_file_to_db U X c s u) Q1"
  "(\<And>a l. Q2 (a, l)) \<Longrightarrow> returns (insert_alias_in_db U X c s u) Q2"
  "(\<And>a b l. Q3 (a, b, l)) \<Longrightarrow> returns (user_identification_in_db U X c s t u) Q3"
  "(\<And>a l. Q4 (a, l)) \<Longrightarrow> returns (user_in_db U X c s) Q4"
  "(\<And>a l. Q5 (a, l)) \<Longrightarrow> returns (new_user_in_db U X c s t adm) Q5"
  "(\<And>a l. Q6 (a, l)) \<Longrightarrow> returns (update_pass_in_db U X c u s) Q6"
  "(\<And>p. Q7 p) \<Longrightarrow> returns (sprintf_into U n s) Q7"
  "(\<And>p. Q7 p) \<Longrightarrow> returns (decode_to_raw_data U k s) Q7"
  "(\<And>e d. Q8 (e, d)) \<Longrightarrow> returns (file_from_raw_data D s b m) Q8"
  "(\<And>t. nul_free t \<Longrightarrow> Q7 t) \<Longrightarrow> returns (encode_raw_data U B m) Q7"
  by (auto intro!: returnsI dest: encode_raw_data_nul_free)

lemma returns_cases:
  "(c \<Longrightarrow> returns a Q) \<Longrightarrow> (\<not> c \<Longrightarrow> returns b Q) \<Longrightarrow> returns (if c then a else b) Q"
  "(\<And>x. returns (f x) Q) \<Longrightarrow> (\<And>y. returns (g y) Q) \<Longrightarrow> returns (case_sum f g z) Q"
  "(\<And>u. w_user w = Some u \<Longrightarrow> returns (h u) Q) \<Longrightarrow> returns (with_user w h) Q"
  by (simp_all add: with_user_def split: sum.splits option.splits)

lemmas handler_rules = returns_reply returns_calls returns_cases

text \<open>What every handler leaves alone, and that it answers once.\<close>

lemma process_get_effect:
  assumes "platform_ok P" "rng_ok (io_rng (w_io w))"
  shows "returns (process_get_cmd P conn cmd err w) (\<lambda>(_, w'). w_user w' = w_user w \<and>
    w_disk w' = w_disk w \<and> w_folders w' = w_folders w \<and> answered P conn (w_io w) (w_io w'))"
proof (cases "w_user w")
  case None
  then show ?thesis
    by (simp only: get_guard.refuses) (auto intro!: returns_refuse simp: assms)
next
  case (Some u)
  then show ?thesis using assms
    by (auto simp: process_get_cmd_def check_logged_in Let_def split_beta intro!: handler_rules)
qed

lemma process_post_effect:
  assumes "platform_ok P" "rng_ok (io_rng (w_io w))"
  shows "returns (process_post_cmd P conn cmd err w) (\<lambda>(_, w'). w_user w' = w_user w \<and>
    w_folders w' = w_folders w \<and> answered P conn (w_io w) (w_io w'))"
proof (cases "w_user w")
  case None
  then show ?thesis
    by (simp only: post_guard.refuses) (auto intro!: returns_refuse simp: assms)
next
  case (Some u)
  then show ?thesis using assms
    by (auto simp: process_post_cmd_def check_logged_in Let_def split_beta intro!: handler_rules)
qed

lemma process_login_effect:
  assumes "platform_ok P" "rng_ok (io_rng (w_io w))"
  shows "returns (process_login_cmd P conn cmd err w) (\<lambda>(_, w'). w_disk w' = w_disk w \<and>
    w_folders w' = w_folders w \<and> answered P conn (w_io w) (w_io w') \<and>
    (w_user w \<noteq> None \<longrightarrow> w_user w' = w_user w \<and> w_link w' = w_link w))"
  using assms
  by (auto simp: process_login_cmd_def Let_def split_beta simp del: not_None_eq intro!: handler_rules)

lemma process_logout_effect:
  assumes "platform_ok P" "rng_ok (io_rng (w_io w))"
  shows "returns (process_logout_cmd P conn err w) (\<lambda>(_, w'). w_user w' = None \<and>
    w_link w' = w_link w \<and> w_disk w' = w_disk w \<and> w_folders w' = w_folders w \<and>
    answered P conn (w_io w) (w_io w'))"
proof (cases "w_user w")
  case None
  then show ?thesis
    by (simp only: logout_guard.refuses) (auto intro!: returns_refuse simp: assms)
next
  case (Some u)
  then show ?thesis using assms
    by (auto simp: process_logout_cmd_def check_logged_in Let_def split_beta intro!: handler_rules)
qed

lemma process_new_user_effect:
  assumes "platform_ok P" "rng_ok (io_rng (w_io w))"
  shows "returns (process_new_user_cmd P conn cmd err w) (\<lambda>(_, w'). w_user w' = w_user w \<and>
    w_disk w' = w_disk w \<and> answered P conn (w_io w) (w_io w'))"
proof (cases "w_user w")
  case None
  then show ?thesis
    by (simp only: new_user_guard.refuses) (auto intro!: returns_refuse simp: assms)
next
  case (Some u)
  then show ?thesis using assms
    by (auto simp: process_new_user_cmd_def create_user_folder_def check_logged_in Let_def split_beta
        intro!: handler_rules)
qed

lemma process_change_pass_effect:
  assumes "platform_ok P" "rng_ok (io_rng (w_io w))"
  shows "returns (process_change_pass_cmd P conn cmd err w) (\<lambda>(_, w'). w_user w' = w_user w \<and>
    w_disk w' = w_disk w \<and> w_folders w' = w_folders w \<and> answered P conn (w_io w) (w_io w'))"
proof (cases "w_user w")
  case None
  then show ?thesis
    by (simp only: change_pass_guard.refuses) (auto intro!: returns_refuse simp: assms)
next
  case (Some u)
  then show ?thesis using assms
    by (auto simp: process_change_pass_cmd_def check_logged_in Let_def split_beta intro!: handler_rules)
qed


section \<open>Outcomes\<close>

text \<open>The database behind the link answers the query \<open>q\<close> with \<open>rows\<close>.\<close>

definition db_answers ::
  "('j, 'db) platform \<Rightarrow> 'db sql_link \<Rightarrow> string \<Rightarrow> 'db \<Rightarrow> row list \<Rightarrow> bool" where
  "db_answers P l q db' rows \<longleftrightarrow>
     link_idle l \<and> query_ok q \<and> plat_exec P (link_db l) q = (db', rows) \<and> rows_ok rows"

lemma ask_for_file_answer:
  assumes "platform_ok P" "db_answers P l (file_query a (fs_home u)) db' rows"
  shows "ask_for_file_to_db (plat_usable P) (plat_exec P) (Some l) a u =
    Inr (case first_row rows of None \<Rightarrow> Inl EMPTY_RESPONSE | Some p \<Rightarrow> Inr p, l\<lparr>link_db := db'\<rparr>)"
  using assms ask_for_file_ok [of "plat_usable P" l _ a u "plat_exec P", OF _ _ refl]
  by (simp add: platform_ok_def db_answers_def)

lemma link_idle_db [simp]: "link_idle (l\<lparr>link_db := db'\<rparr>) = link_idle l"
  by (simp add: link_idle_def)

lemma process_get_found:
  assumes "platform_ok P" "rng_ok (io_rng (w_io w))" "3 < plat_usable P 3"
    "w_user w = Some u" "w_link w = Some l" "db_answers P l (file_query (get_path cmd) (fs_home u)) db' (r # rs)"
    "files (w_disk w) (''.'' @ row_line r) = Some c"
  shows "\<exists>v. process_get_cmd P conn cmd err w =
      Inr (comm_error ERR_OK ''OK'', w\<lparr>w_link := Some (l\<lparr>link_db := db'\<rparr>), w_io := v\<rparr>) \<and>
    replied P conn (raw_text c) (length c) (w_io w) v"
proof -
  let ?w = "w\<lparr>w_link := Some (l\<lparr>link_db := db'\<rparr>)\<rparr>"
  have U: "allocator (plat_usable P)" using assms(1) by (simp add: platform_ok_def)
  have "nul_free (raw_text c)"
    using encode_raw_data_text [OF U assms(3), of "length c" "c"] encode_raw_data_nul_free by fastforce
  then obtain v where v: "reply P (raw_text c) (length c) conn err ?w =
      Inr (error_after_send P err, ?w\<lparr>w_io := v\<rparr>)" "replied P conn (raw_text c) (length c) (w_io w) v"
    using reply_sends [of P ?w "raw_text c" "length c" conn err] assms(1,2) by auto
  have "encode_raw_data (plat_usable P) (Some (c @ [ZERO])) (length c) = Inr (raw_text c)"
    using encode_raw_data_text [OF U assms(3), of "length c" "c @ [ZERO]"] by simp
  then show ?thesis
    using v assms(4-7) ask_for_file_answer [OF assms(1,6)]
    by (intro exI [of _ v]) (simp add: process_get_cmd_def check_logged_in with_user_def Let_def
        first_row_def sprintf_into_fits [OF U] raw_data_from_file_def)
qed

lemma process_get_unknown:
  assumes "platform_ok P" "rng_ok (io_rng (w_io w))"
    "w_user w = Some u" "w_link w = Some l" "db_answers P l (file_query (get_path cmd) (fs_home u)) db' []"
  shows "\<exists>v. process_get_cmd P conn cmd err w =
      Inr (error_after_send P (comm_error ERR_ASKED_FILE_IS_NOT_AVAILABLE ''FILE IS NOT IN DB''),
        w\<lparr>w_link := Some (l\<lparr>link_db := db'\<rparr>), w_io := v\<rparr>) \<and>
    replied P conn ''FILE IS NOT IN DB'' 17 (w_io w) v"
proof -
  let ?w = "w\<lparr>w_link := Some (l\<lparr>link_db := db'\<rparr>)\<rparr>"
  let ?e = "comm_error ERR_ASKED_FILE_IS_NOT_AVAILABLE ''FILE IS NOT IN DB''"
  obtain v where v: "reply P ''FILE IS NOT IN DB'' 17 conn ?e ?w = Inr (error_after_send P ?e, ?w\<lparr>w_io := v\<rparr>)"
    "replied P conn ''FILE IS NOT IN DB'' 17 (w_io w) v"
    using assms(1,2) reply_ok [of P ?w "''FILE IS NOT IN DB''" 17 conn ?e] by auto
  have "process_get_cmd P conn cmd err w = reply P ''FILE IS NOT IN DB'' 17 conn ?e ?w"
    using assms(3,4) ask_for_file_answer [OF assms(1,5)]
    by (simp add: process_get_cmd_def check_logged_in with_user_def Let_def first_row_def)
  with v show ?thesis by auto
qed

lemma process_get_missing:
  assumes "platform_ok P" "w_user w = Some u" "w_link w = Some l"
    "db_answers P l (file_query (get_path cmd) (fs_home u)) db' (r # rs)"
    "files (w_disk w) (''.'' @ row_line r) = None"
  shows "process_get_cmd P conn cmd err w = Inl Null_deref"
proof -
  have U: "allocator (plat_usable P)" using assms(1) by (simp add: platform_ok_def)
  show ?thesis
    using assms(2-5) ask_for_file_answer [OF assms(1,4)]
    by (simp add: process_get_cmd_def check_logged_in with_user_def Let_def first_row_def
        sprintf_into_fits [OF U] raw_data_from_file_def encode_raw_data_def)
qed

text \<open>A post whose copies fit, of a file the database does not have.\<close>

definition post_fits :: "('j, 'db) platform \<Rightarrow> fs_user_t \<Rightarrow> command_post_t \<Rightarrow> string \<Rightarrow> bool" where
  "post_fits P u post d \<longleftrightarrow> alias_fits (plat_usable P) (post_dest post) (fs_home u) \<and>
     post_data post = raw_text d \<and> post_size post = length d \<and>
     3 * length d < plat_usable P (length d + 1)"

definition post_path :: "fs_user_t \<Rightarrow> command_post_t \<Rightarrow> string" where
  "post_path u post = ''.'' @ fs_home u @ ''/'' @ post_dest post"

text \<open>
  The two halves of a post: up to the answer of the lookup, which is a finished call or the user who goes
  on, and from the insertion on.
\<close>

definition post_lookup ::
  "('j, 'db) platform \<Rightarrow> connection_t \<Rightarrow> command_post_t \<Rightarrow> comm_error_t \<Rightarrow> 'db worker \<Rightarrow>
   ((comm_error_t \<times> 'db worker) + (fs_user_t \<times> 'db worker)) result" where
  "post_lookup P conn post err w =
     bindE (check_user_logged P (w_user w) conn err w) (\<lambda>(logged, err, w).
     if \<not> logged then Inr (Inl (err, w))
     else
       with_user w (\<lambda>user.
       bindE (ask_for_file_to_db (plat_usable P) (plat_exec P) (w_link w) (post_dest post) user) (\<lambda>(aux, l).
       let w = w\<lparr>w_link := Some l\<rparr> in
       case aux of
         Inr _ \<Rightarrow> bindE (reply P ''FILE EXISTS'' 11 conn (comm_error ERR_FILE_EXISTS ''FILE EXISTS'') w) (\<lambda>h. Inr (Inl h))
       | Inl _ \<Rightarrow> Inr (Inr (user, w)))))"

definition post_store ::
  "('j, 'db) platform \<Rightarrow> connection_t \<Rightarrow> command_post_t \<Rightarrow> fs_user_t \<Rightarrow> 'db worker \<Rightarrow> 'db handled" where
  "post_store P conn post user w =
     (let U = plat_usable P in
      bindE (insert_alias_in_db U (plat_exec P) (w_link w) (post_dest post) user) (\<lambda>(_, l).
      let w = w\<lparr>w_link := Some l\<rparr> in
      bindE (sprintf_into U (1 + length (fs_home user) + 1 + length (post_dest post) + 1)
        (''.'' @ fs_home user @ ''/'' @ post_dest post)) (\<lambda>path.
      bindE (decode_to_raw_data U (plat_junk P) (post_data post @ [ZERO])) (\<lambda>data.
      bindE (file_from_raw_data (w_disk w) path data (post_size post)) (\<lambda>(_, d).
      reply P ''File OK'' (length ''File OK'') conn (comm_error ERR_OK ''OK'') (w\<lparr>w_disk := d\<rparr>))))))"

lemma process_post_halves:
  "process_post_cmd P conn post err w = bindE (post_lookup P conn post err w) (\<lambda>r.
     case r of Inl h \<Rightarrow> Inr h | Inr (user, w) \<Rightarrow> post_store P conn post user w)"
  unfolding process_post_cmd_def post_lookup_def post_store_def with_user_def Let_def bindE_assoc
  by (auto simp: bindE_assoc with_user_def intro!: bindE_cong split: option.splits sum.splits prod.splits)

lemma post_lookup_free:
  assumes "platform_ok P" "w_user w = Some u" "w_link w = Some l" "db_answers P l (file_query (post_dest post) (fs_home u)) db1 []"
  shows "post_lookup P conn post err w = Inr (Inr (u, w\<lparr>w_link := Some (l\<lparr>link_db := db1\<rparr>)\<rparr>))"
  using assms(2,3) ask_for_file_answer [OF assms(1,4)]
  by (simp add: post_lookup_def check_logged_in with_user_def Let_def first_row_def)

lemma post_store_stores:
  assumes "platform_ok P" "rng_ok (io_rng (w_io w))" "w_link w = Some l"
    "db_answers P l (alias_query (post_dest post) (fs_home u)) db2 []"
    "post_fits P u post d" "can_create (w_disk w) (post_path u post)"
  shows "\<exists>v ks. post_store P conn post u w =
      Inr (error_after_send P (comm_error ERR_OK ''OK''),
        w\<lparr>w_link := Some (l\<lparr>link_db := db2\<rparr>),
          w_disk := (w_disk w)\<lparr>files := (files (w_disk w))(post_path u post \<mapsto> d), short_writes := ks\<rparr>,
          w_io := v\<rparr>) \<and>
    replied P conn ''File OK'' 7 (w_io w) v"
proof -
  have U: "allocator (plat_usable P)" using assms(1) by (simp add: platform_ok_def)
  have ins: "insert_alias_in_db (plat_usable P) (plat_exec P) (Some l) (post_dest post) u =
      Inr (EXPECTED_RESPONSE, l\<lparr>link_db := db2\<rparr>)"
    using insert_alias_ok [OF U, of l _ "post_dest post" u, OF _ refl] assms(4,5)
    by (simp add: db_answers_def post_fits_def)
  obtain b where b: "decode_to_raw_data (plat_usable P) (plat_junk P) (post_data post @ [ZERO]) = Inr b"
    "length d \<le> length b" "take (length d) b = d"
    using decode_raw_text [OF U, of "plat_junk P" d "[]"] assms(5) allocatorD [OF U, of "length d + 1"]
    by (auto simp: post_fits_def take_update_cancel)
  obtain contents ks where f: "fwrite_loop b (length d) 0 [] (short_writes (w_disk w)) = (contents, ks)"
    by fastforce
  have "contents = d"
    using fwrite_loop_all [of 0 "length d" b "[]" "short_writes (w_disk w)"] b f by simp
  let ?d = "(w_disk w)\<lparr>files := (files (w_disk w))(post_path u post \<mapsto> d), short_writes := ks\<rparr>"
  let ?w = "w\<lparr>w_link := Some (l\<lparr>link_db := db2\<rparr>), w_disk := ?d\<rparr>"
  have store: "file_from_raw_data (w_disk w) (post_path u post) b (post_size post) = Inr (FILE_OK, ?d)"
    using assms(5,6) b f \<open>contents = d\<close> by (simp add: file_from_raw_data_def post_fits_def Let_def)
  obtain v where v: "reply P ''File OK'' 7 conn (comm_error ERR_OK ''OK'') ?w =
      Inr (error_after_send P (comm_error ERR_OK ''OK''), ?w\<lparr>w_io := v\<rparr>)"
    "replied P conn ''File OK'' 7 (w_io w) v"
    using assms(1,2) reply_sends [of P ?w "''File OK''" 7 conn "comm_error ERR_OK ''OK''"] by auto
  have "post_store P conn post u w = reply P ''File OK'' 7 conn (comm_error ERR_OK ''OK'') ?w"
    using assms(3) ins b(1) store
    by (simp add: post_store_def Let_def sprintf_into_fits [OF U] post_path_def numeral_eq_Suc)
  with v show ?thesis by auto
qed

lemma process_post_stores:
  assumes "platform_ok P" "rng_ok (io_rng (w_io w))" "w_user w = Some u" "w_link w = Some l"
    "db_answers P l (file_query (post_dest post) (fs_home u)) db1 []"
    "db_answers P (l\<lparr>link_db := db1\<rparr>) (alias_query (post_dest post) (fs_home u)) db2 []"
    "post_fits P u post d" "can_create (w_disk w) (post_path u post)"
  shows "\<exists>v ks. process_post_cmd P conn post err w =
      Inr (error_after_send P (comm_error ERR_OK ''OK''),
        w\<lparr>w_link := Some (l\<lparr>link_db := db2\<rparr>),
          w_disk := (w_disk w)\<lparr>files := (files (w_disk w))(post_path u post \<mapsto> d), short_writes := ks\<rparr>,
          w_io := v\<rparr>) \<and>
    replied P conn ''File OK'' 7 (w_io w) v"
  using post_store_stores [OF assms(1), of "w\<lparr>w_link := Some (l\<lparr>link_db := db1\<rparr>)\<rparr>" "l\<lparr>link_db := db1\<rparr>" post u db2 d conn] assms(2,6-8)
  by (simp add: process_post_halves post_lookup_free [OF assms(1,3,4,5)])

lemma process_login_known:
  assumes "platform_ok P" "rng_ok (io_rng (w_io w))" "w_user w = None" "w_link w = Some l"
    "db_answers P l (login_query (username (login_user login)) (password (login_user login))) db'
      (user_row home uid adm # rs)" "arg_ok home" "int32 uid" "int32 adm"
  shows "\<exists>v. process_login_cmd P conn login err w =
      Inr (error_after_send P (comm_error ERR_OK ''Logged in successfully''),
        w\<lparr>w_user := Some \<lparr>fs_name = username (login_user login), fs_home = home,
             fs_is_admin = word_of_int adm, fs_id = uid\<rparr>,
          w_link := Some (l\<lparr>link_db := db'\<rparr>), w_io := v\<rparr>) \<and>
    replied P conn ''Logged in successfully'' 22 (w_io w) v"
proof -
  let ?u = "\<lparr>fs_name = username (login_user login), fs_home = home, fs_is_admin = word_of_int adm, fs_id = uid\<rparr>"
  let ?w = "w\<lparr>w_user := Some ?u, w_link := Some (l\<lparr>link_db := db'\<rparr>)\<rparr>"
  let ?e = "comm_error ERR_OK ''Logged in successfully''"
  have U: "allocator (plat_usable P)" using assms(1) by (simp add: platform_ok_def)
  have "user_identification_in_db (plat_usable P) (plat_exec P) (Some l) (username (login_user login))
      (password (login_user login)) fresh_user = Inr (EXPECTED_RESPONSE, ?u, l\<lparr>link_db := db'\<rparr>)"
    using user_identification_known [OF U _ refl, of l _ _ "plat_exec P" db' home uid adm rs fresh_user] assms(5-8)
    by (simp add: db_answers_def)
  then have "process_login_cmd P conn login err w = reply P ''Logged in successfully'' 22 conn ?e ?w"
    using assms(3,4) by (simp add: process_login_cmd_def Let_def EXPECTED_RESPONSE_def numeral_eq_Suc)
  moreover obtain v where "reply P ''Logged in successfully'' 22 conn ?e ?w =
      Inr (error_after_send P ?e, ?w\<lparr>w_io := v\<rparr>)" "replied P conn ''Logged in successfully'' 22 (w_io w) v"
    using assms(1,2) reply_sends [of P ?w "''Logged in successfully''" 22 conn ?e] by auto
  ultimately show ?thesis by auto
qed

lemma process_login_unknown:
  assumes "platform_ok P" "rng_ok (io_rng (w_io w))" "w_user w = None" "w_link w = Some l"
    "db_answers P l (login_query (username (login_user login)) (password (login_user login))) db' []"
  shows "\<exists>v. process_login_cmd P conn login err w =
      Inr (error_after_send P (comm_error ERR_USER_NOT_EXISTS ''Login failed''),
        w\<lparr>w_link := Some (l\<lparr>link_db := db'\<rparr>), w_io := v\<rparr>) \<and>
    replied P conn ''Login failed'' 12 (w_io w) v"
proof -
  let ?w = "w\<lparr>w_user := Some fresh_user, w_link := Some (l\<lparr>link_db := db'\<rparr>)\<rparr>"
  let ?e = "comm_error ERR_USER_NOT_EXISTS ''Login failed''"
  have U: "allocator (plat_usable P)" using assms(1) by (simp add: platform_ok_def)
  have "user_identification_in_db (plat_usable P) (plat_exec P) (Some l) (username (login_user login))
      (password (login_user login)) fresh_user = Inr (EMPTY_RESPONSE, fresh_user, l\<lparr>link_db := db'\<rparr>)"
    using user_identification_unknown [OF U _ refl, of l _ _ "plat_exec P" db' fresh_user] assms(5)
    by (simp add: db_answers_def)
  then have "process_login_cmd P conn login err w =
      bindE (reply P ''Login failed'' 12 conn ?e ?w) (\<lambda>(err, w). Inr (err, w\<lparr>w_user := None\<rparr>))"
    using assms(3,4) by (simp add: process_login_cmd_def Let_def EMPTY_RESPONSE_def numeral_eq_Suc)
  moreover obtain v where "reply P ''Login failed'' 12 conn ?e ?w =
      Inr (error_after_send P ?e, ?w\<lparr>w_io := v\<rparr>)" "replied P conn ''Login failed'' 12 (w_io w) v"
    using assms(1,2) reply_sends [of P ?w "''Login failed''" 12 conn ?e] by auto
  ultimately show ?thesis using assms(3) by (intro exI [of _ v]) simp
qed


section \<open>Properties\<close>

text \<open>
  A file that was posted is what a later \<open>get\<close> of its name returns: the post writes the
  decoded bytes under the home of the user, and the get answers with their encoding and size, when
  the database stored the alias and selects it again.
\<close>

theorem post_then_get:
  assumes "platform_ok P" "rng_ok (io_rng (w_io w))" "3 < plat_usable P 3"
    "w_user w = Some u" "w_link w = Some l"
    "db_answers P l (file_query (post_dest post) (fs_home u)) db1 []"
    "db_answers P (l\<lparr>link_db := db1\<rparr>) (alias_query (post_dest post) (fs_home u)) db2 []"
    "db_answers P (l\<lparr>link_db := db2\<rparr>) (file_query (post_dest post) (fs_home u)) db3
      ([Some (fs_home u @ ''/'' @ post_dest post)] # rs)"
    "post_fits P u post d" "can_create (w_disk w) (post_path u post)"
  shows "\<exists>e1 w1 w2. process_post_cmd P conn post err w = Inr (e1, w1) \<and>
    files (w_disk w1) (post_path u post) = Some d \<and>
    process_get_cmd P conn \<lparr>get_path = post_dest post\<rparr> err1 w1 = Inr (comm_error ERR_OK ''OK'', w2) \<and>
    replied P conn (raw_text d) (length d) (w_io w1) (w_io w2)"
proof -
  obtain v ks where p: "process_post_cmd P conn post err w =
      Inr (error_after_send P (comm_error ERR_OK ''OK''),
        w\<lparr>w_link := Some (l\<lparr>link_db := db2\<rparr>),
          w_disk := (w_disk w)\<lparr>files := (files (w_disk w))(post_path u post \<mapsto> d), short_writes := ks\<rparr>,
          w_io := v\<rparr>)" (is "_ = Inr (?e1, ?w1)")
    and r: "replied P conn ''File OK'' 7 (w_io w) v"
    using process_post_stores [OF assms(1,2,4-7,9,10)] by blast
  have path: "''.'' @ row_line [Some (fs_home u @ ''/'' @ post_dest post)] = post_path u post"
    by (simp add: row_line_def add_cell_def cell_text_def post_path_def)
  obtain v2 where "process_get_cmd P conn \<lparr>get_path = post_dest post\<rparr> err1 ?w1 =
      Inr (comm_error ERR_OK ''OK'', ?w1\<lparr>w_link := Some (l\<lparr>link_db := db2\<rparr>\<lparr>link_db := db3\<rparr>), w_io := v2\<rparr>)"
    "replied P conn (raw_text d) (length d) (w_io ?w1) v2"
    using process_get_found [OF assms(1), of ?w1 u "l\<lparr>link_db := db2\<rparr>" "\<lparr>get_path = post_dest post\<rparr>" db3
        "[Some (fs_home u @ ''/'' @ post_dest post)]" rs d conn err1] replied_rng [OF r] assms(3,4,8) path
    by auto
  with p show ?thesis
    by (intro exI [of _ ?e1] exI [of _ ?w1]
        exI [of _ "?w1\<lparr>w_link := Some (l\<lparr>link_db := db2\<rparr>\<lparr>link_db := db3\<rparr>), w_io := v2\<rparr>"]) simp
qed

text \<open>A platform for the witnesses: FIFOs, the small JSON library, a 64-bit allocator.\<close>

definition sample_platform :: "'db sql_engine \<Rightarrow> (jv, 'db) platform" where
  "sample_platform X = \<lparr>plat_transport = Fifo, plat_json = flat_json, plat_usable = granule_size,
     plat_junk = ZERO, plat_exec = X, plat_can_fork = True\<rparr>"


definition sample_disk :: disk where
  "sample_disk = \<lparr>files = (\<lambda>_. None), can_create = (\<lambda>_. True), short_writes = []\<rparr>"

definition sample_worker :: "'db \<Rightarrow> fs_user_t option \<Rightarrow> 'db worker" where
  "sample_worker db u = \<lparr>w_user = u, w_link = Some (init_sqlite_server db), w_disk = sample_disk,
     w_folders = [], w_io = sample_io\<rparr>"

definition sample_user :: fs_user_t where
  "sample_user = \<lparr>fs_name = ''ana'', fs_home = ''/fs/ana'', fs_is_admin = 0, fs_id = 7\<rparr>"

lemmas sample_defs = sample_platform_def sample_worker_def sample_disk_def sample_user_def

lemma sample_platform_simps [simp]:
  "plat_transport (sample_platform X) = Fifo" "plat_json (sample_platform X) = flat_json"
  "plat_usable (sample_platform X) = granule_size" "plat_junk (sample_platform X) = ZERO"
  "plat_exec (sample_platform X) = X" "plat_can_fork (sample_platform X)"
  "error_after_send (sample_platform X) e = comm_error NO_COMM_ERROR ''OK''"
  by (simp_all add: sample_platform_def error_after_send_def)

lemma sample_worker_simps [simp]:
  "w_user (sample_worker db u) = u" "w_link (sample_worker db u) = Some (init_sqlite_server db)"
  "w_disk (sample_worker db u) = sample_disk" "w_folders (sample_worker db u) = []"
  "w_io (sample_worker db u) = sample_io"
  by (simp_all add: sample_worker_def)

lemma platform_ok_sample [simp]: "platform_ok (sample_platform X)"
  by (simp add: platform_ok_def sample_platform_def)

text \<open>A database of aliases: the texts of the insertions it has run.\<close>

definition alias_engine :: "string list sql_engine" where
  "alias_engine db q =
     (if take 6 q = ''INSERT'' then (q # db, [])
      else (db, if alias_query ''x'' ''/fs/ana'' \<in> set db then [[Some ''/fs/ana/x'']] else []))"

lemma query_ok_sample:
  "query_ok (file_query ''x'' ''/fs/ana'')" "query_ok (alias_query ''x'' ''/fs/ana'')"
proof -
  have "query_ok q" if "q = butlast q @ '';''" "CHR '';'' \<notin> set (butlast q)" "nul_free (butlast q)"
    "length (butlast q) \<le> 100" "hd q \<noteq> CHR ''C''" for q
  proof -
    have "q \<noteq> SQL_CONNECTION_CLOSE_STR" using that(5) by (auto simp: SQL_CONNECTION_CLOSE_STR_def)
    with that(1-4) show ?thesis unfolding query_ok_def by blast
  qed
  note ok = this
  show "query_ok (file_query ''x'' ''/fs/ana'')" by (rule ok) code_simp+
  show "query_ok (alias_query ''x'' ''/fs/ana'')" by (rule ok) code_simp+
qed

theorem post_then_get_witness:
  "let P = sample_platform alias_engine; w = sample_worker [] (Some sample_user);
       post = \<lparr>post_data = ''104105'', post_dest = ''x'', post_size = 2\<rparr>
   in \<exists>e1 w1 w2. process_post_cmd P sample_conn post (comm_error 0 []) w = Inr (e1, w1) \<and>
    files (w_disk w1) (post_path sample_user post) = Some ''hi'' \<and>
    process_get_cmd P sample_conn \<lparr>get_path = post_dest post\<rparr> (comm_error 0 []) w1 =
      Inr (comm_error ERR_OK ''OK'', w2) \<and>
    replied P sample_conn (raw_text ''hi'') (length ''hi'') (w_io w1) (w_io w2)"
  unfolding Let_def
proof (rule post_then_get)
  let ?l = "init_sqlite_server [] :: string list sql_link"
  let ?q = "alias_query ''x'' ''/fs/ana''"
  have f: "take 6 (file_query ''x'' ''/fs/ana'') \<noteq> ''INSERT''" by code_simp
  have a: "take 6 ?q = ''INSERT''" by code_simp
  have r: "row_ok [Some ''/fs/ana/x'']" by code_simp
  show "w_link (sample_worker [] (Some sample_user)) = Some ?l" by (simp add: sample_defs)
  show "db_answers (sample_platform alias_engine) ?l
      (file_query (post_dest \<lparr>post_data = ''104105'', post_dest = ''x'', post_size = 2\<rparr>) (fs_home sample_user)) [] []"
    using f query_ok_sample by (simp add: db_answers_def sample_defs link_idle_def init_sqlite_server_def
        alias_engine_def rows_ok_def MAX_COLUMNS_def)
  show "db_answers (sample_platform alias_engine) (?l\<lparr>link_db := []\<rparr>)
      (alias_query (post_dest \<lparr>post_data = ''104105'', post_dest = ''x'', post_size = 2\<rparr>) (fs_home sample_user)) [?q] []"
    using a query_ok_sample by (simp add: db_answers_def sample_defs link_idle_def init_sqlite_server_def
        alias_engine_def rows_ok_def MAX_COLUMNS_def)
  show "db_answers (sample_platform alias_engine) (?l\<lparr>link_db := [?q]\<rparr>)
      (file_query (post_dest \<lparr>post_data = ''104105'', post_dest = ''x'', post_size = 2\<rparr>) (fs_home sample_user)) [?q]
      ([Some (fs_home sample_user @ ''/'' @ post_dest \<lparr>post_data = ''104105'', post_dest = ''x'', post_size = 2\<rparr>)] # [])"
    using f r query_ok_sample by (simp add: db_answers_def sample_defs link_idle_def init_sqlite_server_def
        alias_engine_def rows_ok_def MAX_COLUMNS_def)
next
  have "byte_text CHR ''h'' = ''104''" "byte_text CHR ''i'' = ''105''" by code_simp+
  then show "post_fits (sample_platform alias_engine) sample_user
      \<lparr>post_data = ''104105'', post_dest = ''x'', post_size = 2\<rparr> ''hi''"
    by (simp add: sample_defs granule_size_def post_fits_def alias_fits_def pair_fits_def)
  show "platform_ok (sample_platform alias_engine)" by (rule platform_ok_sample)
qed (simp_all add: sample_defs granule_size_def)


text \<open>
  A get of a file the database has and the disk does not crashes the worker: the contents are
  null, the size is that of the path, and \<open>encode_raw_data\<close> reads through the null pointer.
\<close>

theorem get_of_missing_file_crashes:
  assumes "platform_ok P" "w_user w = Some u" "w_link w = Some l"
    "db_answers P l (file_query (get_path cmd) (fs_home u)) db' (r # rs)"
    "files (w_disk w) (''.'' @ row_line r) = None"
  shows "process_get_cmd P conn cmd err w = Inl Null_deref"
  using assms by (rule process_get_missing)

theorem get_of_missing_file_crashes_witness:
  "process_get_cmd (sample_platform (\<lambda>db q. (db, [[Some ''/fs/ana/x'']]))) sample_conn \<lparr>get_path = ''x''\<rparr>
    (comm_error 0 []) (sample_worker () (Some sample_user)) = Inl Null_deref"
proof (rule get_of_missing_file_crashes)
  have "row_ok [Some ''/fs/ana/x'']" by code_simp
  then show "db_answers (sample_platform (\<lambda>db q. (db, [[Some ''/fs/ana/x'']]))) (init_sqlite_server ())
      (file_query (get_path \<lparr>get_path = ''x''\<rparr>) (fs_home sample_user)) () [[Some ''/fs/ana/x'']]"
    using query_ok_sample by (simp add: db_answers_def sample_defs link_idle_def init_sqlite_server_def
        rows_ok_def MAX_COLUMNS_def)
qed (simp_all add: sample_disk_def)

text \<open>The commands that have a handler, and those whose handler checks the session.\<close>

datatype command =
    Get command_get_t
  | Post command_post_t
  | Login command_login_t
  | Logout
  | New_user command_new_user_t
  | Change_pass command_change_pass_t

fun process_command ::
  "('j, 'db) platform \<Rightarrow> connection_t \<Rightarrow> command \<Rightarrow> comm_error_t \<Rightarrow> 'db worker \<Rightarrow> 'db handled" where
  "process_command P conn (Get c) = process_get_cmd P conn c"
| "process_command P conn (Post c) = process_post_cmd P conn c"
| "process_command P conn (Login c) = process_login_cmd P conn c"
| "process_command P conn Logout = process_logout_cmd P conn"
| "process_command P conn (New_user c) = process_new_user_cmd P conn c"
| "process_command P conn (Change_pass c) = process_change_pass_cmd P conn c"

fun is_login :: "command \<Rightarrow> bool" where
  "is_login (Login c) = True"
| "is_login c = False"

lemma process_command_refuses:
  "w_user w = None \<Longrightarrow> \<not> is_login c \<Longrightarrow> process_command P conn c err w = refuse P conn w"
  by (cases c) (simp_all add: get_guard.refuses post_guard.refuses logout_guard.refuses
      new_user_guard.refuses change_pass_guard.refuses)

lemma process_command_answers:
  assumes "platform_ok P" "rng_ok (io_rng (w_io w))"
  shows "returns (process_command P conn c err w) (\<lambda>(_, w'). answered P conn (w_io w) (w_io w'))"
proof -
  have weaken: "returns m Q \<Longrightarrow> (\<And>x. Q x \<Longrightarrow> R x) \<Longrightarrow> returns m R" for m :: "'b handled" and Q R
    by (simp add: returns_def)
  show ?thesis
    by (cases c; simp only: process_command.simps)
       (rule weaken [OF process_get_effect [OF assms]] weaken [OF process_post_effect [OF assms]]
          weaken [OF process_login_effect [OF assms]] weaken [OF process_logout_effect [OF assms]]
          weaken [OF process_new_user_effect [OF assms]] weaken [OF process_change_pass_effect [OF assms]],
        auto)+
qed

text \<open>
  C26: without a login, every other command is refused: the client gets \<open>NOT logged\<close>, and the
  database, the disk, the folders and the session are untouched.
\<close>

theorem logged_out_refused:
  assumes "platform_ok P" "rng_ok (io_rng (w_io w))" "w_user w = None" "\<not> is_login c"
  shows "\<exists>v. process_command P conn c err w =
      Inr (error_after_send P (comm_error ERR_USER_NOT_LOGGED ''NOT logged''), w\<lparr>w_io := v\<rparr>) \<and>
    replied P conn ''NOT logged'' 10 (w_io w) v"
  unfolding process_command_refuses [OF assms(3,4)] refuse_def
  using assms(1,2) by (rule reply_sends) simp

theorem logged_out_refused_witness:
  "let P = sample_platform (\<lambda>db q. (db, [])); w = sample_worker () None
   in \<exists>v. process_command P sample_conn (Get \<lparr>get_path = ''x''\<rparr>) (comm_error 0 []) w =
      Inr (error_after_send P (comm_error ERR_USER_NOT_LOGGED ''NOT logged''), w\<lparr>w_io := v\<rparr>) \<and>
    replied P sample_conn ''NOT logged'' 10 (w_io w) v"
  unfolding Let_def by (rule logged_out_refused) simp_all

text \<open>
  C16: one answer per request: whatever a handler does, when it returns it has sent exactly one
  data message on the connection, and nothing else.
\<close>

theorem one_answer_per_request:
  assumes "platform_ok P" "rng_ok (io_rng (w_io w))" "process_command P conn c err w = Inr (err', w')"
  shows "\<exists>s n b r. boundary_shape b \<and>
    w_io w' = emit (req_fd conn) (frame_bytes b (stringify (plat_json P) (MData s n))) ((w_io w)\<lparr>io_rng := r\<rparr>)"
  using returnsD [OF process_command_answers [OF assms(1,2)] assms(3)]
  unfolding answered_def replied_def by blast

theorem one_answer_per_request_witness:
  "\<exists>w' s n b r. process_command (sample_platform (\<lambda>db q. (db, []))) sample_conn Logout (comm_error 0 [])
      (sample_worker () (Some sample_user)) = Inr (comm_error 0 ''OK'', w') \<and> boundary_shape b \<and>
    w_io w' = emit 4 (frame_bytes b (stringify flat_json (MData s n))) (sample_io\<lparr>io_rng := r\<rparr>)"
proof -
  let ?P = "sample_platform (\<lambda>db q. (db :: unit, []))"
  let ?w = "sample_worker () (Some sample_user)"
  obtain v where v: "reply ?P ''Log out successful'' (length ''Log out successful'') sample_conn
      (comm_error ERR_OK ''OK'') ?w = Inr (comm_error NO_COMM_ERROR ''OK'', ?w\<lparr>w_io := v\<rparr>)"
    using reply_sends [of ?P ?w "''Log out successful''" "length ''Log out successful''" sample_conn
        "comm_error ERR_OK ''OK''"] by auto
  have h: "process_command ?P sample_conn Logout (comm_error 0 []) ?w =
      Inr (comm_error 0 ''OK'', ?w\<lparr>w_io := v, w_user := None\<rparr>)"
    unfolding process_command.simps process_logout_cmd_def sample_worker_simps check_logged_in bindE_simps
    using v by (simp add: NO_COMM_ERROR_def)
  have r: "rng_ok (io_rng (w_io ?w))" by simp
  from one_answer_per_request [OF platform_ok_sample r h] h show ?thesis
    by (auto simp: sample_conn_def)
qed


lemma error_after_send_fifo: "plat_transport P = Fifo \<Longrightarrow> err_code (error_after_send P e) = 0"
  by (simp add: error_after_send_def NO_COMM_ERROR_def)

lemma handlers_fifo_code:
  assumes "platform_ok P" "rng_ok (io_rng (w_io w))" "plat_transport P = Fifo"
  shows "returns (process_command P conn c err w) (\<lambda>(e, _). err_code e = 0)"
proof (cases "w_user w = None \<and> \<not> is_login c")
  case True
  then show ?thesis
    by (auto simp: process_command_refuses assms error_after_send_fifo intro!: returns_refuse)
next
  case False
  note unfolds = process_get_cmd_def process_post_cmd_def process_login_cmd_def process_logout_cmd_def
    process_new_user_cmd_def process_change_pass_cmd_def create_user_folder_def
  show ?thesis
  proof (cases c)
    case (Login x)
    then show ?thesis using assms
      by (auto simp: process_login_cmd_def Let_def split_beta error_after_send_fifo simp del: not_None_eq
          intro!: handler_rules)
  qed (use False assms in \<open>auto simp: unfolds check_logged_in Let_def split_beta error_after_send_fifo
        ERR_OK_def intro!: handler_rules\<close>)
qed

text \<open>
  In the FIFO build no failure of a command reaches the caller: every handler that returns
  leaves error code 0, because sending the answer overwrites the code the handler has set.
\<close>

theorem fifo_error_codes_lost:
  assumes "platform_ok P" "rng_ok (io_rng (w_io w))" "plat_transport P = Fifo"
    "process_command P conn c err w = Inr (err', w')"
  shows "err_code err' = 0"
  using returnsD [OF handlers_fifo_code [OF assms(1-3)] assms(4)] by simp

theorem fifo_error_codes_lost_witness:
  "\<exists>w'. process_command (sample_platform (\<lambda>db q. (db, []))) sample_conn Logout (comm_error 0 [])
      (sample_worker () None) = Inr (comm_error NO_COMM_ERROR ''OK'', w') \<and>
    err_code (comm_error NO_COMM_ERROR ''OK'') = 0"
proof -
  let ?P = "sample_platform (\<lambda>db q. (db :: unit, []))"
  let ?w = "sample_worker () None"
  have r: "rng_ok (io_rng (w_io ?w))" by simp
  obtain v where h: "process_command ?P sample_conn Logout (comm_error 0 []) ?w =
      Inr (comm_error NO_COMM_ERROR ''OK'', ?w\<lparr>w_io := v\<rparr>)"
    using logout_guard.refuse_effect [OF platform_ok_sample r, where conn = sample_conn and err = "comm_error 0 []"] by auto
  from fifo_error_codes_lost [OF platform_ok_sample r _ h] h show ?thesis by auto
qed

text \<open>
  A login opens the session exactly when the database has a row for the name and password: the
  user of the row, with its home, number and administrator flag, is the user of the session. With
  no row the session stays closed, and a second login changes nothing.
\<close>

theorem login_opens_session:
  assumes "platform_ok P" "rng_ok (io_rng (w_io w))" "w_link w = Some l"
    "db_answers P l (login_query (username (login_user login)) (password (login_user login))) db' rows"
    "rows = [] \<or> (\<exists>rs. rows = user_row home uid adm # rs)" "arg_ok home" "int32 uid" "int32 adm"
  shows "\<exists>e w'. process_login_cmd P conn login err w = Inr (e, w') \<and>
    w_user w' = (if w_user w \<noteq> None then w_user w else if rows = [] then None
      else Some \<lparr>fs_name = username (login_user login), fs_home = home,
                 fs_is_admin = word_of_int adm, fs_id = uid\<rparr>)"
proof (cases "w_user w = None")
  case False
  then obtain v where "process_login_cmd P conn login err w =
      Inr (error_after_send P (comm_error ERR_USER_ALREADY_LOGGED ''Already logged in''), w\<lparr>w_io := v\<rparr>)"
    unfolding process_login_cmd_def
    using reply_sends [OF assms(1,2), of "''You are already logged in''" "length ''You are already logged in''"
        conn "comm_error ERR_USER_ALREADY_LOGGED ''Already logged in''"] by auto
  with False show ?thesis by simp
next
  case None: True
  show ?thesis
  proof (cases "rows = []")
    case True
    with process_login_unknown [OF assms(1,2) None assms(3), of login db' conn err] assms(4) None
    show ?thesis by auto
  next
    case False
    with assms(5) obtain rs where "rows = user_row home uid adm # rs" by blast
    with process_login_known [OF assms(1,2) None assms(3), of login db' home uid adm rs conn err] assms(4,6-8) None
    show ?thesis by auto
  qed
qed

theorem login_opens_session_witness:
  "\<exists>e w'. process_login_cmd (sample_platform one_user_engine) sample_conn
      \<lparr>login_user = \<lparr>username = ''ana'', password = ''x'', admin = 0\<rparr>\<rparr> (comm_error 0 [])
      (sample_worker 0 None) = Inr (e, w') \<and>
    w_user w' = Some \<lparr>fs_name = ''ana'', fs_home = ''/fs/ana'', fs_is_admin = 1, fs_id = 7\<rparr>"
proof -
  have "db_answers (sample_platform one_user_engine) (init_sqlite_server 0) (login_query ''ana'' ''x'') 1
      [user_row ''/fs/ana'' 7 1]"
    using query_ok_ana rows_ok_ana
    by (simp add: db_answers_def link_idle_def init_sqlite_server_def one_user_engine_def)
  with login_opens_session [of "sample_platform one_user_engine" "sample_worker 0 None" "init_sqlite_server 0"
      "\<lparr>login_user = \<lparr>username = ''ana'', password = ''x'', admin = 0\<rparr>\<rparr>" 1 "[user_row ''/fs/ana'' 7 1]"
      "''/fs/ana''" 7 1 sample_conn "comm_error 0 []"]
  show ?thesis by (simp add: arg_ok_def int32_def)
qed

end
