(* ===== verification/Address.thy ===== *)
theory Address
  imports Channel
begin

text \<open>
  \<open>comm.addr.fifo.c\<close> and \<open>comm.addr.socket.c\<close>: reading an address from a URL. The address is
  written as the scan goes, so a call that fails leaves what it wrote before. The scan stops at a
  colon, a newline, the end of the text or the character 255, which as a signed \<open>char\<close> equals
  \<open>EOF\<close>.
\<close>

definition ADDRESS_OK :: nat where "ADDRESS_OK = 0"
definition ADDRESS_INVALID_PROTOCOL :: nat where "ADDRESS_INVALID_PROTOCOL = 1"
definition ADDRESS_MISSING_PROTOCOL_TOKEN :: nat where "ADDRESS_MISSING_PROTOCOL_TOKEN = 2"
definition ADDRESS_MISSING_PORT_TOKEN :: nat where "ADDRESS_MISSING_PORT_TOKEN = 3"
definition ADDRESS_INVALID_PORT :: nat where "ADDRESS_INVALID_PORT = 4"
definition ADDRESS_NULL_FIFO :: nat where "ADDRESS_NULL_FIFO = 3"
definition ADDRESS_NULL_SOCKET :: nat where "ADDRESS_NULL_SOCKET = 5"

lemmas address_codes = ADDRESS_OK_def ADDRESS_INVALID_PROTOCOL_def ADDRESS_MISSING_PROTOCOL_TOKEN_def
  ADDRESS_MISSING_PORT_TOKEN_def ADDRESS_INVALID_PORT_def

abbreviation COLON :: char where "COLON \<equiv> CHR '':''"
abbreviation SLASH :: char where "SLASH \<equiv> CHR ''/''"

definition goes_on :: "char \<Rightarrow> bool" where
  "goes_on c \<longleftrightarrow> c \<noteq> COLON \<and> c \<noteq> NEWLINE \<and> c \<noteq> CHR 0xFF \<and> c \<noteq> ZERO"

text \<open>
  Both parsers up to the host: the code, the address and the text left at \<open>offset\<close>, or the code of
  the failure.
\<close>

definition read_protocol_host ::
  "char \<Rightarrow> string \<Rightarrow> comm_addr_t \<Rightarrow> (nat \<times> comm_addr_t) + (comm_addr_t \<times> string)" where
  "read_protocol_host first u address =
     (let address = address\<lparr>valid := True, url := u\<rparr> in
      if u = [] \<or> hd u \<noteq> first then Inl (ADDRESS_INVALID_PROTOCOL, address)
      else
        (let proto = takeWhile goes_on u; offset = dropWhile goes_on u in
         if offset = [] \<or> hd offset \<noteq> COLON
         then Inl (ADDRESS_MISSING_PROTOCOL_TOKEN, address\<lparr>valid := False\<rparr>)
         else if take 2 (tl offset) \<noteq> [SLASH, SLASH]
         then Inl (ADDRESS_MISSING_PROTOCOL_TOKEN, address\<lparr>valid := False\<rparr>)
         else
           (let start = drop 2 (tl offset) in
            Inr (address\<lparr>protocol := proto, host := takeWhile goes_on start\<rparr>, dropWhile goes_on start))))"

text \<open>A null address is \<open>None\<close>.\<close>

definition address_from_url_fifo :: "string \<Rightarrow> comm_addr_t option \<Rightarrow> nat \<times> comm_addr_t option" where
  "address_from_url_fifo u address =
     (case address of
        None \<Rightarrow> (ADDRESS_NULL_FIFO, None)
      | Some a \<Rightarrow>
          (case read_protocol_host (CHR ''f'') u a of
             Inl (code, a') \<Rightarrow> (code, Some a')
           | Inr (a', _) \<Rightarrow> (ADDRESS_OK, Some a')))"

text \<open>The port: digits up to the end of the line.\<close>

definition port_goes_on :: "char \<Rightarrow> bool" where
  "port_goes_on c \<longleftrightarrow> c \<noteq> ZERO \<and> c \<noteq> NEWLINE \<and> c \<noteq> CHR 0xFF"

definition address_from_url_socket :: "string \<Rightarrow> comm_addr_t option \<Rightarrow> nat \<times> comm_addr_t option" where
  "address_from_url_socket u address =
     (case address of
        None \<Rightarrow> (ADDRESS_NULL_SOCKET, None)
      | Some a \<Rightarrow>
          (case read_protocol_host (CHR ''s'') u a of
             Inl (code, a') \<Rightarrow> (code, Some a')
           | Inr (a', offset) \<Rightarrow>
               if offset = [] \<or> hd offset \<noteq> COLON then (ADDRESS_MISSING_PORT_TOKEN, Some a')
               else if list_all is_digit (takeWhile port_goes_on (tl offset))
               then (ADDRESS_OK, Some (a'\<lparr>extra_port := Some (atoi (tl offset) mod 2 ^ 32)\<rparr>))
               else (ADDRESS_INVALID_PORT, Some (a'\<lparr>valid := False\<rparr>))))"

definition address_from_url :: "transport \<Rightarrow> string \<Rightarrow> comm_addr_t option \<Rightarrow> nat \<times> comm_addr_t option" where
  "address_from_url T = (case T of Fifo \<Rightarrow> address_from_url_fifo | Socket \<Rightarrow> address_from_url_socket)"

section \<open>Reading back what the programs write\<close>

text \<open>The URLs of \<open>listen_connections\<close>.\<close>

definition server_url :: "transport \<Rightarrow> string \<Rightarrow> nat \<Rightarrow> string" where
  "server_url T name port =
     (case T of Fifo \<Rightarrow> ''fifo://'' @ name
      | Socket \<Rightarrow> ''socket://'' @ name @ '':'' @ show_int (to_int32 (int port)))"

definition host_name :: "string \<Rightarrow> bool" where
  "host_name s \<longleftrightarrow> list_all goes_on s"

lemma takeWhile_goes_on:
  "host_name s \<Longrightarrow> takeWhile goes_on (s @ COLON # t) = s" "host_name s \<Longrightarrow> takeWhile goes_on s = s"
  "host_name s \<Longrightarrow> dropWhile goes_on (s @ COLON # t) = COLON # t" "host_name s \<Longrightarrow> dropWhile goes_on s = []"
  by (induction s) (simp_all add: host_name_def goes_on_def)

lemma read_protocol_host_ok:
  assumes "p \<noteq> []" "host_name p" "host_name h" "r = [] \<or> hd r = COLON"
  shows "read_protocol_host (hd p) (p @ ''://'' @ h @ r) a =
    Inr (a\<lparr>valid := True, url := p @ ''://'' @ h @ r, protocol := p, host := h\<rparr>, r)"
proof -
  have "takeWhile goes_on (h @ r) = h" "dropWhile goes_on (h @ r) = r"
    using assms(3,4) by (cases r; simp add: takeWhile_goes_on)+
  with assms(1,2) show ?thesis
    by (simp add: read_protocol_host_def takeWhile_goes_on Let_def)
qed

lemma port_digits: "list_all is_digit (takeWhile port_goes_on (show_int (int n)))"
  by (auto simp: list_all_iff show_int_def dest!: set_takeWhileD show_nat_digits)

lemma server_url_read:
  assumes "host_name name" "port < 2 ^ 31"
  shows "\<exists>a'. address_from_url T (server_url T name port) (Some a) = (ADDRESS_OK, Some a') \<and>
    valid a' \<and> host a' = name \<and> url a' = server_url T name port \<and>
    (T = Socket \<longrightarrow> extra_port a' = Some (int port))"
proof (cases T)
  case Fifo
  have "read_protocol_host (CHR ''f'') (''fifo://'' @ name) a =
    Inr (a\<lparr>valid := True, url := ''fifo://'' @ name, protocol := ''fifo'', host := name\<rparr>, [])"
    using read_protocol_host_ok [of "''fifo''" name "[]" a] assms(1) by (simp add: host_name_def goes_on_def)
  with Fifo show ?thesis
    by (simp add: address_from_url_def address_from_url_fifo_def server_url_def)
next
  case Socket
  have small: "int32 (int port)" using assms(2) by (simp add: int32_def)
  have "read_protocol_host (CHR ''s'') (''socket://'' @ name @ COLON # show_int (int port)) a =
    Inr (a\<lparr>valid := True, url := ''socket://'' @ name @ COLON # show_int (int port),
      protocol := ''socket'', host := name\<rparr>, COLON # show_int (int port))"
    using read_protocol_host_ok [of "''socket''" name "COLON # show_int (int port)" a] assms(1)
    by (simp add: host_name_def goes_on_def)
  then show ?thesis
    using Socket port_digits assms(2) small
    by (simp add: address_from_url_def address_from_url_socket_def server_url_def)
qed

text \<open>
  The address a server builds from its configuration is read back with the configured host and,
  in the socket build, port, and is valid.
\<close>

theorem address_roundtrip:
  assumes "host_name name" "port < 2 ^ 31"
  shows "\<exists>a'. address_from_url T (server_url T name port) (Some a) = (ADDRESS_OK, Some a') \<and>
    valid a' \<and> host a' = name \<and> url a' = server_url T name port \<and>
    (T = Socket \<longrightarrow> extra_port a' = Some (int port))"
  using assms by (rule server_url_read)

theorem address_roundtrip_witness:
  "\<exists>a'. address_from_url Socket (server_url Socket ''google'' 9000) (Some sample_addr) = (ADDRESS_OK, Some a') \<and>
    valid a' \<and> host a' = ''google'' \<and> url a' = server_url Socket ''google'' 9000 \<and>
    (Socket = Socket \<longrightarrow> extra_port a' = Some (int 9000))"
  by (rule address_roundtrip) (simp_all add: host_name_def goes_on_def)

lemma read_protocol_host_Inr:
  assumes "read_protocol_host c u a = Inr (a', rest)" "goes_on c"
  shows "\<exists>p h. u = p @ ''://'' @ h @ rest \<and> p \<noteq> [] \<and> hd p = c \<and> host a' = h \<and> valid a'"
proof -
  let ?p = "takeWhile goes_on u" and ?o = "dropWhile goes_on u"
  have u: "u \<noteq> []" "hd u = c" "?o \<noteq> []" "hd ?o = COLON" "take 2 (tl ?o) = [SLASH, SLASH]"
    and a: "a' = a\<lparr>valid := True, url := u, protocol := ?p, host := takeWhile goes_on (drop 2 (tl ?o))\<rparr>"
    and r: "rest = dropWhile goes_on (drop 2 (tl ?o))"
    using assms(1) by (auto simp: read_protocol_host_def Let_def split: if_splits)
  have "?o = ''://'' @ drop 2 (tl ?o)"
    using u(3,4,5) append_take_drop_id [of 2 "tl ?o"] by (cases ?o) simp_all
  then have "u = ?p @ ''://'' @ host a' @ rest"
    using takeWhile_dropWhile_id [of goes_on u] by (simp add: a r)
  moreover have "?p \<noteq> []" "hd ?p = c"
    using u(1,2) assms(2) by (cases u; simp)+
  ultimately show ?thesis using a by auto
qed

lemma read_protocol_host_Inl:
  "read_protocol_host c u a = Inl (ADDRESS_INVALID_PROTOCOL, a') \<Longrightarrow> valid a'"
  "read_protocol_host c u a \<noteq> Inl (ADDRESS_OK, a')"
  by (auto simp: read_protocol_host_def Let_def address_codes split: if_splits)

text \<open>
  An address is accepted only when the URL is the build's protocol letter, text without colon,
  \<open>://\<close> and a host; but a URL of another protocol is refused with \<open>valid\<close> set, which is what
  \<open>connection_open\<close> looks at.
\<close>

theorem address_accepts:
  assumes "address_from_url T u (Some a) = (code, Some a')"
  shows "(code = ADDRESS_OK \<longrightarrow> (\<exists>p h r. u = p @ ''://'' @ h @ r \<and> p \<noteq> [] \<and>
      hd p = (case T of Fifo \<Rightarrow> CHR ''f'' | Socket \<Rightarrow> CHR ''s'') \<and> host a' = h \<and> valid a')) \<and>
    (code = ADDRESS_INVALID_PROTOCOL \<longrightarrow> valid a')"
proof (cases T)
  case Fifo
  with assms have f: "address_from_url_fifo u (Some a) = (code, Some a')" by (simp add: address_from_url_def)
  show ?thesis
  proof (cases "read_protocol_host (CHR ''f'') u a")
    case (Inl x)
    with f have "x = (code, a')" by (cases x) (simp add: address_from_url_fifo_def)
    with Inl show ?thesis using read_protocol_host_Inl by blast
  next
    case (Inr x)
    with f obtain rest where "x = (a', rest)" "code = ADDRESS_OK"
      by (cases x) (simp add: address_from_url_fifo_def)
    with Inr read_protocol_host_Inr [of "CHR ''f''" u a a' rest] Fifo show ?thesis
      by (auto simp: goes_on_def address_codes)
  qed
next
  case Socket
  with assms have f: "address_from_url_socket u (Some a) = (code, Some a')" by (simp add: address_from_url_def)
  show ?thesis
  proof (cases "read_protocol_host (CHR ''s'') u a")
    case (Inl x)
    with f have "x = (code, a')" by (cases x) (simp add: address_from_url_socket_def)
    with Inl show ?thesis using read_protocol_host_Inl by blast
  next
    case (Inr x)
    obtain a1 rest where x: "x = (a1, rest)" by (cases x)
    with Inr have "\<exists>p h. u = p @ ''://'' @ h @ rest \<and> p \<noteq> [] \<and> hd p = CHR ''s'' \<and> host a1 = h \<and> valid a1"
      by (intro read_protocol_host_Inr) (simp_all add: goes_on_def)
    moreover have "code = ADDRESS_OK \<longrightarrow> host a' = host a1 \<and> valid a' = valid a1" "code \<noteq> ADDRESS_INVALID_PROTOCOL"
      using f Inr x by (auto simp: address_from_url_socket_def address_codes split: if_splits)
    ultimately show ?thesis using Socket by auto
  qed
qed

theorem address_accepts_witness:
  "(ADDRESS_OK = ADDRESS_OK \<longrightarrow> (\<exists>p h r. ''fifo://google'' = p @ ''://'' @ h @ r \<and> p \<noteq> [] \<and>
      hd p = (case Fifo of Fifo \<Rightarrow> CHR ''f'' | Socket \<Rightarrow> CHR ''s'') \<and>
      host (sample_addr\<lparr>host := ''google''\<rparr>) = h \<and> valid (sample_addr\<lparr>host := ''google''\<rparr>))) \<and>
    (ADDRESS_OK = ADDRESS_INVALID_PROTOCOL \<longrightarrow> valid (sample_addr\<lparr>host := ''google''\<rparr>))"
  by (rule address_accepts [where a = sample_addr])
     (simp add: address_from_url_def address_from_url_fifo_def read_protocol_host_def goes_on_def sample_addr_def)

end
