(* ===== verification/Connection.thy ===== *)
theory Connection
  imports Address
begin

text \<open>
  Opening, accepting and closing connections: \<open>comm.connection.*.c\<close> and \<open>comm_listen\<close>,
  \<open>comm_accept\<close> of \<open>comm.read.*.c\<close>. In the FIFO build the client and the server make two FIFOs,
  named after both, and exchange the client's URL three times; opening a FIFO waits for the other
  end, so the two run in step and each side is a function of the bytes the other one writes. These,
  the descriptors, and what exists in the file system are the record \<open>fifo_env\<close>; what a call
  creates, writes and removes is the record \<open>fifo_acts\<close>. In the socket build the system calls that
  may fail are the record \<open>socket_env\<close>.
\<close>

definition CONNECTION_OK :: int where "CONNECTION_OK = 0"
definition ERR_NULL_CONNECTION :: int where "ERR_NULL_CONNECTION = 200"
definition ERR_CORRUPT_DATA :: int where "ERR_CORRUPT_DATA = 201"
definition ERR_INVALID_ADDRESS :: int where "ERR_INVALID_ADDRESS = 202"
definition ERR_SERVER_OFFLINE :: int where "ERR_SERVER_OFFLINE = 203"
definition ERR_SERVER_BUSY :: int where "ERR_SERVER_BUSY = 204"
definition ERR_FIFO_FAIL_CONNECTION :: int where "ERR_FIFO_FAIL_CONNECTION = 300"
definition ERR_FIFO_CANT_OPEN_RESPONSE :: int where "ERR_FIFO_CANT_OPEN_RESPONSE = 301"
definition ERR_FIFO_CANT_OPEN_REQUEST :: int where "ERR_FIFO_CANT_OPEN_REQUEST = 302"
definition ERR_NO_SUCH_HOST :: int where "ERR_NO_SUCH_HOST = 401"
definition ERR_SOCKET_NOT_CONNECTED :: int where "ERR_SOCKET_NOT_CONNECTED = 402"

definition ERR_FIFO_NOT_CREATED :: int where "ERR_FIFO_NOT_CREATED = 3000"
definition ERR_FIFO_CANT_OPEN_CONNECTION_FILE :: int where "ERR_FIFO_CANT_OPEN_CONNECTION_FILE = 3001"
definition ERR_FIFO_INVALID_ADDRESS :: int where "ERR_FIFO_INVALID_ADDRESS = 3002"
definition ERR_FIFO_REQUEST_CANT_CREATE :: int where "ERR_FIFO_REQUEST_CANT_CREATE = 3003"
definition ERR_FIFO_REQUEST_CANT_OPEN :: int where "ERR_FIFO_REQUEST_CANT_OPEN = 3005"
definition ERR_FIFO_AUTHENTICATION_FAIL :: int where "ERR_FIFO_AUTHENTICATION_FAIL = 3006"

definition ERR_SOCKET_NOT_CREATED :: int where "ERR_SOCKET_NOT_CREATED = 3100"
definition ERR_SOCKET_NOT_BINDED :: int where "ERR_SOCKET_NOT_BINDED = 3101"
definition ERR_SOCKET_NOT_LISTENED :: int where "ERR_SOCKET_NOT_LISTENED = 3102"
definition ERR_SOCKET_NOT_ACCEPTED :: int where "ERR_SOCKET_NOT_ACCEPTED = 3103"
definition ERR_SOCKET_ADDRESS_NOT_CREATED :: int where "ERR_SOCKET_ADDRESS_NOT_CREATED = 3104"

record fifo_env =
  fe_exists :: "string \<Rightarrow> bool"
  fe_opens :: "string \<Rightarrow> int option"   \<comment> \<open>the descriptor, unless \<open>open\<close> fails\<close>
  fe_bytes :: "string \<Rightarrow> string"       \<comment> \<open>what the other end writes to the FIFO\<close>

record fifo_acts =
  fa_created :: "string list"
  fa_written :: "(string \<times> string) list"
  fa_removed :: "string list"

definition no_acts :: fifo_acts where
  "no_acts = \<lparr>fa_created = [], fa_written = [], fa_removed = []\<rparr>"

text \<open>\<open>/tmp/a.b.fifo\<close> and \<open>/tmp/a.in.fifo\<close>\<close>

definition pair_fifo :: "string \<Rightarrow> string \<Rightarrow> string" where
  "pair_fifo a b = ''/tmp/'' @ a @ ''.'' @ b @ ''.fifo''"

definition input_fifo :: "string \<Rightarrow> string" where
  "input_fifo a = ''/tmp/'' @ a @ ''.in'' @ ''.fifo''"

definition create_fifo :: "string \<Rightarrow> fifo_acts \<Rightarrow> fifo_acts" where
  "create_fifo p acts = acts\<lparr>fa_created := fa_created acts @ [p]\<rparr>"

definition write_fifo :: "string \<Rightarrow> string \<Rightarrow> fifo_acts \<Rightarrow> fifo_acts" where
  "write_fifo p s acts = acts\<lparr>fa_written := fa_written acts @ [(p, s)]\<rparr>"

section \<open>Reading the URL\<close>

text \<open>\<open>do read(fd, b + n, 1); while (b[n++] != 0)\<close>\<close>

function read_to_zero :: "string \<Rightarrow> buf \<Rightarrow> nat \<Rightarrow> (string \<times> buf \<times> nat) result" where
  "read_to_zero s b n =
     bindE (read1 s b n) (\<lambda>(s', b').
     bindE (peek b' n) (\<lambda>c.
     if c \<noteq> ZERO then read_to_zero s' b' (Suc n) else Inr (s', b', Suc n)))"
  by pat_completeness auto
termination
  by (relation "measure (\<lambda>(s, b, n). length b - n)")
    (auto simp: peek_def dest!: read1_length split: if_splits)

declare read_to_zero.simps [simp del]

text \<open>\<open>do read(fd, b + n, 1); while (n < limit && b[n++] != 0)\<close>\<close>

function read_ack :: "string \<Rightarrow> buf \<Rightarrow> nat \<Rightarrow> nat \<Rightarrow> buf result" where
  "read_ack s b n limit =
     bindE (read1 s b n) (\<lambda>(s', b').
     if n < limit then
       bindE (peek b' n) (\<lambda>c. if c \<noteq> ZERO then read_ack s' b' (Suc n) limit else Inr b')
     else Inr b')"
  by pat_completeness auto
termination
  by (relation "measure (\<lambda>(s, b, n, limit). limit - n)") auto

declare read_ack.simps [simp del]

section \<open>FIFO build\<close>

text \<open>\<open>connection_open\<close> on a non-null connection.\<close>

definition connection_open_fifo ::
  "(nat \<Rightarrow> nat) \<Rightarrow> char \<Rightarrow> fifo_env \<Rightarrow> connection_t option \<Rightarrow>
   (int \<times> connection_t option \<times> fifo_acts) result" where
  "connection_open_fifo U junk E connection =
     (case connection of
        None \<Rightarrow> Inr (ERR_NULL_CONNECTION, None, no_acts)
      | Some conn0 \<Rightarrow>
     let conn = conn0\<lparr>conn_state := CONNECTION_STATE_CLOSED\<rparr>;
         done = (\<lambda>code c acts. Inr (code, Some c, acts));
         cli = host (client_addr conn); srv = host (server_addr conn);
         u = url (client_addr conn); url_len = length u
     in if \<not> valid (client_addr conn) \<or> \<not> valid (server_addr conn)
        then done ERR_INVALID_ADDRESS conn no_acts
        else
          bindE (sprintf_into U (length ''/tmp/'' + length cli + 1 + length srv + length ''.fifo'' + 1)
            (pair_fifo srv cli)) (\<lambda>response_fifo.
          if fe_exists E response_fifo then done ERR_FIFO_FAIL_CONNECTION conn no_acts
          else
            let acts = create_fifo response_fifo no_acts in
            bindE (sprintf_into U (length ''/tmp/'' + length cli + 1 + length srv + length ''.fifo'' + 1)
              (pair_fifo cli srv)) (\<lambda>request_fifo.
            bindE (sprintf_into U (length ''/tmp/'' + length srv + length ''.in'' + length ''.fifo'' + 1)
              (input_fifo srv)) (\<lambda>file.
            let conn = conn\<lparr>connection_file := file\<rparr> in
            if \<not> fe_exists E file then done ERR_SERVER_OFFLINE conn acts
            else if fe_opens E file = None then done ERR_SERVER_BUSY conn acts
            else
              bindE (write_one_by_one (u @ [ZERO]) url_len) (\<lambda>hello.
              let acts = write_fifo file hello acts in
              case fe_opens E response_fifo of
                None \<Rightarrow> done ERR_FIFO_CANT_OPEN_RESPONSE conn acts
              | Some fd \<Rightarrow>
                  let conn = conn\<lparr>res_fd := fd\<rparr> in
                  bindE (read_ack (fe_bytes E response_fifo) (replicate (U (url_len + 1)) junk) 0 url_len) (\<lambda>buffer.
                  bindE (strcmp_buf buffer (u @ [ZERO])) (\<lambda>same.
                  if \<not> same then done ERR_CORRUPT_DATA conn acts
                  else
                    (case fe_opens E request_fifo of
                       None \<Rightarrow> done ERR_FIFO_CANT_OPEN_REQUEST conn acts
                     | Some fd2 \<Rightarrow>
                         bindE (write_one_by_one (u @ [ZERO]) (url_len + 1)) (\<lambda>ok.
                         done CONNECTION_OK
                           (conn\<lparr>req_fd := fd2, conn_state := CONNECTION_STATE_OPEN,
                                 sense := COMMUNICATION_CLIENT_SERVER\<rparr>)
                           (write_fifo request_fifo ok acts))))))))))"

text \<open>\<open>can_make\<close>: whether \<open>mkfifo\<close> succeeds.\<close>

definition comm_listen_fifo ::
  "(nat \<Rightarrow> nat) \<Rightarrow> fifo_env \<Rightarrow> bool \<Rightarrow> connection_t \<Rightarrow> comm_error_t \<Rightarrow>
   (connection_t \<times> comm_error_t \<times> fifo_acts) result" where
  "comm_listen_fifo U E can_make conn error =
     bindE (sprintf_into U (length ''/tmp/'' + length (host (server_addr conn)) + length ''.in'' + length ''.fifo'' + 1)
       (input_fifo (host (server_addr conn)))) (\<lambda>file.
     if \<not> fe_exists E file \<and> \<not> can_make
     then Inr (conn, comm_error ERR_FIFO_NOT_CREATED ''FIFO creation failed'', no_acts)
     else Inr (conn\<lparr>connection_file := file, conn_state := CONNECTION_STATE_IDLE,
                    sense := COMMUNICATION_SERVER_CLIENT\<rparr>,
               comm_error NO_COMM_ERROR ''Listen Sucessful'',
               if fe_exists E file then no_acts else create_fifo file no_acts))"

text \<open>What \<open>NEW(comm_addr_t)\<close> holds is the argument \<open>fresh\<close>.\<close>

definition comm_accept_fifo ::
  "(nat \<Rightarrow> nat) \<Rightarrow> comm_addr_t \<Rightarrow> fifo_env \<Rightarrow> connection_t \<Rightarrow> comm_error_t \<Rightarrow>
   (connection_t \<times> comm_error_t \<times> fifo_acts) result" where
  "comm_accept_fifo U fresh E conn error =
     (if fe_opens E (connection_file conn) = None
      then Inr (conn, comm_error ERR_FIFO_CANT_OPEN_CONNECTION_FILE ''Opening connection file failed'', no_acts)
      else
        bindE (read_to_zero (fe_bytes E (connection_file conn)) (replicate BUFFER_LENGTH ZERO) 0) (\<lambda>(_, buffer, read_bytes).
        bindE (cstr buffer) (\<lambda>u.
        case address_from_url_fifo u (Some fresh) of
          (code, None) \<Rightarrow> Inl Null_deref
        | (code, Some client_aux) \<Rightarrow>
            if code \<noteq> ADDRESS_OK
            then Inr (conn, comm_error ERR_FIFO_INVALID_ADDRESS
                   ''Threeway handshake failed. Invalid Address'', no_acts)
            else
              let srv = host (server_addr conn); cli = host client_aux in
              bindE (sprintf_into U (length ''/tmp/'' + length cli + 1 + length srv + length ''.fifo'' + 1)
                (pair_fifo cli srv)) (\<lambda>request_fifo.
              if fe_exists E request_fifo
              then Inr (conn, comm_error ERR_FIFO_REQUEST_CANT_CREATE ''Request FIFO creation failed'', no_acts)
              else
                let acts = create_fifo request_fifo no_acts in
                bindE (sprintf_into U (length ''/tmp/'' + length cli + 1 + length srv + length ''.fifo'' + 1)
                  (pair_fifo srv cli)) (\<lambda>response_fifo.
                case fe_opens E response_fifo of
                  None \<Rightarrow> Inl Aborted
                | Some fd \<Rightarrow>
                    bindE (write_one_by_one buffer (read_bytes + 1)) (\<lambda>echo.
                    let acts = write_fifo response_fifo echo acts; conn = conn\<lparr>req_fd := fd\<rparr> in
                    case fe_opens E request_fifo of
                      None \<Rightarrow> Inr (conn, comm_error ERR_FIFO_REQUEST_CANT_OPEN ''Request FIFO open failed'', acts)
                    | Some fd2 \<Rightarrow>
                        bindE (read_ack (fe_bytes E request_fifo) (replicate BUFFER_LENGTH ZERO) 0 read_bytes) (\<lambda>buffer2.
                        bindE (strcmp_buf buffer2 (u @ [ZERO])) (\<lambda>same.
                        if \<not> same
                        then Inr (conn, comm_error ERR_FIFO_AUTHENTICATION_FAIL
                               ''Threeway handshake failed Authentication'', acts)
                        else
                          bindE (cstr buffer2) (\<lambda>u2.
                          case address_from_url_fifo u2 (Some fresh) of
                            (_, None) \<Rightarrow> Inl Null_deref
                          | (_, Some a) \<Rightarrow>
                              Inr (conn\<lparr>client_addr := a, res_fd := fd2, conn_state := CONNECTION_STATE_OPEN\<rparr>,
                                   comm_error NO_COMM_ERROR ''Accept Sucessful'', acts))))))))))"

definition connection_close_fifo ::
  "(nat \<Rightarrow> nat) \<Rightarrow> fifo_env \<Rightarrow> connection_t option \<Rightarrow>
   (int \<times> connection_t option \<times> fifo_acts) result" where
  "connection_close_fifo U E connection =
     (case connection of
        None \<Rightarrow> Inr (ERR_NULL_CONNECTION, None, no_acts)
      | Some conn \<Rightarrow>
          let cli = host (client_addr conn); srv = host (server_addr conn) in
          bindE (sprintf_into U (length ''/tmp/'' + length cli + length srv + length ''.fifo'' + 2)
            (pair_fifo cli srv)) (\<lambda>request_fifo.
          bindE (sprintf_into U (length ''/tmp/'' + length srv + length cli + length ''.fifo'' + 2)
            (pair_fifo srv cli)) (\<lambda>response_fifo.
          Inr (CONNECTION_OK,
               Some (conn\<lparr>res_fd := 0, req_fd := 0, conn_state := CONNECTION_STATE_CLOSED\<rparr>),
               no_acts\<lparr>fa_removed := filter (fe_exists E) (remdups [request_fifo, response_fifo])\<rparr>))))"


section \<open>The handshake\<close>

lemma write_url: "nul_free u \<Longrightarrow> length u \<le> sz \<Longrightarrow> write_one_by_one (u @ ZERO # t) sz = Inr (u @ [ZERO])"
  using write_loop_string [of u 0 t sz "[]"] by (simp add: write_one_by_one_def)

lemma read1_at: "read1 (c # s) (p @ x # b) (length p) = Inr (s, p @ c # b)"
  by (simp add: read1_def poke_def)

lemma peek_at: "peek (p @ x # b) (length p) = Inr x"
  by (simp add: peek_def)

lemma read_to_zero_url:
  "nul_free u \<Longrightarrow> length u < length b \<Longrightarrow>
    \<exists>t. read_to_zero (u @ ZERO # rest) (p @ b) (length p) =
      Inr (rest, p @ u @ ZERO # t, length p + length u + 1)"
proof (induction u arbitrary: p b)
  case Nil
  then obtain x b' where b: "b = x # b'" by (cases b) auto
  show ?case
    by (subst read_to_zero.simps) (simp add: b read1_at peek_at)
next
  case (Cons c u)
  then obtain x b' where b: "b = x # b'" by (cases b) auto
  from Cons.IH [of b' "p @ [c]"] Cons.prems b obtain t where
    "read_to_zero (u @ ZERO # rest) (p @ c # b') (Suc (length p)) =
      Inr (rest, p @ c # u @ ZERO # t, Suc (length p + length u + 1))" by auto
  with Cons.prems show ?case
    by (subst read_to_zero.simps) (simp add: b read1_at peek_at)
qed

lemma read_ack_url:
  "nul_free u \<Longrightarrow> length u < length b \<Longrightarrow> length p + length u \<le> limit \<Longrightarrow>
    \<exists>t. read_ack (u @ ZERO # rest) (p @ b) (length p) limit = Inr (p @ u @ ZERO # t)"
proof (induction u arbitrary: p b)
  case Nil
  then obtain x b' where b: "b = x # b'" by (cases b) auto
  show ?case
    by (subst read_ack.simps) (simp add: b read1_at peek_at)
next
  case (Cons c u)
  then obtain x b' where b: "b = x # b'" by (cases b) auto
  from Cons.IH [of b' "p @ [c]"] Cons.prems b obtain t where
    "read_ack (u @ ZERO # rest) (p @ c # b') (Suc (length p)) limit = Inr (p @ c # u @ ZERO # t)" by auto
  with Cons.prems show ?case
    by (subst read_ack.simps) (simp add: b read1_at peek_at)
qed

lemma pair_fifo_length: "length (pair_fifo a b) = length ''/tmp/'' + length a + 1 + length b + length ''.fifo''"
  by (simp add: pair_fifo_def)

lemma input_fifo_length: "length (input_fifo a) = length ''/tmp/'' + length a + length ''.in'' + length ''.fifo''"
  by (simp add: input_fifo_def)

lemma connection_open_fifo_ok:
  assumes "allocator U" "valid (client_addr conn)" "valid (server_addr conn)"
    "cli = host (client_addr conn)" "srv = host (server_addr conn)" "u = url (client_addr conn)" "nul_free u"
    "\<not> fe_exists E (pair_fifo srv cli)" "fe_exists E (input_fifo srv)"
    "fe_opens E (input_fifo srv) \<noteq> None" "fe_opens E (pair_fifo srv cli) = Some r"
    "fe_opens E (pair_fifo cli srv) = Some q" "fe_bytes E (pair_fifo srv cli) = u @ [ZERO]"
  shows "connection_open_fifo U junk E (Some conn) =
    Inr (CONNECTION_OK,
      Some (conn\<lparr>conn_state := CONNECTION_STATE_OPEN, connection_file := input_fifo srv, res_fd := r, req_fd := q,
        sense := COMMUNICATION_CLIENT_SERVER\<rparr>),
      \<lparr>fa_created = [pair_fifo srv cli],
       fa_written = [(input_fifo srv, u @ [ZERO]), (pair_fifo cli srv, u @ [ZERO])], fa_removed = []\<rparr>)"
proof -
  have "length u < length (replicate (U (length u + 1)) junk)"
    using allocator_less [OF assms(1), of "length u" "length u + 1"] by simp
  then obtain t where t: "read_ack (u @ [ZERO]) (replicate (U (length u + 1)) junk) 0 (length u) =
      Inr (u @ ZERO # t)"
    using read_ack_url [of u "replicate (U (length u + 1)) junk" "[]" "length u" "[]"] assms(7) by auto
  show ?thesis
    using assms(2-13) t strcmp_buf_strings [of u u t "[]"] write_url [of u _ "[]"]
    by (simp add: connection_open_fifo_def Let_def sprintf_into_fits [OF assms(1)] pair_fifo_length
        input_fifo_length create_fifo_def write_fifo_def no_acts_def)
qed

lemma comm_accept_fifo_ok:
  assumes "allocator U" "nul_free u" "length u < BUFFER_LENGTH" "srv = host (server_addr conn)"
    "address_from_url_fifo u (Some fresh) = (ADDRESS_OK, Some a)"
    "fe_opens E (connection_file conn) \<noteq> None" "fe_bytes E (connection_file conn) = u @ [ZERO]"
    "\<not> fe_exists E (pair_fifo (host a) srv)" "fe_opens E (pair_fifo srv (host a)) = Some q"
    "fe_opens E (pair_fifo (host a) srv) = Some r" "fe_bytes E (pair_fifo (host a) srv) = u @ [ZERO]"
  shows "comm_accept_fifo U fresh E conn err =
    Inr (conn\<lparr>client_addr := a, req_fd := q, res_fd := r, conn_state := CONNECTION_STATE_OPEN\<rparr>,
      comm_error NO_COMM_ERROR ''Accept Sucessful'',
      \<lparr>fa_created = [pair_fifo (host a) srv], fa_written = [(pair_fifo srv (host a), u @ [ZERO])],
       fa_removed = []\<rparr>)"
proof -
  have len: "length u < length (replicate BUFFER_LENGTH ZERO)" using assms(3) by simp
  obtain t where t: "read_to_zero (u @ [ZERO]) (replicate BUFFER_LENGTH ZERO) 0 =
      Inr ([], u @ ZERO # t, length u + 1)"
    using read_to_zero_url [OF assms(2) len, of "[]" "[]"] by auto
  obtain t2 where t2: "read_ack (u @ [ZERO]) (replicate BUFFER_LENGTH ZERO) 0 (length u + 1) = Inr (u @ ZERO # t2)"
    using read_ack_url [OF assms(2) len, of "[]" "length u + 1" "[]"] by auto
  show ?thesis
    using assms(2-11) t t2 strcmp_buf_strings [of u u t2 "[]"] write_url [of u "length u + 1 + 1" t]
    by (simp add: comm_accept_fifo_def Let_def sprintf_into_fits [OF assms(1)] pair_fifo_length
        cstr_append create_fifo_def write_fifo_def no_acts_def ADDRESS_OK_def)
qed


section \<open>Socket build\<close>

record socket_env =
  se_socket :: "int option"
  se_host_known :: bool
  se_connects :: bool
  se_binds :: bool
  se_listens :: bool
  se_accept :: "int option"
  se_bytes :: string   \<comment> \<open>what the accepted client writes\<close>

text \<open>The code, the connection and what is written to the socket.\<close>

definition connection_open_socket ::
  "socket_env \<Rightarrow> connection_t \<Rightarrow> (int \<times> connection_t \<times> string) result" where
  "connection_open_socket E conn =
     (case se_socket E of
        None \<Rightarrow> Inr (ERR_SOCKET_NOT_CREATED, conn, [])
      | Some fd \<Rightarrow>
          if \<not> se_host_known E then Inr (ERR_NO_SUCH_HOST, conn, [])
          else if extra_port (server_addr conn) = None then Inl Null_deref
          else if \<not> se_connects E then Inr (ERR_SOCKET_NOT_CONNECTED, conn, [])
          else
            let u = url (client_addr conn) in
            bindE (write_one_by_one (u @ [ZERO]) (length u)) (\<lambda>s.
            Inr (CONNECTION_OK,
              conn\<lparr>req_fd := fd, res_fd := fd, conn_state := CONNECTION_STATE_OPEN,
                   sense := COMMUNICATION_CLIENT_SERVER\<rparr>, s)))"

text \<open>
  \<open>malloc(floorf(log10(fd)) + 1)\<close> is the number of digits of \<open>fd\<close>; \<open>bzero\<close> clears ten bytes. The
  logarithm of 0 is converted out of range.
\<close>

definition comm_listen_socket ::
  "(nat \<Rightarrow> nat) \<Rightarrow> socket_env \<Rightarrow> connection_t \<Rightarrow> comm_error_t \<Rightarrow> (connection_t \<times> comm_error_t) result" where
  "comm_listen_socket U E conn error =
     (if extra_port (server_addr conn) = None then Inl Null_deref
      else case se_socket E of
        None \<Rightarrow> Inr (conn, comm_error ERR_SOCKET_NOT_CREATED ''cant create socket'')
      | Some fd \<Rightarrow>
          if \<not> se_binds E then Inr (conn, comm_error ERR_SOCKET_NOT_BINDED ''cant bind socket'')
          else if \<not> se_listens E then Inr (conn, comm_error ERR_SOCKET_NOT_LISTENED ''cant listen socket'')
          else if fd \<le> 0 then Inl Out_of_bounds
          else if U (length (show_int fd)) < 10 then Inl Out_of_bounds
          else
            bindE (sprintf_into U (length (show_int fd)) (show_int fd)) (\<lambda>file.
            Inr (conn\<lparr>connection_file := file, conn_state := CONNECTION_STATE_IDLE\<rparr>, comm_error 0 ''OK'')))"

text \<open>Neither failure returns: \<open>error\<close> is overwritten at the end. A failed \<open>accept\<close> reads nothing.\<close>

definition comm_accept_socket ::
  "comm_addr_t \<Rightarrow> socket_env \<Rightarrow> connection_t \<Rightarrow> comm_error_t \<Rightarrow> (connection_t \<times> comm_error_t) result" where
  "comm_accept_socket fresh E conn error =
     (let (fd, bytes) = (case se_accept E of None \<Rightarrow> (-1, []) | Some fd \<Rightarrow> (fd, se_bytes E)) in
      bindE (read_to_zero bytes (replicate BUFFER_LENGTH ZERO) 0) (\<lambda>(_, buffer, _).
      bindE (cstr buffer) (\<lambda>u.
      case address_from_url_socket u (Some fresh) of
        (_, None) \<Rightarrow> Inl Null_deref
      | (_, Some a) \<Rightarrow>
          Inr (conn\<lparr>client_addr := a, res_fd := fd, req_fd := fd, conn_state := CONNECTION_STATE_OPEN\<rparr>,
               comm_error 0 ''OK''))))"

definition connection_close_socket :: "connection_t option \<Rightarrow> (int \<times> connection_t) result" where
  "connection_close_socket connection =
     (case connection of
        None \<Rightarrow> Inl Null_deref
      | Some conn \<Rightarrow> Inr (CONNECTION_OK, conn\<lparr>conn_state := CONNECTION_STATE_CLOSED\<rparr>))"

section \<open>Either build\<close>

definition connection_open ::
  "transport \<Rightarrow> (nat \<Rightarrow> nat) \<Rightarrow> char \<Rightarrow> fifo_env \<Rightarrow> socket_env \<Rightarrow> connection_t \<Rightarrow> (int \<times> connection_t) result" where
  "connection_open T U junk E S conn =
     (case T of
        Fifo \<Rightarrow> bindE (connection_open_fifo U junk E (Some conn)) (\<lambda>(e, c, _).
          case c of None \<Rightarrow> Inl Null_deref | Some c \<Rightarrow> Inr (e, c))
      | Socket \<Rightarrow> bindE (connection_open_socket S conn) (\<lambda>(e, c, _). Inr (e, c)))"

definition connection_close ::
  "transport \<Rightarrow> (nat \<Rightarrow> nat) \<Rightarrow> fifo_env \<Rightarrow> connection_t \<Rightarrow> connection_t result" where
  "connection_close T U E conn =
     (case T of
        Fifo \<Rightarrow> bindE (connection_close_fifo U E (Some conn)) (\<lambda>(_, c, _).
          case c of None \<Rightarrow> Inl Null_deref | Some c \<Rightarrow> Inr c)
      | Socket \<Rightarrow> bindE (connection_close_socket (Some conn)) (\<lambda>(_, c). Inr c))"

lemma returns_True: "returns m (\<lambda>x. True)"
  by (simp add: returns_def)

lemma returns_parts:
  "(\<And>x. returns (f x) Q) \<Longrightarrow> returns (bindE m f) Q"
  "returns n Q \<Longrightarrow> returns n' Q \<Longrightarrow> returns (if b then n else n') Q"
  "returns n Q \<Longrightarrow> (\<And>y. returns (g y) Q) \<Longrightarrow> returns (case z of None \<Rightarrow> n | Some y \<Rightarrow> g y) Q"
  "Q x \<Longrightarrow> returns (Inr x) Q"
  by (auto simp: returns_def bindE_Inr_iff split: option.splits)

lemma connection_close_closed:
  assumes "connection_close T U E conn = Inr c"
  shows "is_connection_closed c"
proof -
  have "returns (connection_close T U E conn) is_connection_closed"
    unfolding connection_close_def connection_close_fifo_def connection_close_socket_def Let_def option.case bindE_assoc
    by (cases T) (simp_all add: is_connection_closed_def returns_True)
  from returnsD [OF this assms] show ?thesis .
qed

lemma connection_close_returns:
  assumes "allocator U"
  shows "\<exists>c'. connection_close T U E c = Inr c' \<and> is_connection_closed c'"
proof -
  have "\<exists>c'. connection_close T U E c = Inr c'"
    by (cases T) (simp_all add: connection_close_def connection_close_fifo_def connection_close_socket_def Let_def
        sprintf_into_fits [OF assms] pair_fifo_length)
  then show ?thesis using connection_close_closed by blast
qed

lemma open_failure_closed:
  assumes "connection_open_fifo U junk E (Some conn) = Inr (e, c, acts)" "e \<noteq> 0"
  shows "\<exists>c'. c = Some c' \<and> is_connection_closed c'"
proof -
  have "returns (connection_open_fifo U junk E (Some conn))
      (\<lambda>(e, c, acts). e \<noteq> 0 \<longrightarrow> (\<exists>c'. c = Some c' \<and> is_connection_closed c'))"
    unfolding connection_open_fifo_def Let_def option.case
    by (intro returns_parts) (simp_all add: is_connection_closed_def CONNECTION_OK_def)
  from returnsD [OF this assms(1)] assms(2) show ?thesis by simp
qed

section \<open>Properties\<close>

text \<open>
  C20: In the FIFO build a client and a server that follow the handshake connect: both ends are open,
  the server knows the client by the address of the URL, the request FIFO of the one is the response
  FIFO of the other, and what each side is assumed to read is what the other side wrote.
\<close>

theorem handshake_connects:
  assumes "allocator U" "allocator V" "valid (client_addr conn)" "valid (server_addr conn)"
    "u = url (client_addr conn)" "nul_free u" "length u < BUFFER_LENGTH"
    "address_from_url_fifo u (Some fresh) = (ADDRESS_OK, Some a)" "host a = host (client_addr conn)"
    "srv = host (server_addr conn)" "host (server_addr sconn) = srv" "connection_file sconn = input_fifo srv"
    "request = pair_fifo (host a) srv" "response = pair_fifo srv (host a)"
    "\<not> fe_exists E response" "fe_exists E (input_fifo srv)" "fe_opens E (input_fifo srv) \<noteq> None"
    "fe_opens E response = Some r" "fe_opens E request = Some q" "fe_bytes E response = u @ [ZERO]"
    "fe_opens F (input_fifo srv) \<noteq> None" "fe_bytes F (input_fifo srv) = u @ [ZERO]" "\<not> fe_exists F request"
    "fe_opens F response = Some q'" "fe_opens F request = Some r'" "fe_bytes F request = u @ [ZERO]"
  shows "\<exists>cc sc ca sa. connection_open_fifo U junk E (Some conn) = Inr (CONNECTION_OK, Some cc, ca) \<and>
    comm_accept_fifo V fresh F sconn err = Inr (sc, comm_error NO_COMM_ERROR ''Accept Sucessful'', sa) \<and>
    is_connection_open cc \<and> is_connection_open sc \<and> client_addr sc = a \<and>
    req_fd cc = q \<and> res_fd cc = r \<and> req_fd sc = q' \<and> res_fd sc = r' \<and>
    fa_written ca = [(input_fifo srv, fe_bytes F (input_fifo srv)), (request, fe_bytes F request)] \<and>
    fa_written sa = [(response, fe_bytes E response)] \<and>
    fa_created ca = [response] \<and> fa_created sa = [request]"
  using connection_open_fifo_ok [OF assms(1,3,4,9,10,5,6), of E r q junk]
    comm_accept_fifo_ok [OF assms(2,6,7) assms(11) [symmetric] assms(8), of F q' r' err] assms(12-26)
  by (simp add: is_connection_open_def)

definition sample_fifo_env :: "string list \<Rightarrow> fifo_env" where
  "sample_fifo_env paths = \<lparr>fe_exists = (\<lambda>p. p \<in> set paths), fe_opens = (\<lambda>p. Some 3),
     fe_bytes = (\<lambda>p. ''fifo://anon'' @ [ZERO])\<rparr>"

definition sample_client :: connection_t where
  "sample_client = sample_conn\<lparr>client_addr := sample_addr\<lparr>url := ''fifo://anon'', host := ''anon''\<rparr>\<rparr>"

theorem handshake_connects_witness:
  "let sconn = sample_conn\<lparr>connection_file := input_fifo ''google''\<rparr>;
       a = sample_addr\<lparr>url := ''fifo://anon'', host := ''anon''\<rparr>
   in \<exists>cc sc ca sa. connection_open_fifo exact_size ZERO (sample_fifo_env [input_fifo ''google'']) (Some sample_client)
      = Inr (CONNECTION_OK, Some cc, ca) \<and>
    comm_accept_fifo exact_size sample_addr (sample_fifo_env []) sconn (comm_error 0 [])
      = Inr (sc, comm_error NO_COMM_ERROR ''Accept Sucessful'', sa) \<and>
    is_connection_open cc \<and> is_connection_open sc \<and> client_addr sc = a \<and>
    req_fd cc = 3 \<and> res_fd cc = 3 \<and> req_fd sc = 3 \<and> res_fd sc = 3 \<and>
    fa_written ca = [(input_fifo ''google'', fe_bytes (sample_fifo_env []) (input_fifo ''google'')),
      (pair_fifo (host a) ''google'', fe_bytes (sample_fifo_env []) (pair_fifo (host a) ''google''))] \<and>
    fa_written sa = [(pair_fifo ''google'' (host a),
      fe_bytes (sample_fifo_env [input_fifo ''google'']) (pair_fifo ''google'' (host a)))] \<and>
    fa_created ca = [pair_fifo ''google'' (host a)] \<and> fa_created sa = [pair_fifo (host a) ''google'']"
  unfolding Let_def
  by (rule handshake_connects [where u = "''fifo://anon''"])
     (simp_all add: sample_fifo_env_def sample_client_def sample_conn_def sample_addr_def BUFFER_LENGTH_def
       address_from_url_fifo_def read_protocol_host_def goes_on_def pair_fifo_def input_fifo_def)

text \<open>
  A client that finds the server offline has already made its response FIFO and does not remove
  it: every later attempt with the same name fails with \<open>ERR_FIFO_FAIL_CONNECTION\<close>, also when
  the server is there.
\<close>

theorem offline_attempt_blocks_retry:
  assumes "allocator U" "valid (client_addr conn)" "valid (server_addr conn)"
    "response = pair_fifo (host (server_addr conn)) (host (client_addr conn))"
    "\<not> fe_exists E response" "\<not> fe_exists E (input_fifo (host (server_addr conn)))"
    "fe_exists F response"
  shows "\<exists>c. connection_open_fifo U junk E (Some conn) =
      Inr (ERR_SERVER_OFFLINE, Some c, \<lparr>fa_created = [response], fa_written = [], fa_removed = []\<rparr>) \<and>
    connection_open_fifo U junk F (Some c) =
      Inr (ERR_FIFO_FAIL_CONNECTION, Some c, no_acts)"
  using assms(2-7)
  by (intro exI [of _ "conn\<lparr>conn_state := CONNECTION_STATE_CLOSED,
      connection_file := input_fifo (host (server_addr conn))\<rparr>"])
     (simp add: connection_open_fifo_def Let_def sprintf_into_fits [OF assms(1)] pair_fifo_length
        input_fifo_length create_fifo_def no_acts_def)

theorem offline_attempt_blocks_retry_witness:
  "\<exists>c. connection_open_fifo exact_size ZERO (sample_fifo_env []) (Some sample_conn) =
      Inr (ERR_SERVER_OFFLINE, Some c, \<lparr>fa_created = [pair_fifo ''google'' ''google''], fa_written = [], fa_removed = []\<rparr>) \<and>
    connection_open_fifo exact_size ZERO (sample_fifo_env [pair_fifo ''google'' ''google'', input_fifo ''google'']) (Some c) =
      Inr (ERR_FIFO_FAIL_CONNECTION, Some c, no_acts)"
  by (rule offline_attempt_blocks_retry)
     (simp_all add: sample_fifo_env_def sample_conn_def sample_addr_def)

text \<open>
  Closing a connection made by the handshake removes exactly the two FIFOs the two sides have
  created for it, and leaves the connection closed.
\<close>

theorem close_removes_fifos:
  assumes "allocator U" "cli = host (client_addr conn)" "srv = host (server_addr conn)" "cli \<noteq> srv"
    "fe_exists E (pair_fifo cli srv)" "fe_exists E (pair_fifo srv cli)"
  shows "\<exists>c acts. connection_close_fifo U E (Some conn) = Inr (CONNECTION_OK, Some c, acts) \<and>
    is_connection_closed c \<and> set (fa_removed acts) = {pair_fifo cli srv, pair_fifo srv cli} \<and>
    fa_created acts = [] \<and> fa_written acts = []"
  using assms
  by (auto simp: connection_close_fifo_def Let_def sprintf_into_fits pair_fifo_length is_connection_closed_def
      no_acts_def)

theorem close_removes_fifos_witness:
  "\<exists>c acts. connection_close_fifo exact_size (sample_fifo_env [pair_fifo ''anon'' ''google'', pair_fifo ''google'' ''anon''])
      (Some sample_client) = Inr (CONNECTION_OK, Some c, acts) \<and>
    is_connection_closed c \<and> set (fa_removed acts) = {pair_fifo ''anon'' ''google'', pair_fifo ''google'' ''anon''} \<and>
    fa_created acts = [] \<and> fa_written acts = []"
  by (rule close_removes_fifos)
     (simp_all add: sample_fifo_env_def sample_client_def sample_conn_def sample_addr_def)

text \<open>
  In the socket build a failed \<open>accept\<close> is reported as success: \<open>comm_accept\<close> returns code 0 and
  an open connection on descriptor -1.
\<close>

theorem socket_accept_hides_failure:
  assumes "se_accept E = None"
  shows "\<exists>c. comm_accept_socket fresh E conn err = Inr (c, comm_error 0 ''OK'') \<and>
    is_connection_open c \<and> req_fd c = -1 \<and> res_fd c = -1"
proof -
  have "read_to_zero [] (replicate BUFFER_LENGTH ZERO) 0 = Inr ([], replicate BUFFER_LENGTH ZERO, 1)"
    by (subst read_to_zero.simps) (simp add: read1_def peek_def BUFFER_LENGTH_def)
  moreover have "cstr (replicate BUFFER_LENGTH ZERO) = Inr []"
    by (simp add: cstr_def BUFFER_LENGTH_def)
  ultimately show ?thesis using assms
    by (simp add: comm_accept_socket_def address_from_url_socket_def read_protocol_host_def is_connection_open_def
        split: sum.splits prod.splits)
qed

theorem socket_accept_hides_failure_witness:
  "\<exists>c. comm_accept_socket sample_addr \<lparr>se_socket = None, se_host_known = True, se_connects = True,
      se_binds = True, se_listens = True, se_accept = None, se_bytes = []\<rparr> sample_conn (comm_error 7 [])
      = Inr (c, comm_error 0 ''OK'') \<and> is_connection_open c \<and> req_fd c = -1 \<and> res_fd c = -1"
  by (rule socket_accept_hides_failure) simp

end
