(* ===== verification/Status.thy ===== *)
theory Status
  imports C_Text
begin

text \<open>
  \<open>monitor/headers/monitor.h\<close> and the set-up of \<open>server/monitor_helper.c\<close>: the one message the
  server's processes and the monitor share, the codes it carries, and the two system-wide names behind
  it, the shared memory object and the semaphore.
\<close>

section \<open>Status\<close>

record shared_data_t =
  sd_worker :: int
  sd_thread :: int
  sd_status :: int

definition STATUS_OK :: int where "STATUS_OK = 2"
definition STATUS_WARN :: int where "STATUS_WARN = 3"
definition STATUS_ERROR :: int where "STATUS_ERROR = 1"
definition STATUS_IDLE :: int where "STATUS_IDLE = 4"
definition STATUS_DOWN :: int where "STATUS_DOWN = -1"

section \<open>Names in the system\<close>

definition SHMOBJ_PATH :: string where "SHMOBJ_PATH = ''/shmtpsoipc''"
definition SEM_PATH :: string where "SEM_PATH = ''/semtpsoipc''"

text \<open>What exists in the system, and whether this process has the segment mapped (\<open>shared_msg\<close> set).\<close>

record ipc =
  shm_objects :: "string set"
  semaphores :: "string set"
  mapped :: bool

text \<open>
  \<open>shm_ok\<close>: whether \<open>shm_open\<close> succeeds. The test for a failed \<open>mmap\<close> compares with null, which
  \<open>mmap\<close> never returns: a failed mapping is taken for a mapping.
\<close>

definition init_monitor :: "bool \<Rightarrow> ipc \<Rightarrow> int \<times> ipc" where
  "init_monitor shm_ok s =
     (if \<not> shm_ok then (2, s)
      else (0, s\<lparr>shm_objects := insert SHMOBJ_PATH (shm_objects s), semaphores := insert SEM_PATH (semaphores s),
                 mapped := True\<rparr>))"

text \<open>The handler of \<open>SIGINT\<close>, and \<open>exit_monitor\<close>: the names are removed and the process ends.\<close>

definition signal_callback_handler :: "ipc \<Rightarrow> ipc" where
  "signal_callback_handler s =
     s\<lparr>shm_objects := shm_objects s - {SEM_PATH}, semaphores := semaphores s - {SEM_PATH}, mapped := False\<rparr>"

definition exit_monitor :: "ipc \<Rightarrow> ipc" where
  "exit_monitor s = signal_callback_handler s"

text \<open>
  A server that is stopped leaves its shared memory behind: the handler removes the semaphore, but
  unlinks the memory by the name of the semaphore.
\<close>

theorem shared_memory_left_behind:
  assumes "init_monitor True s = (code, s1)"
  shows "code = 0 \<and> SHMOBJ_PATH \<in> shm_objects (exit_monitor s1) \<and> SEM_PATH \<notin> semaphores (exit_monitor s1)"
  using assms
  by (auto simp: init_monitor_def exit_monitor_def signal_callback_handler_def SHMOBJ_PATH_def SEM_PATH_def)

theorem shared_memory_left_behind_witness:
  "let s1 = \<lparr>shm_objects = {SHMOBJ_PATH}, semaphores = {SEM_PATH}, mapped = True\<rparr>
   in 0 = (0 :: int) \<and> SHMOBJ_PATH \<in> shm_objects (exit_monitor s1) \<and> SEM_PATH \<notin> semaphores (exit_monitor s1)"
  unfolding Let_def
  by (rule shared_memory_left_behind [of "\<lparr>shm_objects = {}, semaphores = {}, mapped = False\<rparr>"])
     (simp add: init_monitor_def)

end
