(* ===== verification/Server.thy ===== *)
theory Server
  imports Responder Connection Status
begin

text \<open>
  \<open>server/main.c\<close>, \<open>post_status\<close> of \<open>server/monitor_helper.c\<close>: the thread that answers one request
  (\<open>server_responder\<close>) and the loop of a worker process, one per connection, that reads requests,
  grows the table of threads and starts them (\<open>listen_connections\<close>). The threads take a mutex
  around the handling of a request, so a thread is one step; which thread goes next, and when
  relative to the loop, is open: \<open>worker_step\<close> is a relation.

  The build is the default one, without \<open>__LOGGING__\<close>, where the \<open>LOG_*\<close> macros only print.
\<close>

section \<open>The process\<close>

text \<open>
  A worker process: the state the handlers use, the connection, the process number, and what its
  shared segment has held, newest last (\<open>None\<close> when it is not mapped).
\<close>

record 'db process =
  p_worker :: "'db worker"
  p_conn :: connection_t
  p_pid :: int
  p_shared :: "shared_data_t list option"

definition post_status :: "int \<Rightarrow> int \<Rightarrow> int \<Rightarrow> 'db process \<Rightarrow> 'db process" where
  "post_status worker thread status p =
     (case p_shared p of
        None \<Rightarrow> p
      | Some h \<Rightarrow> p\<lparr>p_shared := Some (h @ [\<lparr>sd_worker = worker, sd_thread = thread, sd_status = status\<rparr>])\<rparr>)"

lemma post_status_simps [simp]:
  "p_worker (post_status a b c p) = p_worker p"
  "p_conn (post_status a b c p) = p_conn p"
  "p_pid (post_status a b c p) = p_pid p"
  by (simp_all add: post_status_def split: option.splits)

section \<open>Answering a request\<close>

text \<open>\<open>data.d * 2\<close> on the bits of a double: the exponent grows, at its ends the value saturates or shifts.\<close>

definition double_twice :: "64 word \<Rightarrow> 64 word" where
  "double_twice d =
     (let e = double_exponent d; sign = unat d div 2 ^ 63 * 2 ^ 63 in
      if e = 2047 then d
      else if e = 2046 then of_nat (sign + 2047 * 2 ^ 52)
      else if e = 0 then of_nat (sign + 2 * (unat d mod 2 ^ 52))
      else of_nat (unat d + 2 ^ 52))"

text \<open>
  \<open>data.str + 2\<close>: the string at that place of the block of \<open>strlen + 1\<close> bytes the parser made.
\<close>

definition string_from_2 :: "(nat \<Rightarrow> nat) \<Rightarrow> char \<Rightarrow> string \<Rightarrow> string result" where
  "string_from_2 U junk s =
     cstr (drop 2 (s @ ZERO # replicate (U (length s + 1) - (length s + 1)) junk))"

definition io_call ::
  "(io \<Rightarrow> (comm_error_t \<times> io) result) \<Rightarrow> 'db worker \<Rightarrow> (comm_error_t \<times> 'db worker) result" where
  "io_call f w = bindE (f (w_io w)) (\<lambda>(err, v). Inr (err, w\<lparr>w_io := v\<rparr>))"

text \<open>
  The part of \<open>server_responder\<close> under the mutex: the dispatch on the kind of the request. \<open>err\<close> is
  the fresh error block. The result says whether the client asks to close.
\<close>

definition dispatch ::
  "('j, 'db) platform \<Rightarrow> connection_t \<Rightarrow> parse_result_t \<Rightarrow> comm_error_t \<Rightarrow> 'db worker \<Rightarrow>
   (comm_error_t \<times> 'db worker) result" where
  "dispatch P conn r err w =
     (let T = plat_transport P; J = plat_json P; U = plat_usable P in
      case pdata r of
        PInt i \<Rightarrow> io_call (send_int T J U (to_int32 (i * 2)) conn err) w
      | PDouble d \<Rightarrow> io_call (send_double T J U (double_twice d) conn err) w
      | PStr s \<Rightarrow>
          bindE (string_from_2 U (plat_junk P) s) (\<lambda>t. io_call (send_string T J U t conn err) w)
      | PGet c \<Rightarrow> process_get_cmd P conn c err w
      | PPost c \<Rightarrow> process_post_cmd P conn c err w
      | PLogin c \<Rightarrow> process_login_cmd P conn c err w
      | PLogout \<Rightarrow> process_logout_cmd P conn err w
      | PNew_user c \<Rightarrow> process_new_user_cmd P conn c err w
      | PChange_pass c \<Rightarrow> process_change_pass_cmd P conn c err w
      | PClose \<Rightarrow> Inr (err, w)
      | PData b \<Rightarrow> Inr (err, w)
      | PUnset \<Rightarrow> Inr (err, w))"

definition server_responder ::
  "('j, 'db) platform \<Rightarrow> int \<Rightarrow> comm_error_t \<Rightarrow> string \<Rightarrow> 'db process \<Rightarrow> 'db process result" where
  "server_responder P self fresh_err input p =
     bindE (parse_encoded (plat_json P) (plat_usable P) (plat_junk P) input) (\<lambda>r.
     let p = post_status (p_pid p) self STATUS_OK p in
     bindE (dispatch P (p_conn p) r fresh_err (p_worker p)) (\<lambda>(err, w).
     let p = p\<lparr>p_worker := w\<rparr>;
         p = (if pdata r = PClose
              then p\<lparr>p_conn := (p_conn p)\<lparr>conn_state := CONNECTION_STATE_CLOSED\<rparr>\<rparr> else p);
         p = (if err_code err \<noteq> 0 then post_status (p_pid p) self STATUS_ERROR p else p)
     in Inr (post_status (p_pid p) self STATUS_DOWN p)))"

section \<open>The loop of a worker\<close>

text \<open>
  \<open>At_test\<close>: before the test of \<open>while\<close>; \<open>Receiving\<close>: in \<open>comm_receive_data\<close>; \<open>Ended\<close>: the process
  has called \<open>exit(0)\<close>, which also ends the threads that have not run. \<open>s_pending\<close> are the started
  threads that have not taken the mutex yet, with their inputs.
\<close>

datatype worker_pc = At_test | Receiving | Ended

record 'db session =
  s_process :: "'db process"
  s_pc :: worker_pc
  s_pending :: "(int \<times> string) list"
  s_current :: nat   \<comment> \<open>\<open>current_thread\<close>\<close>
  s_threads :: nat   \<comment> \<open>\<open>num_threads\<close>, the length of \<open>threads\<close>\<close>

text \<open>What follows the loop.\<close>

definition end_worker ::
  "('j, 'db) platform \<Rightarrow> fifo_env \<Rightarrow> 'db session \<Rightarrow> 'db session result" where
  "end_worker P E s =
     bindE (connection_close (plat_transport P) (plat_usable P) E (p_conn (s_process s))) (\<lambda>c.
     let p = (s_process s)\<lparr>p_conn := c\<rparr> in
     Inr (s\<lparr>s_process := post_status (p_pid p) 0 STATUS_DOWN p, s_pc := Ended, s_pending := []\<rparr>))"

text \<open>\<open>size_t\<close> arithmetic: \<open>num_threads - 1\<close> wraps at 0, \<open>num_threads *= 2\<close> at \<open>2 ^ 64\<close>.\<close>

definition size_pred :: "nat \<Rightarrow> nat" where
  "size_pred n = (if n = 0 then 2 ^ 64 - 1 else n - 1)"

text \<open>The test, and the status the loop posts before it waits.\<close>

definition worker_test :: "('j, 'db) platform \<Rightarrow> fifo_env \<Rightarrow> 'db session \<Rightarrow> 'db session result" where
  "worker_test P E s =
     (if is_connection_closed (p_conn (s_process s)) then end_worker P E s
      else Inr (s\<lparr>s_process := post_status (p_pid (s_process s)) 0 STATUS_IDLE (s_process s), s_pc := Receiving\<rparr>))"

text \<open>
  The body of the loop from \<open>comm_receive_data\<close> on: \<open>error\<close> is the block of the process, \<open>self\<close> the
  number of the new thread.
\<close>

definition worker_receive ::
  "('j, 'db) platform \<Rightarrow> fifo_env \<Rightarrow> nat \<Rightarrow> int \<Rightarrow> comm_error_t \<Rightarrow> 'db session \<Rightarrow> 'db session result" where
  "worker_receive P E max_threads self error s =
     (let p = s_process s; T = plat_transport P; U = plat_usable P in
      bindE (comm_receive_data T (p_conn p) error (w_io (p_worker p))) (\<lambda>(command, err, v).
      let p = p\<lparr>p_worker := (p_worker p)\<lparr>w_io := v\<rparr>\<rparr> in
      if err_code err \<noteq> 0 then Inl Aborted
      else
        let p = post_status (p_pid p) 0 STATUS_OK p;
            full = (s_current s = size_pred (s_threads s));
            num = (if full then s_threads s * 2 mod 2 ^ 64 else s_threads s)
        in if full \<and> max_threads < num
           then
             bindE (io_call (send_data T (plat_json P) U ''Server maxed capacity''
                 (length ''Server maxed capacity'') (p_conn p) err) (p_worker p)) (\<lambda>(_, w).
             end_worker P E (s\<lparr>s_process := p\<lparr>p_worker := w\<rparr>, s_threads := num\<rparr>))
           else if U (num * POINTER_SIZE) < (s_current s + 1) * POINTER_SIZE then Inl Out_of_bounds
           else
             bindE (cstr command) (\<lambda>input.
             Inr (s\<lparr>s_process := p, s_pc := At_test, s_pending := s_pending s @ [(self, input)],
                    s_current := s_current s + 1, s_threads := num\<rparr>))))"

text \<open>A pending thread runs.\<close>

definition run_thread ::
  "('j, 'db) platform \<Rightarrow> comm_error_t \<Rightarrow> nat \<Rightarrow> 'db session \<Rightarrow> 'db session result" where
  "run_thread P fresh_err i s =
     (if i < length (s_pending s) then
        (let (self, input) = s_pending s ! i in
         bindE (server_responder P self fresh_err input (s_process s)) (\<lambda>p.
         Inr (s\<lparr>s_process := p, s_pending := take i (s_pending s) @ drop (Suc i) (s_pending s)\<rparr>)))
      else Inl Aborted)"

inductive worker_step ::
  "('j, 'db) platform \<Rightarrow> fifo_env \<Rightarrow> nat \<Rightarrow> 'db session \<Rightarrow> 'db session \<Rightarrow> bool"
  for P E max_threads where
  step_test: "s_pc s = At_test \<Longrightarrow> worker_test P E s = Inr s' \<Longrightarrow> worker_step P E max_threads s s'"
| step_receive: "s_pc s = Receiving \<Longrightarrow> worker_receive P E max_threads self err s = Inr s' \<Longrightarrow>
    worker_step P E max_threads s s'"
| step_thread: "s_pc s \<noteq> Ended \<Longrightarrow> i < length (s_pending s) \<Longrightarrow> run_thread P fresh_err i s = Inr s' \<Longrightarrow>
    worker_step P E max_threads s s'"

inductive_cases worker_step_elim: "worker_step P E max_threads s s'"

inductive worker_reaches ::
  "('j, 'db) platform \<Rightarrow> fifo_env \<Rightarrow> nat \<Rightarrow> 'db session \<Rightarrow> 'db session \<Rightarrow> bool"
  for P E max_threads s where
  reaches_refl: "worker_reaches P E max_threads s s"
| reaches_step: "worker_reaches P E max_threads s s' \<Longrightarrow> worker_step P E max_threads s' s'' \<Longrightarrow>
    worker_reaches P E max_threads s s''"

text \<open>The worker as \<open>fork\<close> leaves it.\<close>

definition start_worker :: "'db process \<Rightarrow> nat \<Rightarrow> 'db session" where
  "start_worker p min_threads =
     \<lparr>s_process = post_status (p_pid p) 0 STATUS_OK p, s_pc = At_test, s_pending = [], s_current = 0,
      s_threads = min_threads\<rparr>"


section \<open>The output of a worker\<close>

text \<open>Nothing, or one whole frame with the text of a message.\<close>

definition at_most_one_frame ::
  "('j, 'db) platform \<Rightarrow> connection_t \<Rightarrow> io \<Rightarrow> io \<Rightarrow> bool" where
  "at_most_one_frame P conn v v' \<longleftrightarrow> v' = v \<or>
     (\<exists>b m r. boundary_shape b \<and> rng_ok r \<and>
        v' = emit (req_fd conn) (frame_bytes b (stringify (plat_json P) m)) (v\<lparr>io_rng := r\<rparr>))"

lemma answered_one_frame: "answered P conn v v' \<Longrightarrow> at_most_one_frame P conn v v'"
  unfolding answered_def replied_def at_most_one_frame_def by blast

lemma returns_send_text:
  assumes "platform_ok P" "rng_ok (io_rng (w_io w))"
    "\<And>e v. at_most_one_frame P conn (w_io w) v \<Longrightarrow> Q (e, w\<lparr>w_io := v\<rparr>)"
  shows "returns (io_call (send_text (plat_transport P) (plat_usable P) (stringify (plat_json P) m) conn err) w) Q"
proof -
  obtain b r where s: "send_text (plat_transport P) (plat_usable P) (stringify (plat_json P) m) conn err (w_io w) =
       Inr (error_after_send P err,
            emit (req_fd conn) (frame_bytes b (stringify (plat_json P) m)) ((w_io w)\<lparr>io_rng := r\<rparr>))"
    (is "_ = Inr (_, ?v)") and b: "boundary_shape b" "rng_ok r"
    using send_text_bytes [where J = "plat_json P" and U = "plat_usable P" and w = "w_io w" and m = m
        and T = "plat_transport P" and conn = conn and e = err] assms(1,2)
    unfolding platform_ok_def error_after_send_def by auto
  have "at_most_one_frame P conn (w_io w) ?v"
    unfolding at_most_one_frame_def using b by blast
  then show ?thesis by (simp add: io_call_def s assms(3))
qed

lemma io_call_send:
  "io_call (send_int T J U i conn err) w = io_call (send_text T U (stringify J (MInt i)) conn err) w"
  "io_call (send_double T J U d conn err) w = io_call (send_text T U (stringify J (MDouble d)) conn err) w"
  "io_call (send_string T J U s conn err) w = io_call (send_text T U (stringify J (MString s)) conn err) w"
  "io_call (send_data T J U s n conn err) w = io_call (send_text T U (stringify J (MData s n)) conn err) w"
  by (simp_all add: io_call_def send_int_def send_double_def send_string_def send_data_def)

lemma returns_weaken: "returns m Q \<Longrightarrow> (\<And>x. Q x \<Longrightarrow> R x) \<Longrightarrow> returns m R"
  by (simp add: returns_def)

lemma dispatch_effect:
  assumes "platform_ok P" "rng_ok (io_rng (w_io w))"
  shows "returns (dispatch P conn r err w) (\<lambda>(_, w'). at_most_one_frame P conn (w_io w) (w_io w'))"
proof -
  have sent: "returns (io_call (send_text (plat_transport P) (plat_usable P) (stringify (plat_json P) m) conn err) w)
      (\<lambda>(_, w'). at_most_one_frame P conn (w_io w) (w_io w'))" for m
    by (rule returns_send_text [OF assms]) simp
  have handled: "returns (process_command P conn c err w)
      (\<lambda>(_, w'). at_most_one_frame P conn (w_io w) (w_io w'))" for c
    by (rule returns_weaken [OF process_command_answers [OF assms]]) (auto simp: answered_one_frame)
  have same: "at_most_one_frame P conn (w_io w) (w_io w)"
    by (simp add: at_most_one_frame_def)
  show ?thesis
  proof (cases "pdata r")
    case (PStr s)
    then show ?thesis using sent [of "MString t" for t]
      by (auto simp: dispatch_def Let_def io_call_send intro!: returnsI)
  qed (use sent [of "MInt i" for i] sent [of "MDouble d" for d] same handled [of "Get c" for c] handled [of "Post c" for c] handled [of "Login c" for c]
      handled [of Logout] handled [of "New_user c" for c] handled [of "Change_pass c" for c]
      in \<open>simp_all add: dispatch_def Let_def io_call_send\<close>)
qed

text \<open>What a thread leaves alone: the descriptors and the number of the process.\<close>

lemma server_responder_effect:
  assumes "platform_ok P" "rng_ok (io_rng (w_io (p_worker p)))"
  shows "returns (server_responder P self e input p) (\<lambda>p'. req_fd (p_conn p') = req_fd (p_conn p) \<and>
    at_most_one_frame P (p_conn p) (w_io (p_worker p)) (w_io (p_worker p')))"
  by (auto simp: server_responder_def Let_def split_beta intro!: returnsI
      dest!: returnsD [OF dispatch_effect [OF assms]])

section \<open>Invariants of the loop\<close>

text \<open>
  \<open>out\<close> is whole frames, at most \<open>n\<close> of them.
\<close>

definition whole_frames :: "('j, 'db) platform \<Rightarrow> nat \<Rightarrow> string \<Rightarrow> bool" where
  "whole_frames P n out \<longleftrightarrow> (\<exists>ms. length ms \<le> n \<and> (\<forall>(b, m) \<in> set ms. boundary_shape b) \<and>
     out = concat (map (\<lambda>(b, m). frame_bytes b (stringify (plat_json P) m)) ms))"

lemma whole_frames_Nil: "whole_frames P n []"
  unfolding whole_frames_def by (rule exI [of _ "[]"]) simp

lemma whole_frames_mono: "whole_frames P n out \<Longrightarrow> n \<le> k \<Longrightarrow> whole_frames P k out"
  unfolding whole_frames_def using le_trans by blast

lemma whole_frames_snoc:
  assumes "whole_frames P n out" "boundary_shape b"
  shows "whole_frames P (Suc n) (out @ frame_bytes b (stringify (plat_json P) m))"
proof -
  obtain ms where "length ms \<le> n" "\<forall>(b, m) \<in> set ms. boundary_shape b"
    "out = concat (map (\<lambda>(b, m). frame_bytes b (stringify (plat_json P) m)) ms)"
    using assms(1) unfolding whole_frames_def by blast
  with assms(2) show ?thesis
    unfolding whole_frames_def by (intro exI [of _ "ms @ [(b, m)]"]) auto
qed

lemma at_most_one_frame_out:
  assumes "at_most_one_frame P conn v v'" "whole_frames P n (fd_out v (req_fd conn))" "rng_ok (io_rng v)"
  shows "whole_frames P (Suc n) (fd_out v' (req_fd conn)) \<and> rng_ok (io_rng v')"
  using assms whole_frames_snoc [OF assms(2)] whole_frames_mono [OF assms(2), of "Suc n"]
  unfolding at_most_one_frame_def by (auto simp: emit_def)

text \<open>
  The invariant: the counter stays below the length of the table, which never exceeds the maximum
  while the loop runs; what went out on descriptor \<open>q\<close> is whole frames, and a request that has been
  counted and is not waiting accounts for each of them.
\<close>

definition session_io :: "'db session \<Rightarrow> io" where
  "session_io s = w_io (p_worker (s_process s))"

definition table_inv :: "nat \<Rightarrow> 'db session \<Rightarrow> bool" where
  "table_inv max_threads s \<longleftrightarrow> s_current s < max_threads \<and>
     (s_pc s \<noteq> Ended \<longrightarrow> s_current s < s_threads s \<and> s_threads s \<le> max_threads)"

definition output_inv :: "('j, 'db) platform \<Rightarrow> int \<Rightarrow> 'db session \<Rightarrow> bool" where
  "output_inv P q s \<longleftrightarrow> rng_ok (io_rng (session_io s)) \<and>
     (s_pc s \<noteq> Ended \<longrightarrow> req_fd (p_conn (s_process s)) = q \<and> length (s_pending s) \<le> s_current s) \<and>
     whole_frames P (s_current s - length (s_pending s) + (if s_pc s = Ended then 1 else 0))
       (fd_out (session_io s) q)"

lemma end_worker_fields:
  "end_worker P E s = Inr s' \<Longrightarrow> s_pc s' = Ended \<and> s_pending s' = [] \<and> s_current s' = s_current s \<and>
    s_threads s' = s_threads s \<and> session_io s' = session_io s"
  by (auto simp: end_worker_def bindE_Inr_iff Let_def session_io_def)

lemma worker_test_cases:
  assumes "worker_test P E s = Inr s'"
  obtains "end_worker P E s = Inr s'"
  | "s_pc s' = Receiving" "s_pending s' = s_pending s" "s_current s' = s_current s"
    "s_threads s' = s_threads s" "session_io s' = session_io s"
    "p_conn (s_process s') = p_conn (s_process s)"
  using assms by (auto simp: worker_test_def session_io_def split: if_splits)

lemma take_received_out: "comm_receive_data T conn e v = Inr (c, e', v') \<Longrightarrow> fd_out v' = fd_out v \<and> io_rng v' = io_rng v"
  by (auto simp: comm_receive_data_take take_received_def bindE_Inr_iff)

text \<open>What one pass through the body does: it ends the worker after one more frame, or adds a thread.\<close>

lemma worker_receive_cases:
  assumes "worker_receive P E max_threads self err s = Inr s'" "platform_ok P" "rng_ok (io_rng (session_io s))"
  obtains (maxed) "s_pc s' = Ended" "s_pending s' = []" "s_current s' = s_current s"
    "\<exists>v. fd_out v = fd_out (session_io s) \<and> io_rng v = io_rng (session_io s) \<and>
      at_most_one_frame P (p_conn (s_process s)) v (session_io s')"
  | (thread) "s_pc s' = At_test" "\<exists>x. s_pending s' = s_pending s @ [x]" "s_current s' = s_current s + 1"
    "s_threads s' = (if s_current s = size_pred (s_threads s) then s_threads s * 2 mod 2 ^ 64 else s_threads s)"
    "s_current s = size_pred (s_threads s) \<longrightarrow> s_threads s' \<le> max_threads"
    "fd_out (session_io s') = fd_out (session_io s)" "io_rng (session_io s') = io_rng (session_io s)"
    "p_conn (s_process s') = p_conn (s_process s)"
proof -
  let ?p = "s_process s"
  let ?full = "s_current s = size_pred (s_threads s)"
  let ?num = "if ?full then s_threads s * 2 mod 2 ^ 64 else s_threads s"
  obtain command e v where r: "comm_receive_data (plat_transport P) (p_conn ?p) err (w_io (p_worker ?p)) =
      Inr (command, e, v)" and e: "err_code e = 0"
    using assms(1) by (auto simp: worker_receive_def Let_def bindE_Inr_iff split: if_splits)
  have v: "fd_out v = fd_out (session_io s)" "io_rng v = io_rng (session_io s)"
    using take_received_out [OF r] by (simp_all add: session_io_def)
  let ?w = "(p_worker ?p)\<lparr>w_io := v\<rparr>"
  let ?p1 = "post_status (p_pid ?p) 0 STATUS_OK (?p\<lparr>p_worker := ?w\<rparr>)"
  show thesis
  proof (cases "?full \<and> max_threads < ?num")
    case True
    with assms(1) r e obtain e2 w where
      io: "io_call (send_data (plat_transport P) (plat_json P) (plat_usable P) ''Server maxed capacity''
        (length ''Server maxed capacity'') (p_conn ?p) e) ?w = Inr (e2, w)"
      and fin: "end_worker P E (s\<lparr>s_process := ?p1\<lparr>p_worker := w\<rparr>, s_threads := ?num\<rparr>) = Inr s'"
      by (auto simp: worker_receive_def Let_def bindE_Inr_iff)
    have "at_most_one_frame P (p_conn ?p) v (w_io w)"
      using returnsD [OF returns_send_text [OF assms(2), of ?w "p_conn ?p"
          "\<lambda>(_, w'). at_most_one_frame P (p_conn ?p) v (w_io w')" "MData ''Server maxed capacity''
        (length ''Server maxed capacity'')" e] io [unfolded io_call_send]] assms(3) v by simp
    then show thesis
      using maxed end_worker_fields [OF fin] v by (auto simp: session_io_def)
  next
    case False
    with assms(1) r e show thesis
      by (intro thread) (auto simp: worker_receive_def Let_def bindE_Inr_iff session_io_def v split: if_splits)
  qed
qed


lemma table_step:
  assumes "worker_step P E max_threads s s'" "platform_ok P" "rng_ok (io_rng (session_io s))"
    "table_inv max_threads s" "max_threads < 2 ^ 63"
  shows "table_inv max_threads s'"
  using assms(1)
proof cases
  case step_test
  from step_test(2) show ?thesis
  proof (cases rule: worker_test_cases)
    case 1
    from end_worker_fields [OF 1] assms(4) show ?thesis by (simp add: table_inv_def)
  next
    case 2
    with assms(4) step_test(1) show ?thesis by (simp add: table_inv_def)
  qed
next
  case (step_receive self err)
  from step_receive(2) assms(2,3) show ?thesis
  proof (cases rule: worker_receive_cases)
    case maxed
    then show ?thesis using assms(4) by (simp add: table_inv_def)
  next
    case thread
    have inv: "s_current s < max_threads" "s_current s < s_threads s" "s_threads s \<le> max_threads"
      using assms(4) step_receive(1) by (auto simp: table_inv_def)
    show ?thesis
    proof (cases "s_current s = size_pred (s_threads s)")
      case True
      with inv have t: "s_threads s = s_current s + 1"
        by (auto simp: size_pred_def split: if_splits)
      with True thread assms(5) inv show ?thesis by (auto simp: table_inv_def)
    next
      case False
      with inv have "s_current s + 1 < s_threads s"
        by (auto simp: size_pred_def split: if_splits)
      with False thread inv show ?thesis by (simp add: table_inv_def)
    qed
  qed
next
  case (step_thread i fresh_err)
  then show ?thesis using assms(4)
    by (auto simp: run_thread_def table_inv_def bindE_Inr_iff split: prod.splits)
qed

lemma output_step:
  assumes "worker_step P E max_threads s s'" "platform_ok P" "output_inv P q s"
  shows "output_inv P q s'"
  using assms(1)
proof cases
  case step_test
  from step_test(2) show ?thesis
  proof (cases rule: worker_test_cases)
    case 1
    from end_worker_fields [OF 1] assms(3) step_test(1) show ?thesis
      by (auto simp: output_inv_def intro: whole_frames_mono)
  next
    case 2
    with assms(3) step_test(1) show ?thesis by (auto simp: output_inv_def)
  qed
next
  case (step_receive self err)
  have inv: "rng_ok (io_rng (session_io s))" "req_fd (p_conn (s_process s)) = q"
    "length (s_pending s) \<le> s_current s"
    "whole_frames P (s_current s - length (s_pending s)) (fd_out (session_io s) q)"
    using assms(3) step_receive(1) by (auto simp: output_inv_def)
  from step_receive(2) assms(2) inv(1) show ?thesis
  proof (cases rule: worker_receive_cases)
    case maxed
    then obtain v where v: "fd_out v = fd_out (session_io s)" "io_rng v = io_rng (session_io s)"
      "at_most_one_frame P (p_conn (s_process s)) v (session_io s')" by blast
    have "whole_frames P (Suc (s_current s - length (s_pending s))) (fd_out (session_io s') q) \<and>
        rng_ok (io_rng (session_io s'))"
      using at_most_one_frame_out [OF v(3)] v(1,2) inv by simp
    with maxed show ?thesis by (auto simp: output_inv_def intro: whole_frames_mono)
  next
    case thread
    with inv show ?thesis by (auto simp: output_inv_def)
  qed
next
  case (step_thread i fresh_err)
  have inv: "rng_ok (io_rng (session_io s))" "req_fd (p_conn (s_process s)) = q"
    "length (s_pending s) \<le> s_current s"
    "whole_frames P (s_current s - length (s_pending s)) (fd_out (session_io s) q)"
    using assms(3) step_thread(1) by (auto simp: output_inv_def)
  obtain self input where x: "s_pending s ! i = (self, input)" by (cases "s_pending s ! i")
  with step_thread obtain p where p: "server_responder P self fresh_err input (s_process s) = Inr p"
    and s': "s' = s\<lparr>s_process := p, s_pending := take i (s_pending s) @ drop (Suc i) (s_pending s)\<rparr>"
    by (auto simp: run_thread_def bindE_Inr_iff)
  have e: "req_fd (p_conn p) = q" "at_most_one_frame P (p_conn (s_process s)) (session_io s) (w_io (p_worker p))"
    using returnsD [OF server_responder_effect [OF assms(2)] p] inv(1,2) by (auto simp: session_io_def)
  have "whole_frames P (Suc (s_current s - length (s_pending s))) (fd_out (w_io (p_worker p)) q) \<and>
      rng_ok (io_rng (w_io (p_worker p)))"
    using at_most_one_frame_out [OF e(2)] inv by simp
  moreover have "length (take i (s_pending s) @ drop (Suc i) (s_pending s)) = length (s_pending s) - 1"
    using step_thread(2) by simp
  ultimately show ?thesis
    using e(1) inv(3) step_thread(1,2) s'
    by (auto simp: output_inv_def session_io_def Suc_diff_le elim!: whole_frames_mono)
qed

lemma worker_reaches_inv:
  assumes "worker_reaches P E max_threads s s'" "platform_ok P" "table_inv max_threads s" "output_inv P q s"
    "max_threads < 2 ^ 63"
  shows "table_inv max_threads s' \<and> output_inv P q s'"
  using assms
proof (induction rule: worker_reaches.induct)
  case reaches_refl
  then show ?case by simp
next
  case (reaches_step s' s'')
  then have "table_inv max_threads s'" "output_inv P q s'" by blast+
  with reaches_step show ?case
    using table_step [OF reaches_step(2)] output_step [OF reaches_step(2)]
    by (auto simp: output_inv_def [of P q s'])
qed

lemma start_worker_inv:
  assumes "rng_ok (io_rng (w_io (p_worker p)))" "fd_out (w_io (p_worker p)) (req_fd (p_conn p)) = []"
    "0 < min_threads" "min_threads \<le> max_threads"
  shows "table_inv max_threads (start_worker p min_threads)"
    "output_inv P (req_fd (p_conn p)) (start_worker p min_threads)"
  using assms by (simp_all add: table_inv_def output_inv_def start_worker_def session_io_def whole_frames_Nil)

section \<open>Properties\<close>




text \<open>A worker for the witnesses, and its first step.\<close>

definition sample_process :: "unit process" where
  "sample_process = \<lparr>p_worker = sample_worker () None, p_conn = sample_conn, p_pid = 4711, p_shared = Some []\<rparr>"

lemma sample_process_step:
  "worker_reaches (sample_platform X) E n (start_worker sample_process k)
    ((start_worker sample_process k)\<lparr>s_process := post_status 4711 0 STATUS_IDLE
      (s_process (start_worker sample_process k)), s_pc := Receiving\<rparr>)"
proof (rule reaches_step [OF reaches_refl], rule step_test)
  show "s_pc (start_worker sample_process k) = At_test" by (simp add: start_worker_def)
  show "worker_test (sample_platform X) E (start_worker sample_process k) =
      Inr ((start_worker sample_process k)\<lparr>s_process := post_status 4711 0 STATUS_IDLE
        (s_process (start_worker sample_process k)), s_pc := Receiving\<rparr>)"
    by (simp add: worker_test_def start_worker_def sample_process_def sample_conn_def is_connection_closed_def)
qed



lemma responder_doubles:
  assumes "platform_ok P" "rng_ok (io_rng (w_io (p_worker p)))" "int32 i" "p_shared p = Some h"
  shows "\<exists>p' b r posts. server_responder P self e (stringify (plat_json P) (MInt i)) p = Inr p' \<and>
    boundary_shape b \<and>
    w_io (p_worker p') = emit (req_fd (p_conn p))
      (frame_bytes b (stringify (plat_json P) (MInt (to_int32 (i * 2))))) ((w_io (p_worker p))\<lparr>io_rng := r\<rparr>) \<and>
    p_shared p' = Some (h @ posts) \<and> hd posts = \<lparr>sd_worker = p_pid p, sd_thread = self, sd_status = STATUS_OK\<rparr> \<and>
    last posts = \<lparr>sd_worker = p_pid p, sd_thread = self, sd_status = STATUS_DOWN\<rparr> \<and>
    (plat_transport P = Fifo \<longrightarrow> length posts = 2)"
proof -
  let ?t = "to_int32 (i * 2)"
  obtain r0 where r0: "parse_encoded (plat_json P) (plat_usable P) (plat_junk P) (stringify (plat_json P) (MInt i)) = Inr r0"
    "message_carried (MInt i) r0"
    using parse_stringify [of "plat_json P" "plat_usable P" "MInt i" "plat_junk P"] assms(1,3)
    by (auto simp: platform_ok_def)
  obtain b r where s: "send_text (plat_transport P) (plat_usable P) (stringify (plat_json P) (MInt ?t)) (p_conn p) e
        (w_io (p_worker p)) = Inr (error_after_send P e,
          emit (req_fd (p_conn p)) (frame_bytes b (stringify (plat_json P) (MInt ?t))) ((w_io (p_worker p))\<lparr>io_rng := r\<rparr>))"
    "boundary_shape b"
    using send_text_bytes [where J = "plat_json P" and U = "plat_usable P" and w = "w_io (p_worker p)" and m = "MInt ?t"
        and T = "plat_transport P" and conn = "p_conn p" and e = e] assms(1,2)
    unfolding platform_ok_def error_after_send_def by blast
  let ?ok = "\<lparr>sd_worker = p_pid p, sd_thread = self, sd_status = STATUS_OK\<rparr>"
  let ?down = "\<lparr>sd_worker = p_pid p, sd_thread = self, sd_status = STATUS_DOWN\<rparr>"
  let ?err = "\<lparr>sd_worker = p_pid p, sd_thread = self, sd_status = STATUS_ERROR\<rparr>"
  let ?posts = "if err_code (error_after_send P e) \<noteq> 0 then [?ok, ?err, ?down] else [?ok, ?down]"
  have "\<exists>p'. server_responder P self e (stringify (plat_json P) (MInt i)) p = Inr p' \<and>
      w_io (p_worker p') = emit (req_fd (p_conn p))
        (frame_bytes b (stringify (plat_json P) (MInt ?t))) ((w_io (p_worker p))\<lparr>io_rng := r\<rparr>) \<and>
      p_shared p' = Some (h @ ?posts)"
    unfolding server_responder_def r0(1) bindE_simps
    using r0(2) s(1) assms(4)
    by (simp add: dispatch_def Let_def io_call_def send_int_def post_status_def)
  with s(2) show ?thesis
    by (auto simp: error_after_send_fifo intro!: exI [of _ b] exI [of _ r] exI [of _ "?posts"] split: if_splits)
qed

text \<open>
  An integer request is answered with twice the integer, wrapped to 32 bits, in one frame; the
  monitor sees the thread come up and, in the FIFO build, go down without an error.
\<close>

theorem server_doubles_integers:
  assumes "platform_ok P" "rng_ok (io_rng (w_io (p_worker p)))" "int32 i" "p_shared p = Some h"
  shows "\<exists>p' b r posts. server_responder P self e (stringify (plat_json P) (MInt i)) p = Inr p' \<and>
    boundary_shape b \<and>
    w_io (p_worker p') = emit (req_fd (p_conn p))
      (frame_bytes b (stringify (plat_json P) (MInt (to_int32 (i * 2))))) ((w_io (p_worker p))\<lparr>io_rng := r\<rparr>) \<and>
    p_shared p' = Some (h @ posts) \<and> hd posts = \<lparr>sd_worker = p_pid p, sd_thread = self, sd_status = STATUS_OK\<rparr> \<and>
    last posts = \<lparr>sd_worker = p_pid p, sd_thread = self, sd_status = STATUS_DOWN\<rparr> \<and>
    (plat_transport P = Fifo \<longrightarrow> length posts = 2)"
  using assms by (rule responder_doubles)

theorem server_doubles_integers_witness:
  "\<exists>p' b r posts. server_responder (sample_platform (\<lambda>(db :: unit) q. (db, []))) 7 (comm_error 0 [])
      (stringify (plat_json (sample_platform (\<lambda>(db :: unit) q. (db, [])))) (MInt 1500000000)) sample_process = Inr p' \<and>
    boundary_shape b \<and>
    w_io (p_worker p') = emit (req_fd (p_conn sample_process))
      (frame_bytes b (stringify (plat_json (sample_platform (\<lambda>(db :: unit) q. (db, [])))) (MInt (to_int32 (1500000000 * 2)))))
      ((w_io (p_worker sample_process))\<lparr>io_rng := r\<rparr>) \<and>
    p_shared p' = Some ([] @ posts) \<and>
    hd posts = \<lparr>sd_worker = p_pid sample_process, sd_thread = 7, sd_status = STATUS_OK\<rparr> \<and>
    last posts = \<lparr>sd_worker = p_pid sample_process, sd_thread = 7, sd_status = STATUS_DOWN\<rparr> \<and>
    (plat_transport (sample_platform (\<lambda>(db :: unit) q. (db, []))) = Fifo \<longrightarrow> length posts = 2)"
  by (rule server_doubles_integers)
     (simp_all add: sample_process_def sample_io_def sample_rng_def rng_ok_def int32_def)



end
