(* ===== verification/Client_Commands.thy ===== *)
theory Client_Commands
  imports Serialization File_Utils Connection
begin

text \<open>
  \<open>client/commands.c\<close>: the table of commands, the split of a line into a command and its arguments
  (\<open>cmd_parse\<close>) and the commands. A command returns its code and the changed state. The state has
  the connection, the static \<open>logged\<close>, the streams, and what the user is told of the answers of
  the server (\<open>c_told\<close>); help and error texts are only printed and not kept. What one call sees of
  its environment is the record \<open>client_env\<close>.
\<close>

definition COMMAND_OK :: int where "COMMAND_OK = 0"
definition ERR_COMMAND_NOT_FOUND :: int where "ERR_COMMAND_NOT_FOUND = 100"
definition ERR_ALREADY_DONE :: int where "ERR_ALREADY_DONE = 101"
definition ERR_CONNECTION_NOT_OPEN :: int where "ERR_CONNECTION_NOT_OPEN = 102"
definition ERR_WRONG_ARGUMENTS_COUNT :: int where "ERR_WRONG_ARGUMENTS_COUNT = 103"
definition ERR_CONNECTION_NOT_LOGGED :: int where "ERR_CONNECTION_NOT_LOGGED = 104"
definition ERR_MISUSE_ARGUMENT :: int where "ERR_MISUSE_ARGUMENT = 105"
definition ERR_BAD_ADDRESS :: int where "ERR_BAD_ADDRESS = 106"
definition ERR_LOGIN_FAILED :: int where "ERR_LOGIN_FAILED = 107"
definition COMMAND_CLOSE_OK :: int where "COMMAND_CLOSE_OK = 10000"

lemmas command_codes = COMMAND_OK_def ERR_COMMAND_NOT_FOUND_def ERR_ALREADY_DONE_def
  ERR_CONNECTION_NOT_OPEN_def ERR_WRONG_ARGUMENTS_COUNT_def ERR_CONNECTION_NOT_LOGGED_def
  ERR_MISUSE_ARGUMENT_def ERR_BAD_ADDRESS_def ERR_LOGIN_FAILED_def COMMAND_CLOSE_OK_def

section \<open>The state of a client\<close>

text \<open>
  \<open>ce_fresh\<close> is what \<open>NEW(comm_addr_t)\<close> holds, \<open>ce_atof\<close> is \<open>atof\<close> of libc.
\<close>

record 'j client_env =
  ce_transport :: transport
  ce_json :: "'j json_lib"
  ce_usable :: "nat \<Rightarrow> nat"
  ce_junk :: char
  ce_fresh :: comm_addr_t
  ce_atof :: "string \<Rightarrow> 64 word"
  ce_fifo :: fifo_env
  ce_socket :: socket_env

datatype told =
    Told_int int
  | Told_double "64 word"
  | Told_string string
  | Told_file string
  | Told_error int

record client =
  c_conn :: connection_t
  c_logged :: bool
  c_io :: io
  c_disk :: disk
  c_told :: "told list"

definition tell :: "told \<Rightarrow> client \<Rightarrow> client" where
  "tell t c = c\<lparr>c_told := c_told c @ [t]\<rparr>"

lemma tell_simps [simp]:
  "c_conn (tell t c) = c_conn c" "c_logged (tell t c) = c_logged c" "c_io (tell t c) = c_io c"
  "c_disk (tell t c) = c_disk c" "c_told (tell t c) = c_told c @ [t]"
  by (simp_all add: tell_def)

section \<open>What the commands share\<close>

text \<open>\<open>argv[i]\<close>\<close>

definition arg :: "string list \<Rightarrow> nat \<Rightarrow> string result" where
  "arg argv i = (if i < length argv then Inr (argv ! i) else Inl Out_of_bounds)"

definition show_help_for_command :: "string \<Rightarrow> bool" where
  "show_help_for_command s \<longleftrightarrow> s = ''help''"

text \<open>\<open>argc == 1 && show_help_for_command(argv[0], info)\<close>\<close>

definition asks_help :: "string list \<Rightarrow> int \<Rightarrow> bool result" where
  "asks_help argv argc = (if argc = 1 then bindE (arg argv 0) (\<lambda>s. Inr (show_help_for_command s)) else Inr False)"

text \<open>
  The end of a command that has an answer: send, return the code of a failure, receive, return the
  code of a failure, go on with the answer.
\<close>

definition ask ::
  "'j client_env \<Rightarrow> (connection_t \<Rightarrow> comm_error_t \<Rightarrow> io \<Rightarrow> (comm_error_t \<times> io) result) \<Rightarrow>
   (parse_result_t \<Rightarrow> client \<Rightarrow> (int \<times> client) result) \<Rightarrow> client \<Rightarrow> (int \<times> client) result" where
  "ask X send finish c =
     bindE (send (c_conn c) (comm_error COMMAND_OK ''Sending command'') (c_io c)) (\<lambda>(err, v).
     let c = c\<lparr>c_io := v\<rparr> in
     if err_code err \<noteq> 0 then Inr (err_code err, c)
     else
       bindE (receive (ce_transport X) (ce_json X) (ce_usable X) (ce_junk X) (c_conn c) err (c_io c)) (\<lambda>(presult, err, v).
       let c = c\<lparr>c_io := v\<rparr> in
       if err_code err \<noteq> 0 then Inr (err_code err, c)
       else (case presult of None \<Rightarrow> Inl Null_deref | Some r \<Rightarrow> finish r c)))"

text \<open>
  The usual answer: \<open>SUCCESS("Server says: %s", presult->data.data)\<close>. The kind decides how the
  union is read; a parsed result has the member of its kind.
\<close>

definition tell_data :: "parse_result_t \<Rightarrow> client \<Rightarrow> client result" where
  "tell_data r c =
     (case pdata r of
        PData b \<Rightarrow> bindE (cstr b) (\<lambda>s. Inr (tell (Told_string s) c))
      | _ \<Rightarrow> Inr c)"

section \<open>The commands\<close>

definition cmd_open :: "'j client_env \<Rightarrow> string list \<Rightarrow> int \<Rightarrow> client \<Rightarrow> (int \<times> client) result" where
  "cmd_open X argv argc c0 =
     (let c = c0\<lparr>c_conn := (c_conn c0)\<lparr>server_addr := ce_fresh X\<rparr>\<rparr> in
      bindE (asks_help argv argc) (\<lambda>help.
      if help then Inr (COMMAND_OK, c)
      else if is_connection_open (c_conn c) then Inr (ERR_ALREADY_DONE, c)
      else if argc \<noteq> 1 then Inr (ERR_WRONG_ARGUMENTS_COUNT, c)
      else
        bindE (arg argv 0) (\<lambda>u.
        case address_from_url (ce_transport X) u (Some (server_addr (c_conn c))) of
          (_, None) \<Rightarrow> Inl Null_deref
        | (code, Some a) \<Rightarrow>
            let c = c\<lparr>c_conn := (c_conn c)\<lparr>server_addr := a\<rparr>\<rparr> in
            if code \<noteq> ADDRESS_OK then Inr (ERR_BAD_ADDRESS, c)
            else
              bindE (connection_open (ce_transport X) (ce_usable X) (ce_junk X) (ce_fifo X) (ce_socket X) (c_conn c))
              (\<lambda>(e, conn).
              let conn_error = (if e \<noteq> 0 then 1 else 0); c = c\<lparr>c_conn := conn\<rparr> in
              if conn_error \<noteq> 0 then Inr (conn_error, c) else Inr (COMMAND_OK, c)))))"

definition cmd_sendi :: "'j client_env \<Rightarrow> string list \<Rightarrow> int \<Rightarrow> client \<Rightarrow> (int \<times> client) result" where
  "cmd_sendi X argv argc c =
     bindE (asks_help argv argc) (\<lambda>help.
     if help then Inr (COMMAND_OK, c)
     else if \<not> is_connection_open (c_conn c) then Inr (ERR_CONNECTION_NOT_OPEN, c)
     else if argc \<noteq> 1 then Inr (ERR_WRONG_ARGUMENTS_COUNT, c)
     else
       bindE (arg argv 0) (\<lambda>a.
       ask X (send_int (ce_transport X) (ce_json X) (ce_usable X) (atoi a))
         (\<lambda>r c. case pdata r of PInt i \<Rightarrow> Inr (COMMAND_OK, tell (Told_int i) c) | _ \<Rightarrow> Inr (COMMAND_OK, c)) c))"

definition cmd_sends :: "'j client_env \<Rightarrow> string list \<Rightarrow> int \<Rightarrow> client \<Rightarrow> (int \<times> client) result" where
  "cmd_sends X argv argc c =
     bindE (asks_help argv argc) (\<lambda>help.
     if help then Inr (COMMAND_OK, c)
     else if \<not> is_connection_open (c_conn c) then Inr (ERR_CONNECTION_NOT_OPEN, c)
     else if argc \<noteq> 1 then Inr (ERR_WRONG_ARGUMENTS_COUNT, c)
     else
       bindE (arg argv 0) (\<lambda>a.
       ask X (send_string (ce_transport X) (ce_json X) (ce_usable X) a)
         (\<lambda>r c. case pdata r of PStr s \<Rightarrow> Inr (COMMAND_OK, tell (Told_string s) c) | _ \<Rightarrow> Inr (COMMAND_OK, c)) c))"

definition cmd_sendd :: "'j client_env \<Rightarrow> string list \<Rightarrow> int \<Rightarrow> client \<Rightarrow> (int \<times> client) result" where
  "cmd_sendd X argv argc c =
     bindE (asks_help argv argc) (\<lambda>help.
     if help then Inr (COMMAND_OK, c)
     else if \<not> is_connection_open (c_conn c) then Inr (ERR_CONNECTION_NOT_OPEN, c)
     else if argc \<noteq> 1 then Inr (ERR_WRONG_ARGUMENTS_COUNT, c)
     else
       bindE (arg argv 0) (\<lambda>a.
       ask X (send_double (ce_transport X) (ce_json X) (ce_usable X) (ce_atof X a))
         (\<lambda>r c. case pdata r of PDouble d \<Rightarrow> Inr (COMMAND_OK, tell (Told_double d) c) | _ \<Rightarrow> Inr (COMMAND_OK, c)) c))"

text \<open>
  The answer to \<open>get\<close> is for a thread: \<open>cmd_get\<close> sends and starts it, \<open>get_handler\<close> is what it does
  when the answer is there.
\<close>

definition answer_text :: "'j client_env \<Rightarrow> parse_result_t \<Rightarrow> told list result" where
  "answer_text X r =
     (case pdata r of
        PInt i \<Rightarrow> Inr [Told_int i]
      | PDouble d \<Rightarrow> Inr [Told_double d]
      | PStr t \<Rightarrow> Inr [Told_string t]
      | PPost p \<Rightarrow>
          bindE (decode_to_raw_data (ce_usable X) (ce_junk X) (post_data p @ [ZERO])) (\<lambda>b.
          bindE (cstr b) (\<lambda>t. Inr [Told_string t]))
      | PData d \<Rightarrow>
          bindE (decode_to_raw_data (ce_usable X) (ce_junk X) d) (\<lambda>b.
          bindE (cstr b) (\<lambda>t. Inr [Told_file t]))
      | _ \<Rightarrow> Inr [])"

definition get_handler ::
  "'j client_env \<Rightarrow> comm_error_t \<Rightarrow> connection_t \<Rightarrow> buf \<Rightarrow> told list result" where
  "get_handler X err conn response =
     (if err_code err \<noteq> 0 then Inr [Told_error (err_code err)]
      else
        bindE (cstr response) (\<lambda>s.
        bindE (parse_encoded (ce_json X) (ce_usable X) (ce_junk X) s) (\<lambda>r.
        answer_text X r)))"

definition cmd_get :: "'j client_env \<Rightarrow> string list \<Rightarrow> int \<Rightarrow> client \<Rightarrow> (int \<times> client) result" where
  "cmd_get X argv argc c =
     bindE (asks_help argv argc) (\<lambda>help.
     if help then Inr (COMMAND_OK, c)
     else if \<not> is_connection_open (c_conn c) then Inr (ERR_CONNECTION_NOT_OPEN, c)
     else if \<not> c_logged c then Inr (ERR_CONNECTION_NOT_LOGGED, c)
     else if argc \<noteq> 1 then Inr (ERR_WRONG_ARGUMENTS_COUNT, c)
     else
       bindE (arg argv 0) (\<lambda>a.
       bindE (send_cmd_get_async (ce_transport X) (ce_json X) (ce_usable X) \<lparr>get_path = a\<rparr> (c_conn c) (c_io c)) (\<lambda>v.
       Inr (COMMAND_OK, c\<lparr>c_io := v\<rparr>))))"

text \<open>The thread, run to its end: it takes the next frame of the connection it was started for.\<close>

definition run_listener :: "'j client_env \<Rightarrow> client \<Rightarrow> client result" where
  "run_listener X c =
     (case listeners (c_io c) of
        [] \<Rightarrow> Inl Aborted
      | conn # rest \<Rightarrow>
          bindE (data_listener (ce_transport X) (get_handler X) conn ((c_io c)\<lparr>listeners := rest\<rparr>)) (\<lambda>(ts, v).
          Inr (c\<lparr>c_io := v, c_told := c_told c @ ts\<rparr>)))"

definition cmd_post :: "'j client_env \<Rightarrow> string list \<Rightarrow> int \<Rightarrow> client \<Rightarrow> (int \<times> client) result" where
  "cmd_post X argv argc c =
     bindE (asks_help argv argc) (\<lambda>help.
     if help then Inr (COMMAND_OK, c)
     else if \<not> is_connection_open (c_conn c) then Inr (ERR_CONNECTION_NOT_OPEN, c)
     else if \<not> c_logged c then Inr (ERR_CONNECTION_NOT_LOGGED, c)
     else if argc \<noteq> 2 then Inr (ERR_WRONG_ARGUMENTS_COUNT, c)
     else
       bindE (arg argv 0) (\<lambda>dest. bindE (arg argv 1) (\<lambda>path.
       case raw_data_from_file (c_disk c) path of
         Inl e \<Rightarrow> Inr (e, c)
       | Inr (aux, sz) \<Rightarrow>
           bindE (encode_raw_data (ce_usable X) (Some aux) sz) (\<lambda>data.
           ask X (send_cmd_post (ce_transport X) (ce_json X) (ce_usable X)
               \<lparr>post_data = data, post_dest = dest, post_size = sz\<rparr>)
             (\<lambda>r c. bindE (tell_data r c) (\<lambda>c. Inr (COMMAND_OK, c))) c))))"

definition LOGIN_FAILED :: string where "LOGIN_FAILED = ''Login failed''"

text \<open>\<open>user->admin\<close> is not set: it holds what the fresh block holds.\<close>

definition cmd_login :: "'j client_env \<Rightarrow> string list \<Rightarrow> int \<Rightarrow> client \<Rightarrow> (int \<times> client) result" where
  "cmd_login X argv argc c =
     bindE (asks_help argv argc) (\<lambda>help.
     if help then Inr (COMMAND_OK, c)
     else if \<not> is_connection_open (c_conn c) then Inr (ERR_CONNECTION_NOT_OPEN, c)
     else if argc \<noteq> 2 then Inr (ERR_WRONG_ARGUMENTS_COUNT, c)
     else if c_logged c then Inr (ERR_ALREADY_DONE, c)
     else
       bindE (arg argv 0) (\<lambda>u. bindE (arg argv 1) (\<lambda>p.
       ask X (send_cmd_login (ce_transport X) (ce_json X) (ce_usable X)
           \<lparr>login_user = \<lparr>username = u, password = p, admin = of_nat (of_char (ce_junk X))\<rparr>\<rparr>)
         (\<lambda>r c.
           case pdata r of
             PData b \<Rightarrow>
               bindE (tell_data r c) (\<lambda>c.
               bindE (strcmp_buf (LOGIN_FAILED @ [ZERO]) b) (\<lambda>failed.
               if failed then Inr (ERR_LOGIN_FAILED, c)
               else Inr (COMMAND_OK, c\<lparr>c_logged := True\<rparr>)))
           | _ \<Rightarrow> Inr (COMMAND_OK, c\<lparr>c_logged := True\<rparr>)) c)))"

definition cmd_logout :: "'j client_env \<Rightarrow> string list \<Rightarrow> int \<Rightarrow> client \<Rightarrow> (int \<times> client) result" where
  "cmd_logout X argv argc c =
     bindE (asks_help argv argc) (\<lambda>help.
     if help then Inr (COMMAND_OK, c)
     else if \<not> is_connection_open (c_conn c) then Inr (ERR_CONNECTION_NOT_OPEN, c)
     else if \<not> c_logged c then Inr (ERR_CONNECTION_NOT_LOGGED, c)
     else if argc \<noteq> 0 then Inr (ERR_WRONG_ARGUMENTS_COUNT, c)
     else
       ask X (send_cmd_logout (ce_transport X) (ce_json X) (ce_usable X))
         (\<lambda>r c. bindE (tell_data r c) (\<lambda>c. Inr (COMMAND_OK, c\<lparr>c_logged := False\<rparr>))) c)"

definition cmd_new_user :: "'j client_env \<Rightarrow> string list \<Rightarrow> int \<Rightarrow> client \<Rightarrow> (int \<times> client) result" where
  "cmd_new_user X argv argc c =
     bindE (asks_help argv argc) (\<lambda>help.
     if help then Inr (COMMAND_OK, c)
     else if \<not> is_connection_open (c_conn c) then Inr (ERR_CONNECTION_NOT_OPEN, c)
     else if \<not> c_logged c then Inr (ERR_CONNECTION_NOT_LOGGED, c)
     else if argc < 2 \<or> argc > 3 then Inr (ERR_WRONG_ARGUMENTS_COUNT, c)
     else
       bindE (arg argv 0) (\<lambda>u. bindE (arg argv 1) (\<lambda>yn.
       if yn \<noteq> ''yes'' \<and> yn \<noteq> ''no'' then Inr (ERR_MISUSE_ARGUMENT, c)
       else
         bindE (if argc = 2 then Inr ''pass123'' else arg argv 2) (\<lambda>p.
         ask X (send_cmd_new_user (ce_transport X) (ce_json X) (ce_usable X)
             \<lparr>new_user = \<lparr>username = u, password = p, admin = (if yn = ''yes'' then 1 else 0)\<rparr>\<rparr>)
           (\<lambda>r c. bindE (tell_data r c) (\<lambda>c. Inr (COMMAND_OK, c))) c))))"

text \<open>\<open>close\<close> has no answer; the shell closes the connection when it sees \<open>COMMAND_CLOSE_OK\<close>.\<close>

definition cmd_close :: "'j client_env \<Rightarrow> string list \<Rightarrow> int \<Rightarrow> client \<Rightarrow> (int \<times> client) result" where
  "cmd_close X argv argc c =
     bindE (asks_help argv argc) (\<lambda>help.
     if help then Inr (COMMAND_OK, c)
     else if \<not> is_connection_open (c_conn c) then Inr (ERR_CONNECTION_NOT_OPEN, c)
     else if c_logged c then Inr (ERR_ALREADY_DONE, c)
     else if argc \<noteq> 0 then Inr (ERR_WRONG_ARGUMENTS_COUNT, c)
     else
       bindE (send_cmd_close (ce_transport X) (ce_json X) (ce_usable X) (c_conn c)
           (comm_error COMMAND_OK ''Sending command'') (c_io c)) (\<lambda>(err, v).
       let c = c\<lparr>c_io := v\<rparr> in
       if err_code err \<noteq> 0 then Inr (err_code err, c) else Inr (COMMAND_CLOSE_OK, c)))"

text \<open>\<open>commands\<close> and \<open>help\<close> only print.\<close>

definition cmd_commands :: "string list \<Rightarrow> int \<Rightarrow> client \<Rightarrow> (int \<times> client) result" where
  "cmd_commands argv argc c = bindE (asks_help argv argc) (\<lambda>help. Inr (COMMAND_OK, c))"

definition cmd_help :: "string list \<Rightarrow> int \<Rightarrow> client \<Rightarrow> (int \<times> client) result" where
  "cmd_help argv argc c =
     bindE (asks_help argv argc) (\<lambda>help.
     if help then Inr (COMMAND_OK, c)
     else if argc \<noteq> 1 then Inr (ERR_WRONG_ARGUMENTS_COUNT, c)
     else Inr (COMMAND_OK, c))"

definition cmd_change_pass :: "'j client_env \<Rightarrow> string list \<Rightarrow> int \<Rightarrow> client \<Rightarrow> (int \<times> client) result" where
  "cmd_change_pass X argv argc c =
     bindE (asks_help argv argc) (\<lambda>help.
     if help then Inr (COMMAND_OK, c)
     else if \<not> is_connection_open (c_conn c) then Inr (ERR_CONNECTION_NOT_OPEN, c)
     else if \<not> c_logged c then Inr (ERR_CONNECTION_NOT_LOGGED, c)
     else if argc \<noteq> 1 then Inr (ERR_WRONG_ARGUMENTS_COUNT, c)
     else
       bindE (arg argv 0) (\<lambda>p.
       ask X (send_cmd_change_pass (ce_transport X) (ce_json X) (ce_usable X) \<lparr>pass = p\<rparr>)
         (\<lambda>r c. bindE (tell_data r c) (\<lambda>c. Inr (COMMAND_OK, c))) c))"

section \<open>The table\<close>

text \<open>The function pointer of an entry.\<close>

datatype command_fun =
    Cmd_open | Cmd_close | Cmd_sendi | Cmd_sendd | Cmd_sends | Cmd_help | Cmd_get | Cmd_post | Cmd_login
  | Cmd_logout | Cmd_commands | Cmd_new_user | Cmd_change_pass

definition call :: "'j client_env \<Rightarrow> command_fun \<Rightarrow> string list \<Rightarrow> int \<Rightarrow> client \<Rightarrow> (int \<times> client) result" where
  "call X f =
     (case f of
        Cmd_open \<Rightarrow> cmd_open X | Cmd_close \<Rightarrow> cmd_close X | Cmd_sendi \<Rightarrow> cmd_sendi X
      | Cmd_sendd \<Rightarrow> cmd_sendd X | Cmd_sends \<Rightarrow> cmd_sends X | Cmd_help \<Rightarrow> cmd_help | Cmd_get \<Rightarrow> cmd_get X
      | Cmd_post \<Rightarrow> cmd_post X | Cmd_login \<Rightarrow> cmd_login X | Cmd_logout \<Rightarrow> cmd_logout X
      | Cmd_commands \<Rightarrow> cmd_commands | Cmd_new_user \<Rightarrow> cmd_new_user X | Cmd_change_pass \<Rightarrow> cmd_change_pass X)"

record client_command_info_t =
  correct_use :: string
  help_text :: string

record client_command_t =
  cmd_name :: string
  cmd_fun :: command_fun
  cmd_info :: client_command_info_t

definition new_command :: "string \<Rightarrow> string \<Rightarrow> string \<Rightarrow> command_fun \<Rightarrow> client_command_t" where
  "new_command n use h f = \<lparr>cmd_name = n, cmd_fun = f, cmd_info = \<lparr>correct_use = use, help_text = h\<rparr>\<rparr>"

text \<open>The 50 cells end with a null pointer after the thirteen commands.\<close>

definition initialize_commands :: "client_command_t list" where
  "initialize_commands =
    [new_command ''open'' ''open url''
       (''Opens connection with the server'' @ NEWLINE # ''Correct use: open url'') Cmd_open,
     new_command ''close'' ''close''
       (''Closes connection'' @ NEWLINE # ''Correct use: close'') Cmd_close,
     new_command ''sendi'' ''sendi int''
       (''Sends int to server and returns the double'' @ NEWLINE # ''Correct use: sendi int'') Cmd_sendi,
     new_command ''sendd'' ''sendd double''
       (''Sends double to server and returns the double'' @ NEWLINE # ''Correct use: sendd double'') Cmd_sendd,
     new_command ''sends'' ''sends string''
       (''Sends string to server and returns it without the first two chars'' @ NEWLINE #
        ''Correct use: sends string'') Cmd_sends,
     new_command ''help'' ''help command''
       (''Shows help of the command'' @ NEWLINE # ''Correct use: help command OR command help'') Cmd_help,
     new_command ''get'' ''get alias''
       (''Gets your file with the alias indicated'' @ NEWLINE # ''Correct use: get alias'') Cmd_get,
     new_command ''post'' ''post alias file''
       (''Posts file in the system'' @ NEWLINE # ''Correct use: post alias file'') Cmd_post,
     new_command ''login'' ''login username password''
       (''Logs in the server'' @ NEWLINE # ''Correct use: login username password'') Cmd_login,
     new_command ''logout'' ''logout''
       (''Logs out of the system'' @ NEWLINE # ''Correct use: logout'') Cmd_logout,
     new_command ''commands'' ''commands''
       (''Shows all the commands'' @ NEWLINE # ''Correct use: commands'') Cmd_commands,
     new_command ''newuser'' ''newuser name yes/no [pass]''
       (''Creates a new user, you must have root permission'' @ NEWLINE #
        ''Correct use: newuser name yes/no [pass]'') Cmd_new_user,
     new_command ''ch_pass'' ''ch_pass password''
       (''Changes your password'' @ NEWLINE # ''Correct use: ch_pass password'') Cmd_change_pass]"

text \<open>The loop over the table: the first entry with the name.\<close>

fun find_command :: "string \<Rightarrow> client_command_t list \<Rightarrow> command_fun option" where
  "find_command n [] = None"
| "find_command n (k # ks) = (if n = cmd_name k then Some (cmd_fun k) else find_command n ks)"

definition cmd_parse :: "'j client_env \<Rightarrow> string \<Rightarrow> client \<Rightarrow> (int \<times> client) result" where
  "cmd_parse X cmd c =
     (let comms = split_arguments cmd in
      bindE (count_elements comms) (\<lambda>argc.
      case comms of
        None \<Rightarrow> Inl Null_deref
      | Some v \<Rightarrow>
          bindE (arg v 0) (\<lambda>first.
          case find_command first initialize_commands of
            None \<Rightarrow> Inr (ERR_COMMAND_NOT_FOUND, c)
          | Some f \<Rightarrow> call X f (tl v) (int argc - 1) c)))"

section \<open>Asking and being answered\<close>

definition client_ok :: "'j client_env \<Rightarrow> bool" where
  "client_ok X \<longleftrightarrow> json_c_laws (ce_json X) \<and> allocator (ce_usable X)"

text \<open>The next frame on the response descriptor holds this message.\<close>

definition answer_waits :: "'j client_env \<Rightarrow> message \<Rightarrow> string \<Rightarrow> client \<Rightarrow> bool" where
  "answer_waits X m rest c \<longleftrightarrow> (\<exists>b. frame_ok b (stringify (ce_json X) m) \<and>
     fd_in (c_io c) (res_fd (c_conn c)) = frame_bytes b (stringify (ce_json X) m) @ rest)"

text \<open>One request has gone out, whole, and one frame has been taken in.\<close>

definition asked :: "'j client_env \<Rightarrow> message \<Rightarrow> string \<Rightarrow> client \<Rightarrow> io \<Rightarrow> bool" where
  "asked X m rest c v \<longleftrightarrow> (\<exists>b r. boundary_shape b \<and> rng_ok r \<and>
     v = (emit (req_fd (c_conn c)) (frame_bytes b (stringify (ce_json X) m)) ((c_io c)\<lparr>io_rng := r\<rparr>))
       \<lparr>fd_in := (fd_in (c_io c))(res_fd (c_conn c) := rest)\<rparr>)"

text \<open>What the parser makes of a message when fresh blocks are zero: for a data reply, a string.\<close>

fun parsed :: "(nat \<Rightarrow> nat) \<Rightarrow> message \<Rightarrow> parse_result_t \<Rightarrow> bool" where
  "parsed U (MData s n) r =
     (r = \<lparr>kind = ''data'', pdata = PData (s @ replicate (U (length s + 1) - length s) ZERO)\<rparr>)"
| "parsed U m r = message_carried m r"

lemma parse_parsed:
  assumes "json_c_laws J" "allocator U" "message_ok m"
  shows "\<exists>r. parse_encoded J U ZERO (stringify J m) = Inr r \<and> parsed U m r"
proof (cases m)
  case (MData s n)
  with assms show ?thesis by (simp add: stringify_data_def parse_encoded_def Let_def json)
qed (use parse_stringify [OF assms, of ZERO] in simp_all)

lemma zeros_from: "allocator U \<Longrightarrow> \<exists>t. replicate (U (length s + 1) - length s) ZERO = ZERO # t"
  using allocatorD [of U "length s + 1"] by (cases "U (length s + 1) - length s") auto

lemma ask_answered:
  assumes "client_ok X" "ce_junk X = ZERO" "rng_ok (io_rng (c_io c))" "message_ok m'" "answer_waits X m' rest c"
    "\<And>conn e w. send conn e w = send_text (ce_transport X) (ce_usable X) (stringify (ce_json X) m) conn e w"
  shows "\<exists>v r. ask X send finish c = finish r (c\<lparr>c_io := v\<rparr>) \<and> asked X m rest c v \<and> parsed (ce_usable X) m' r"
proof -
  let ?J = "ce_json X" and ?U = "ce_usable X" and ?T = "ce_transport X" and ?conn = "c_conn c"
  let ?e = "comm_error COMMAND_OK ''Sending command''"
  have ok: "json_c_laws ?J" "allocator ?U" using assms(1) by (simp_all add: client_ok_def)
  obtain b r where s: "send_text ?T ?U (stringify ?J m) ?conn ?e (c_io c) =
      Inr (case ?T of Fifo \<Rightarrow> comm_error NO_COMM_ERROR ''OK'' | Socket \<Rightarrow> ?e,
           emit (req_fd ?conn) (frame_bytes b (stringify ?J m)) ((c_io c)\<lparr>io_rng := r\<rparr>))" (is "_ = Inr (?e1, ?w)")
    and b: "boundary_shape b" "rng_ok r"
    by (rule send_text_bytes [OF ok assms(3)])
  have e1: "err_code ?e1 = 0" by (simp add: NO_COMM_ERROR_def COMMAND_OK_def split: transport.splits)
  obtain b' where b': "frame_ok b' (stringify ?J m')"
    "fd_in (c_io c) (res_fd ?conn) = frame_bytes b' (stringify ?J m') @ rest"
    using assms(5) by (auto simp: answer_waits_def)
  have "fd_in ?w (res_fd ?conn) = frame_bytes b' (stringify ?J m') @ rest"
    using b'(2) by (simp add: emit_def)
  then obtain r' where r': "receive ?T ?J ?U ZERO ?conn ?e1 ?w =
      Inr (Some r', comm_error NO_COMM_ERROR ''Receive Data Sucessful'', ?w\<lparr>fd_in := (fd_in ?w)(res_fd ?conn := rest)\<rparr>)"
    using receive_message [OF ok assms(4) b'(1)] by blast
  have "parsed ?U m' r'"
  proof -
    obtain t where "comm_receive_data ?T ?conn ?e1 ?w = Inr (stringify ?J m' @ ZERO # t,
        comm_error NO_COMM_ERROR ''Receive Data Sucessful'', ?w\<lparr>fd_in := (fd_in ?w)(res_fd ?conn := rest)\<rparr>)"
      by (rule comm_receive_frame [OF b'(1), of ?w ?conn rest ?T ?e1])
        (use b'(2) in \<open>simp_all add: frame_bytes_def emit_def\<close>)
    with r' parse_parsed [OF ok assms(4)] stringify_nul_free [OF ok(1), of m'] show ?thesis
      by (auto simp: receive_def cstr_append NO_COMM_ERROR_def)
  qed
  moreover have "asked X m rest c (?w\<lparr>fd_in := (fd_in ?w)(res_fd ?conn := rest)\<rparr>)"
    unfolding asked_def using b by (intro exI [of _ b] exI [of _ r]) (simp add: emit_def)
  moreover have "ask X send finish c = finish r' (c\<lparr>c_io := ?w\<lparr>fd_in := (fd_in ?w)(res_fd ?conn := rest)\<rparr>\<rparr>)"
    using assms(2) e1 r' by (simp add: ask_def assms(6) s Let_def NO_COMM_ERROR_def)
  ultimately show ?thesis by blast
qed

lemma tell_data_parsed:
  assumes "client_ok X" "parsed (ce_usable X) (MData s n) r" "nul_free s"
  shows "tell_data r c = Inr (tell (Told_string s) c)"
  using zeros_from [of "ce_usable X" s] assms by (auto simp: client_ok_def tell_data_def cstr_append)

section \<open>Lines\<close>

text \<open>The commands that need a connection, and a login.\<close>

definition needs_connection :: "command_fun \<Rightarrow> bool" where
  "needs_connection f \<longleftrightarrow> f \<notin> {Cmd_open, Cmd_help, Cmd_commands}"

definition needs_login :: "command_fun \<Rightarrow> bool" where
  "needs_login f \<longleftrightarrow> f \<in> {Cmd_get, Cmd_post, Cmd_logout, Cmd_new_user, Cmd_change_pass}"

lemma arg_0 [simp]: "arg (a # as) 0 = Inr a"
  by (simp add: arg_def)

lemma arg_Suc [simp]: "arg (a # as) (Suc i) = arg as i"
  by (simp add: arg_def)

lemma arg_numeral [simp]: "arg (a # as) 1 = arg as 0" "arg (a # as) 2 = arg as 1"
  by (simp_all add: arg_def)

lemma asks_help_args [simp]:
  "asks_help (args @ ['''']) (int (length args)) = Inr (args = [''help''])"
  by (cases args) (auto simp: asks_help_def show_help_for_command_def)

lemma cmd_parse_line:
  assumes "\<forall>a \<in> set ((g, n) # args). Utils.arg_ok (snd a)"
  shows "cmd_parse X (join_args ((g, n) # args)) c =
    (case find_command n initialize_commands of
       None \<Rightarrow> Inr (ERR_COMMAND_NOT_FOUND, c)
     | Some f \<Rightarrow> call X f (map snd args @ ['''']) (int (length args)) c)"
proof -
  have "'''' \<notin> set (map snd ((g, n) # args))" using assms by (auto simp: Utils.arg_ok_def)
  then have "count_elements (Some (map snd ((g, n) # args) @ [''''])) = Inr (length ((g, n) # args))"
    using count_from_args [of "map snd ((g, n) # args)" 0] by (simp add: count_elements_def)
  then show ?thesis
    by (simp add: cmd_parse_def split_join_args_aux [OF assms] Let_def del: join_args.simps split: option.splits)
qed

lemmas cmd_defs = cmd_open_def cmd_close_def cmd_sendi_def cmd_sendd_def cmd_sends_def cmd_help_def cmd_get_def
  cmd_post_def cmd_login_def cmd_logout_def cmd_commands_def cmd_new_user_def cmd_change_pass_def

section \<open>Properties\<close>

text \<open>
  C19: A line the user types as a command and its arguments, with any number of spaces and with quotes,
  runs the command of that name on exactly these arguments, or reports that there is none.
\<close>

theorem command_line_reaches_command:
  assumes "\<forall>a \<in> set ((g, n) # args). Utils.arg_ok (snd a)"
  shows "cmd_parse X (join_args ((g, n) # args)) c =
    (case map_of (map (\<lambda>k. (cmd_name k, cmd_fun k)) initialize_commands) n of
       None \<Rightarrow> Inr (ERR_COMMAND_NOT_FOUND, c)
     | Some f \<Rightarrow> call X f (map snd args @ ['''']) (int (length args)) c)"
proof -
  have "find_command n ks = map_of (map (\<lambda>k. (cmd_name k, cmd_fun k)) ks) n" for ks
    by (induction ks) simp_all
  with cmd_parse_line [OF assms, of X c] show ?thesis by simp
qed

text \<open>
  A line whose last quote is left open (and that does not end in a space) crashes the client: the
  splitter returns a null vector and the count of its elements reads through it.
\<close>

theorem open_quote_crashes_client:
  assumes "odd (count_list s QUOTE)" "last s \<noteq> SPACE"
  shows "cmd_parse X s c = Inl Null_deref"
  using assms split_arguments_None [of s] by (simp add: cmd_parse_def count_elements_def Let_def)

text \<open>
  C25: Without a connection every command but \<open>open\<close>, \<open>help\<close> and \<open>commands\<close>, and without a login
  every command on files and users, is refused: its code says so, and neither the state nor the
  streams change.
\<close>

theorem client_refuses:
  assumes "args \<noteq> [''help'']"
    "needs_connection f \<and> \<not> is_connection_open (c_conn c) \<and> code = ERR_CONNECTION_NOT_OPEN \<or>
     needs_login f \<and> is_connection_open (c_conn c) \<and> \<not> c_logged c \<and> code = ERR_CONNECTION_NOT_LOGGED"
  shows "call X f (args @ ['''']) (int (length args)) c = Inr (code, c)"
  using assms(2)
proof (elim disjE conjE)
  assume "needs_connection f" "\<not> is_connection_open (c_conn c)" "code = ERR_CONNECTION_NOT_OPEN"
  then show ?thesis
    using assms(1) by (cases f) (simp_all add: call_def needs_connection_def cmd_defs)
next
  assume "needs_login f" "is_connection_open (c_conn c)" "\<not> c_logged c" "code = ERR_CONNECTION_NOT_LOGGED"
  then show ?thesis
    using assms(1) by (cases f) (simp_all add: call_def needs_login_def cmd_defs)
qed

lemma client_login_sent:
  assumes "client_ok X" "ce_junk X = ZERO" "rng_ok (io_rng (c_io c))" "is_connection_open (c_conn c)" "\<not> c_logged c"
    "nul_free s" "answer_waits X (MData s n) rest c"
  shows "\<exists>v. cmd_login X [u, p, ''''] 2 c =
      (if s = LOGIN_FAILED then Inr (ERR_LOGIN_FAILED, tell (Told_string s) (c\<lparr>c_io := v\<rparr>))
       else Inr (COMMAND_OK, (tell (Told_string s) (c\<lparr>c_io := v\<rparr>))\<lparr>c_logged := True\<rparr>)) \<and>
    asked X (MLogin \<lparr>login_user = \<lparr>username = u, password = p, admin = of_nat (of_char (ce_junk X))\<rparr>\<rparr>) rest c v"
proof -
  let ?m = "\<lparr>login_user = \<lparr>username = u, password = p, admin = of_nat (of_char (ce_junk X))\<rparr>\<rparr>"
  let ?send = "send_cmd_login (ce_transport X) (ce_json X) (ce_usable X) ?m"
  have send: "?send conn e w = send_text (ce_transport X) (ce_usable X) (stringify (ce_json X) (MLogin ?m)) conn e w"
    for conn e w by (simp add: send_cmd_login_def)
  have ok: "message_ok (MData s n)" using assms(6) by simp
  obtain finish where cmd: "cmd_login X [u, p, ''''] 2 c = ask X ?send finish c"
    and finish: "finish = (\<lambda>r c. case pdata r of
             PData b \<Rightarrow>
               bindE (tell_data r c) (\<lambda>c.
               bindE (strcmp_buf (LOGIN_FAILED @ [ZERO]) b) (\<lambda>failed.
               if failed then Inr (ERR_LOGIN_FAILED, c)
               else Inr (COMMAND_OK, c\<lparr>c_logged := True\<rparr>)))
           | _ \<Rightarrow> Inr (COMMAND_OK, c\<lparr>c_logged := True\<rparr>))"
    using assms(4,5) by (simp add: cmd_login_def asks_help_def)
  obtain v r where vr: "ask X ?send finish c = finish r (c\<lparr>c_io := v\<rparr>)" "asked X (MLogin ?m) rest c v"
    "parsed (ce_usable X) (MData s n) r"
    using ask_answered [OF assms(1-3) ok assms(7) send] by blast
  obtain t where t: "pdata r = PData (s @ ZERO # t)"
    using vr(3) zeros_from [of "ce_usable X" s] assms(1) by (auto simp: client_ok_def)
  have "strcmp_buf (LOGIN_FAILED @ [ZERO]) (s @ ZERO # t) = Inr (s = LOGIN_FAILED)"
    using strcmp_buf_strings [of LOGIN_FAILED s "[]" t] assms(6) by (auto simp: LOGIN_FAILED_def)
  with t tell_data_parsed [OF assms(1) vr(3) assms(6), of "c\<lparr>c_io := v\<rparr>"]
  have "finish r (c\<lparr>c_io := v\<rparr>) =
      (if s = LOGIN_FAILED then Inr (ERR_LOGIN_FAILED, tell (Told_string s) (c\<lparr>c_io := v\<rparr>))
       else Inr (COMMAND_OK, (tell (Told_string s) (c\<lparr>c_io := v\<rparr>))\<lparr>c_logged := True\<rparr>))"
    by (simp add: finish)
  with cmd vr(1,2) show ?thesis by (intro exI [of _ v]) simp
qed

text \<open>
  \<open>login\<close> sends the credentials and takes one answer: the client counts as logged in exactly when
  the server's text is not \<open>Login failed\<close>, and the user is told the text.
\<close>

theorem client_login_answer:
  assumes "client_ok X" "ce_junk X = ZERO" "rng_ok (io_rng (c_io c))" "is_connection_open (c_conn c)" "\<not> c_logged c"
    "nul_free s" "answer_waits X (MData s n) rest c"
  shows "\<exists>v m. cmd_login X [u, p, ''''] 2 c =
      (if s = LOGIN_FAILED then Inr (ERR_LOGIN_FAILED, tell (Told_string s) (c\<lparr>c_io := v\<rparr>))
       else Inr (COMMAND_OK, (tell (Told_string s) (c\<lparr>c_io := v\<rparr>))\<lparr>c_logged := True\<rparr>)) \<and>
    asked X (MLogin m) rest c v \<and> username (login_user m) = u \<and> password (login_user m) = p"
proof -
  let ?m = "\<lparr>login_user = \<lparr>username = u, password = p, admin = of_nat (of_char (ce_junk X))\<rparr>\<rparr>"
  have "username (login_user ?m) = u" "password (login_user ?m) = p" by simp_all
  with client_login_sent [OF assms, of u p] show ?thesis by blast
qed

section \<open>Concrete runs\<close>

definition sample_env :: "jv client_env" where
  "sample_env = \<lparr>ce_transport = Fifo, ce_json = flat_json, ce_usable = granule_size, ce_junk = ZERO,
     ce_fresh = sample_addr\<lparr>host := ''unset''\<rparr>, ce_atof = (\<lambda>_. 0), ce_fifo = sample_fifo_env [],
     ce_socket = \<lparr>se_socket = None, se_host_known = True, se_connects = True, se_binds = True, se_listens = True,
       se_accept = None, se_bytes = []\<rparr>\<rparr>"

definition sample_user_of :: "string \<Rightarrow> bool \<Rightarrow> client" where
  "sample_user_of input lg = \<lparr>c_conn = sample_conn, c_logged = lg, c_io = sample_io\<lparr>fd_in := (\<lambda>_. input)\<rparr>,
     c_disk = \<lparr>files = (\<lambda>_. None), can_create = (\<lambda>_. True), short_writes = []\<rparr>, c_told = []\<rparr>"

lemma client_ok_sample [simp]: "client_ok sample_env"
  by (simp add: client_ok_def sample_env_def)

lemma sample_env_simps [simp]:
  "ce_junk sample_env = ZERO" "ce_json sample_env = flat_json" "ce_usable sample_env = granule_size"
  "ce_transport sample_env = Fifo"
  by (simp_all add: sample_env_def)

lemma sample_user_simps [simp]:
  "c_conn (sample_user_of i b) = sample_conn" "c_logged (sample_user_of i b) = b" "c_told (sample_user_of i b) = []"
  "fd_in (c_io (sample_user_of i b)) fd = i" "rng_ok (io_rng (c_io (sample_user_of i b)))"
  by (simp_all add: sample_user_of_def sample_io_def sample_rng_def rng_ok_def)

lemma sample_conn_open [simp]: "is_connection_open sample_conn"
  by (simp add: is_connection_open_def sample_conn_def)

lemma frame_ok_login_failed: "frame_ok sample_boundary (stringify flat_json (MData LOGIN_FAILED 12))"
proof -
  have "stringify flat_json (MData LOGIN_FAILED 12) = X \<Longrightarrow> X \<noteq> [] \<and> nul_free X \<and> CHR ''-'' \<notin> set X \<and> length X < 2018
      \<Longrightarrow> ?thesis" for X using frame_ok_text by simp
  moreover have "(let X = stringify flat_json (MData LOGIN_FAILED 12) in
      list_all (\<lambda>c. c \<noteq> ZERO \<and> c \<noteq> CHR ''-'') X \<and> X \<noteq> [] \<and> length X < 2018)"
    by code_simp
  ultimately show ?thesis by (auto simp: Let_def list_all_iff nul_free_def)
qed

theorem command_line_reaches_command_witness:
  "cmd_parse sample_env (join_args [(2, ''sendi''), (1, ''21'')]) (sample_user_of [] False) =
    (case map_of (map (\<lambda>k. (cmd_name k, cmd_fun k)) initialize_commands) ''sendi'' of
       None \<Rightarrow> Inr (ERR_COMMAND_NOT_FOUND, sample_user_of [] False)
     | Some f \<Rightarrow> call sample_env f (map snd [(1 :: nat, ''21'')] @ ['''']) (int (length [(1 :: nat, ''21'')]))
         (sample_user_of [] False))"
  by (rule command_line_reaches_command) (simp add: Utils.arg_ok_def)

theorem open_quote_crashes_client_witness:
  "cmd_parse sample_env (''sends '' @ [QUOTE] @ ''hola mundo'') (sample_user_of [] False) = Inl Null_deref"
  by (rule open_quote_crashes_client) simp_all

theorem client_refuses_witness:
  "call sample_env Cmd_post ([''a'', ''b''] @ ['''']) (int (length [''a'', ''b''])) (sample_user_of [] False) =
    Inr (ERR_CONNECTION_NOT_LOGGED, sample_user_of [] False)"
  by (rule client_refuses) (simp_all add: needs_login_def)

theorem client_login_answer_witness:
  "let c = sample_user_of (frame_bytes sample_boundary (stringify flat_json (MData LOGIN_FAILED 12)) @ ''x'') False in
   \<exists>v m. cmd_login sample_env [''ana'', ''y'', ''''] 2 c =
      (if LOGIN_FAILED = LOGIN_FAILED then Inr (ERR_LOGIN_FAILED, tell (Told_string LOGIN_FAILED) (c\<lparr>c_io := v\<rparr>))
       else Inr (COMMAND_OK, (tell (Told_string LOGIN_FAILED) (c\<lparr>c_io := v\<rparr>))\<lparr>c_logged := True\<rparr>)) \<and>
    asked sample_env (MLogin m) ''x'' c v \<and> username (login_user m) = ''ana'' \<and> password (login_user m) = ''y''"
  unfolding Let_def
  by (rule client_login_answer [where n = 12])
     (use frame_ok_login_failed in \<open>auto simp: answer_waits_def LOGIN_FAILED_def simp del: stringify.simps\<close>)

section \<open>The thread of \<open>get\<close>\<close>

lemma cmd_get_sends:
  assumes "client_ok X" "rng_ok (io_rng (c_io c))" "is_connection_open (c_conn c)" "c_logged c" "p \<noteq> ''help''"
  shows "\<exists>b r. boundary_shape b \<and> rng_ok r \<and>
    cmd_get X [p, ''''] 1 c = Inr (COMMAND_OK, c\<lparr>c_io :=
      (emit (req_fd (c_conn c)) (frame_bytes b (stringify (ce_json X) (MGet \<lparr>get_path = p\<rparr>))) ((c_io c)\<lparr>io_rng := r\<rparr>))
      \<lparr>listeners := listeners (c_io c) @ [c_conn c]\<rparr>\<rparr>)"
proof -
  let ?t = "stringify (ce_json X) (MGet \<lparr>get_path = p\<rparr>)"
  have "nul_free ?t" "allocator (ce_usable X)"
    using assms(1) stringify_nul_free [of "ce_json X"] unfolding client_ok_def by blast+
  with send_frame_bytes [of "ce_usable X" "c_io c" ?t "[]" "c_conn c"] assms(2) obtain b r where
    "send_frame (ce_usable X) (?t @ [ZERO]) (length ?t) (c_conn c) (c_io c) =
      Inr (emit (req_fd (c_conn c)) (b @ ?t @ b) ((c_io c)\<lparr>io_rng := r\<rparr>))" "boundary_shape b" "rng_ok r"
    by auto
  with assms(3-5) show ?thesis
    by (intro exI [of _ b] exI [of _ r])
      (simp add: cmd_get_def asks_help_def show_help_for_command_def send_cmd_get_async_def send_text_async_def
        comm_send_data_async_def comm_send_data_async_fifo_def comm_send_data_async_socket_def frame_bytes_def emit_def
        split: transport.splits)
qed

lemma run_listener_frame:
  assumes "client_ok X" "ce_junk X = ZERO" "message_ok m" "listeners (c_io c) = conn # ls"
    "frame_ok b (stringify (ce_json X) m)"
    "fd_in (c_io c) (res_fd conn) = frame_bytes b (stringify (ce_json X) m) @ rest"
  shows "\<exists>r. parsed (ce_usable X) m r \<and>
    run_listener X c = bindE (answer_text X r) (\<lambda>ts.
      Inr (c\<lparr>c_io := (c_io c)\<lparr>listeners := ls, fd_in := (fd_in (c_io c))(res_fd conn := rest)\<rparr>,
             c_told := c_told c @ ts\<rparr>))"
proof -
  let ?t = "stringify (ce_json X) m" and ?w = "(c_io c)\<lparr>listeners := ls\<rparr>"
  have ok: "json_c_laws (ce_json X)" "allocator (ce_usable X)" using assms(1) by (simp_all add: client_ok_def)
  obtain r where r: "parse_encoded (ce_json X) (ce_usable X) ZERO ?t = Inr r" "parsed (ce_usable X) m r"
    using parse_parsed [OF ok assms(3)] by blast
  obtain z where z: "take_received conn ?w = Inr (?t @ ZERO # z, comm_error NO_COMM_ERROR ''Receive Data Sucessful'',
        ?w\<lparr>fd_in := (fd_in ?w)(res_fd conn := rest)\<rparr>)"
    using receive_bytes_frame [OF assms(5), of rest] assms(6) by (auto simp: take_received_def frame_bytes_def)
  have "get_handler X (comm_error NO_COMM_ERROR ''Receive Data Sucessful'') conn (?t @ ZERO # z) = answer_text X r"
    using r(1) assms(2) stringify_nul_free [OF ok(1), of m]
    by (simp add: get_handler_def NO_COMM_ERROR_def cstr_append)
  with z assms(4) r(2) show ?thesis
    by (intro exI [of _ r])
      (simp add: run_listener_def data_listener_def data_listener_fifo_def data_listener_socket_def bindE_assoc
        split: transport.splits)
qed

text \<open>
  C36: \<open>get\<close> does not keep the next command from the connection: if the user types \<open>sendi\<close> before the
  file is there, \<open>sendi\<close> takes the file's frame, tells the user nothing and reports success, the
  file is lost, and the thread that waits for the file tells the integer.
\<close>

theorem get_answer_taken_by_next_command:
  assumes "client_ok X" "ce_junk X = ZERO" "rng_ok (io_rng (c_io c))" "is_connection_open (c_conn c)" "c_logged c"
    "p \<noteq> ''help''" "a \<noteq> ''help''" "listeners (c_io c) = []" "nul_free s" "int32 j"
    "frame_ok b1 (stringify (ce_json X) (MData s n))" "frame_ok b2 (stringify (ce_json X) (MInt j))"
    "fd_in (c_io c) (res_fd (c_conn c)) = frame_bytes b1 (stringify (ce_json X) (MData s n)) @
       frame_bytes b2 (stringify (ce_json X) (MInt j)) @ rest"
  shows "\<exists>c1 c2 c3. cmd_get X [p, ''''] 1 c = Inr (COMMAND_OK, c1) \<and>
    cmd_sendi X [a, ''''] 1 c1 = Inr (COMMAND_OK, c2) \<and> c_told c2 = c_told c \<and>
    run_listener X c2 = Inr c3 \<and> c_told c3 = c_told c @ [Told_int j] \<and>
    fd_in (c_io c3) (res_fd (c_conn c3)) = rest"
proof -
  let ?J = "ce_json X"
  obtain b r where r: "rng_ok r" and g: "cmd_get X [p, ''''] 1 c = Inr (COMMAND_OK, c\<lparr>c_io :=
      (emit (req_fd (c_conn c)) (frame_bytes b (stringify ?J (MGet \<lparr>get_path = p\<rparr>))) ((c_io c)\<lparr>io_rng := r\<rparr>))
      \<lparr>listeners := listeners (c_io c) @ [c_conn c]\<rparr>\<rparr>)" (is "_ = Inr (_, ?c1)")
    using cmd_get_sends [OF assms(1,3-6)] by blast
  let ?more = "frame_bytes b2 (stringify ?J (MInt j)) @ rest"
  have in1: "fd_in (c_io ?c1) = fd_in (c_io c)" and rng1: "rng_ok (io_rng (c_io ?c1))"
    and l1: "listeners (c_io ?c1) = [c_conn c]"
    using r assms(8) by (simp_all add: emit_def)
  have waits: "answer_waits X (MData s n) ?more ?c1"
    unfolding answer_waits_def using assms(11,13) in1 by auto
  have ok: "message_ok (MData s n)" using assms(9) by simp
  let ?send = "send_int (ce_transport X) ?J (ce_usable X) (atoi a)"
  have send: "?send conn e w = send_text (ce_transport X) (ce_usable X) (stringify ?J (MInt (atoi a))) conn e w"
    for conn e w by (simp add: send_int_def)
  obtain finish where cmd: "cmd_sendi X [a, ''''] 1 ?c1 = ask X ?send finish ?c1"
    and finish: "finish = (\<lambda>r c. case pdata r of PInt i \<Rightarrow> Inr (COMMAND_OK, tell (Told_int i) c) | _ \<Rightarrow> Inr (COMMAND_OK, c))"
    using assms(4,7) by (simp add: cmd_sendi_def asks_help_def show_help_for_command_def)
  obtain v r2 where v: "ask X ?send finish ?c1 = finish r2 (?c1\<lparr>c_io := v\<rparr>)"
    "asked X (MInt (atoi a)) ?more ?c1 v" "parsed (ce_usable X) (MData s n) r2"
    using ask_answered [OF assms(1,2) rng1 ok waits send] by blast
  have s2: "cmd_sendi X [a, ''''] 1 ?c1 = Inr (COMMAND_OK, ?c1\<lparr>c_io := v\<rparr>)"
    using cmd v(1,3) by (auto simp: finish)
  have v_in: "fd_in v (res_fd (c_conn c)) = ?more" and v_l: "listeners v = [c_conn c]"
    using v(2) l1 by (auto simp: asked_def emit_def)
  have "message_ok (MInt j)" using assms(10) by simp
  then obtain r3 where "parsed (ce_usable X) (MInt j) r3" and l: "run_listener X (?c1\<lparr>c_io := v\<rparr>) =
      bindE (answer_text X r3) (\<lambda>ts. Inr (?c1\<lparr>c_io := v\<lparr>listeners := [], fd_in := (fd_in v)(res_fd (c_conn c) := rest)\<rparr>,
             c_told := c_told ?c1 @ ts\<rparr>))"
    using run_listener_frame [OF assms(1,2), of "MInt j" "?c1\<lparr>c_io := v\<rparr>" "c_conn c" "[]" b2 rest] assms(12) v_in v_l
    by auto
  then have "run_listener X (?c1\<lparr>c_io := v\<rparr>) =
      Inr (?c1\<lparr>c_io := v\<lparr>listeners := [], fd_in := (fd_in v)(res_fd (c_conn c) := rest)\<rparr>,
             c_told := c_told c @ [Told_int j]\<rparr>)"
    by (simp add: answer_text_def)
  with g s2 show ?thesis by auto
qed

theorem get_answer_taken_by_next_command_witness:
  "let b = sample_boundary; t = stringify flat_json (MData LOGIN_FAILED 12); u = stringify flat_json (MInt 42);
       c = sample_user_of (frame_bytes b t @ frame_bytes b u @ ''x'') True
   in \<exists>c1 c2 c3. cmd_get sample_env [''notas'', ''''] 1 c = Inr (COMMAND_OK, c1) \<and>
    cmd_sendi sample_env [''21'', ''''] 1 c1 = Inr (COMMAND_OK, c2) \<and> c_told c2 = c_told c \<and>
    run_listener sample_env c2 = Inr c3 \<and> c_told c3 = c_told c @ [Told_int 42] \<and>
    fd_in (c_io c3) (res_fd (c_conn c3)) = ''x''"
  unfolding Let_def
  by (rule get_answer_taken_by_next_command)
     (use frame_ok_login_failed frame_ok_int in
       \<open>simp_all add: LOGIN_FAILED_def int32_def sample_user_of_def sample_io_def sample_rng_def rng_ok_def
          del: stringify.simps\<close>)

section \<open>Opening\<close>

text \<open>
  Typing \<open>open\<close> when a connection is open is refused, but the address of the server is already
  replaced by a fresh block: the connection stays open, and closing it looks for FIFOs named after
  what that block holds, so the real ones stay behind.
\<close>

theorem open_again_forgets_server:
  assumes "allocator U" "is_connection_open (c_conn c)" "u \<noteq> ''help''"
  shows "\<exists>c'. cmd_open X [u, ''''] 1 c = Inr (ERR_ALREADY_DONE, c') \<and>
    is_connection_open (c_conn c') \<and> server_addr (c_conn c') = ce_fresh X \<and>
    (\<exists>d acts. connection_close_fifo U E (Some (c_conn c')) = Inr (CONNECTION_OK, Some d, acts) \<and>
       set (fa_removed acts) \<subseteq> {pair_fifo (host (client_addr (c_conn c))) (host (ce_fresh X)),
         pair_fifo (host (ce_fresh X)) (host (client_addr (c_conn c)))})"
  using assms(2,3)
  by (auto simp: cmd_open_def asks_help_def show_help_for_command_def is_connection_open_def Let_def
      connection_close_fifo_def sprintf_into_fits [OF assms(1)] pair_fifo_length no_acts_def)

theorem open_again_forgets_server_witness:
  "\<exists>c'. cmd_open sample_env [''fifo://google'', ''''] 1 (sample_user_of [] False) = Inr (ERR_ALREADY_DONE, c') \<and>
    is_connection_open (c_conn c') \<and> server_addr (c_conn c') = ce_fresh sample_env \<and>
    (\<exists>d acts. connection_close_fifo exact_size (sample_fifo_env [pair_fifo ''google'' ''google'']) (Some (c_conn c')) =
         Inr (CONNECTION_OK, Some d, acts) \<and>
       set (fa_removed acts) \<subseteq> {pair_fifo (host (client_addr (c_conn (sample_user_of [] False)))) (host (ce_fresh sample_env)),
         pair_fifo (host (ce_fresh sample_env)) (host (client_addr (c_conn (sample_user_of [] False))))})"
  by (rule open_again_forgets_server) simp_all

text \<open>
  What \<open>open\<close> does once the URL is accepted: every failure has the code 1, whatever the reason, and
  in the FIFO build leaves the connection closed.
\<close>

lemma cmd_open_attempt:
  assumes "\<not> is_connection_open (c_conn c)" "u \<noteq> ''help''"
    "address_from_url (ce_transport X) u (Some (ce_fresh X)) = (ADDRESS_OK, Some a)"
    "connection_open (ce_transport X) (ce_usable X) (ce_junk X) (ce_fifo X) (ce_socket X)
       ((c_conn c)\<lparr>server_addr := a\<rparr>) = Inr (e, conn)"
  shows "cmd_open X [u, ''''] 1 c = Inr (if e = 0 then COMMAND_OK else 1, c\<lparr>c_conn := conn\<rparr>)"
  using assms by (simp add: cmd_open_def asks_help_def show_help_for_command_def is_connection_open_def Let_def)

lemma connection_open_fifo_failed:
  assumes "connection_open Fifo U junk E S conn = Inr (e, conn')" "e \<noteq> 0"
  shows "is_connection_closed conn'"
  using assms open_failure_closed [of U junk E conn e] by (auto simp: connection_open_def bindE_Inr_iff split: option.splits)

end
