(* ===== verification/Client_Shell.thy ===== *)
theory Client_Shell
  imports Client_Commands
begin

text \<open>
  \<open>client/main.c\<close>: the name and address a client starts with, and the shell: reading a line into the
  buffer of 2048 bytes, running it, and closing the connection after \<open>close\<close>. The standard input is
  the string that is still to be read; at its end \<open>getchar\<close> returns \<open>EOF\<close>, which as a \<open>char\<close> is the
  byte 255.
\<close>

section \<open>Start\<close>

text \<open>The name: the option \<open>-n\<close>, or \<open>anon\<close> and a random number in a block of nine bytes.\<close>

definition client_name :: "(nat \<Rightarrow> nat) \<Rightarrow> string option \<Rightarrow> rng \<Rightarrow> (string \<times> rng) result" where
  "client_name U opt r =
     (case opt of
        Some n \<Rightarrow> Inr (n, r)
      | None \<Rightarrow>
          bindE (getrnd 1000 10000 r) (\<lambda>(rnd, r).
          bindE (sprintf_into U 9 (''anon'' @ show_int rnd)) (\<lambda>n. Inr (n, r))))"

definition protocol_name :: "transport \<Rightarrow> string" where
  "protocol_name T = (case T of Fifo \<Rightarrow> ''fifo'' | Socket \<Rightarrow> ''socket'')"

definition client_url :: "(nat \<Rightarrow> nat) \<Rightarrow> transport \<Rightarrow> string \<Rightarrow> string result" where
  "client_url U T n =
     sprintf_into U (length (protocol_name T) + 3 + length n + 1 + 5) (protocol_name T @ ''://'' @ n @ '':3000'')"

text \<open>\<open>main\<close> up to the shell: the connection with the client's address (\<open>addr_error\<close> is only printed).\<close>

definition client_start ::
  "(nat \<Rightarrow> nat) \<Rightarrow> transport \<Rightarrow> comm_addr_t \<Rightarrow> string option \<Rightarrow> rng \<Rightarrow> connection_t \<Rightarrow>
   (connection_t \<times> rng) result" where
  "client_start U T fresh opt r conn =
     bindE (client_name U opt r) (\<lambda>(n, r).
     bindE (client_url U T n) (\<lambda>u.
     case address_from_url T u (Some fresh) of
       (_, None) \<Rightarrow> Inl Null_deref
     | (_, Some a) \<Rightarrow> Inr (conn\<lparr>client_addr := a\<rparr>, r)))"

section \<open>Reading a line\<close>

abbreviation EOF_CHAR :: char where "EOF_CHAR \<equiv> CHR 0xFF"
abbreviation BACKSPACE :: char where "BACKSPACE \<equiv> CHR 0x08"
abbreviation RETURN :: char where "RETURN \<equiv> CHR 0x0D"
abbreviation TAB :: char where "TAB \<equiv> CHR 0x09"

text \<open>\<open>shell_buffer[shell_index++] = c; shell_buffer[shell_index] = 0\<close>\<close>

definition put_char :: "buf \<Rightarrow> nat \<Rightarrow> char \<Rightarrow> buf result" where
  "put_char b i c = bindE (poke b i c) (\<lambda>b. poke b (i + 1) ZERO)"

text \<open>The inner loop: the buffer and the rest of the input.\<close>

fun read_command :: "string \<Rightarrow> buf \<Rightarrow> nat \<Rightarrow> (buf \<times> string) result" where
  "read_command [] b i = bindE (put_char b i EOF_CHAR) (\<lambda>b. Inr (b, []))"
| "read_command (c # s) b i =
     (if c = NEWLINE then Inr (b, s)
      else if c = BACKSPACE then read_command s b (if 0 < i then i - 1 else i)
      else if c = RETURN then read_command s b i
      else if c = TAB then read_command s b i
      else
        bindE (put_char b i c) (\<lambda>b.
        if c = EOF_CHAR then Inr (b, s) else read_command s b (i + 1)))"

definition SHELL_BUFFER :: nat where "SHELL_BUFFER = 2048"

record shell =
  sh_client :: client
  sh_buffer :: buf
  sh_input :: string

definition start_shell :: "client \<Rightarrow> string \<Rightarrow> shell" where
  "start_shell c input = \<lparr>sh_client = c, sh_buffer = replicate SHELL_BUFFER ZERO, sh_input = input\<rparr>"

text \<open>One turn of the outer loop; \<open>X\<close> is what this command sees of the environment.\<close>

definition shell_step :: "'j client_env \<Rightarrow> shell \<Rightarrow> shell result" where
  "shell_step X sh =
     bindE (read_command (sh_input sh) (sh_buffer sh) 0) (\<lambda>(b, input).
     bindE (cstr b) (\<lambda>line.
     bindE (cmd_parse X line (sh_client sh)) (\<lambda>(err, c).
     bindE (if err = COMMAND_CLOSE_OK
            then connection_close (ce_transport X) (ce_usable X) (ce_fifo X) (c_conn c)
            else Inr (c_conn c)) (\<lambda>conn.
     bindE (poke b 0 ZERO) (\<lambda>b.
     Inr \<lparr>sh_client = c\<lparr>c_conn := conn\<rparr>, sh_buffer = b, sh_input = input\<rparr>)))))"

text \<open>The loop for as many turns as environments are given; it stops before when the connection is closed.\<close>

fun shell_run :: "'j client_env list \<Rightarrow> shell \<Rightarrow> shell result" where
  "shell_run [] sh = Inr sh"
| "shell_run (X # Xs) sh =
     (if is_connection_closed (c_conn (sh_client sh)) then Inr sh
      else bindE (shell_step X sh) (shell_run Xs))"

section \<open>What a typed line is\<close>

text \<open>
  The editor the buffer implements: a text and a cursor, where a character replaces everything from
  the cursor on and a backspace only moves the cursor.
\<close>

fun edit :: "string \<Rightarrow> nat \<Rightarrow> string \<Rightarrow> string" where
  "edit t i [] = t"
| "edit t i (c # s) =
     (if c = BACKSPACE then edit t (i - 1) s
      else if c = RETURN \<or> c = TAB then edit t i s
      else edit (take i t @ [c]) (i + 1) s)"

definition line_char :: "char \<Rightarrow> bool" where
  "line_char c \<longleftrightarrow> c \<noteq> NEWLINE \<and> c \<noteq> EOF_CHAR \<and> c \<noteq> ZERO"

definition plain_char :: "char \<Rightarrow> bool" where
  "plain_char c \<longleftrightarrow> line_char c \<and> c \<noteq> BACKSPACE \<and> c \<noteq> RETURN \<and> c \<noteq> TAB"

lemma put_char_text:
  assumes "i \<le> length t" "i + 1 < length (t @ ZERO # z)"
  shows "\<exists>z'. put_char (t @ ZERO # z) i c = Inr ((take i t @ [c]) @ ZERO # z') \<and>
    length ((take i t @ [c]) @ ZERO # z') = length (t @ ZERO # z)"
proof -
  have "2 \<le> length (drop i t @ ZERO # z)" using assms by simp
  then obtain x y r where r: "drop i t @ ZERO # z = x # y # r"
    by (metis Suc_le_length_iff numeral_2_eq_2)
  have "t @ ZERO # z = take i t @ drop i t @ ZERO # z" by simp
  then have b: "t @ ZERO # z = take i t @ x # y # r" using r by simp
  have "put_char (take i t @ x # y # r) i c = Inr (take i t @ c # ZERO # r)"
    using assms(1) by (simp add: put_char_def poke_def list_update_append)
  then show ?thesis
    by (intro exI [of _ r]) (simp only: b, simp)
qed

lemma read_command_edits:
  "list_all line_char s \<Longrightarrow> nul_free t \<Longrightarrow> i \<le> length t \<Longrightarrow> i + length s < length (t @ ZERO # z) \<Longrightarrow>
   \<exists>z'. read_command (s @ NEWLINE # rest) (t @ ZERO # z) i = Inr (edit t i s @ ZERO # z', rest) \<and>
     nul_free (edit t i s) \<and> length (edit t i s @ ZERO # z') = length (t @ ZERO # z)"
proof (induction s arbitrary: t i z)
  case Nil
  then show ?case by auto
next
  case (Cons c s)
  consider "c = BACKSPACE" | "c \<noteq> BACKSPACE" "c = RETURN \<or> c = TAB" | "plain_char c"
    using Cons.prems(1) by (auto simp: plain_char_def)
  then show ?case
  proof cases
    case 1
    have "i - 1 \<le> length t" "i - 1 + length s < length (t @ ZERO # z)" using Cons.prems(3,4) by simp_all
    from Cons.IH [OF _ Cons.prems(2) this] Cons.prems(1) obtain z' where
      "read_command (s @ NEWLINE # rest) (t @ ZERO # z) (i - 1) = Inr (edit t (i - 1) s @ ZERO # z', rest)"
      "nul_free (edit t (i - 1) s)" "length (edit t (i - 1) s @ ZERO # z') = length (t @ ZERO # z)" by auto
    moreover have "(if 0 < i then i - 1 else i) = i - 1" by simp
    ultimately show ?thesis using 1 by (intro exI [of _ z']) (simp del: One_nat_def)
  next
    case 2
    have "i + length s < length (t @ ZERO # z)" using Cons.prems(4) by simp
    from Cons.IH [OF _ Cons.prems(2,3) this] Cons.prems(1) 2 show ?thesis by auto
  next
    case 3
    obtain z1 where z1: "put_char (t @ ZERO # z) i c = Inr ((take i t @ [c]) @ ZERO # z1)"
      "length ((take i t @ [c]) @ ZERO # z1) = length (t @ ZERO # z)"
      using put_char_text [OF Cons.prems(3), of z c] Cons.prems(4) by auto
    have "nul_free (take i t @ [c])"
      using Cons.prems(2) 3 by (auto simp: nul_free_def plain_char_def line_char_def dest: in_set_takeD)
    moreover have "i + 1 \<le> length (take i t @ [c])" "i + 1 + length s < length ((take i t @ [c]) @ ZERO # z1)"
      using Cons.prems(3,4) z1(2) by simp_all
    ultimately obtain z' where "read_command (s @ NEWLINE # rest) ((take i t @ [c]) @ ZERO # z1) (i + 1) =
        Inr (edit (take i t @ [c]) (i + 1) s @ ZERO # z', rest)" "nul_free (edit (take i t @ [c]) (i + 1) s)"
      "length (edit (take i t @ [c]) (i + 1) s @ ZERO # z') = length ((take i t @ [c]) @ ZERO # z1)"
      using Cons.IH [of "take i t @ [c]" "i + 1" z1] Cons.prems(1) by auto
    moreover have "c \<noteq> NEWLINE" "c \<noteq> BACKSPACE" "c \<noteq> RETURN" "c \<noteq> TAB" "c \<noteq> EOF_CHAR"
      using 3 by (simp_all add: plain_char_def line_char_def)
    ultimately show ?thesis using z1 by (intro exI [of _ z']) simp
  qed
qed

lemma edit_plain: "list_all plain_char s \<Longrightarrow> edit t (length t) s = t @ s"
proof (induction s arbitrary: t)
  case (Cons c s)
  from Cons.IH [of "t @ [c]"] Cons.prems show ?case by (simp add: plain_char_def)
qed simp

lemma edit_backspace: "edit t i (s @ [BACKSPACE]) = edit t i s"
  by (induction s arbitrary: t i) auto

lemma read_command_plain_over:
  "list_all plain_char s \<Longrightarrow> i < length b \<Longrightarrow> length b \<le> i + length s \<Longrightarrow>
    read_command (s @ rest) b i = Inl Out_of_bounds"
proof (induction s arbitrary: b i)
  case (Cons c s)
  have c: "c \<noteq> NEWLINE" "c \<noteq> BACKSPACE" "c \<noteq> RETURN" "c \<noteq> TAB" "c \<noteq> EOF_CHAR"
    using Cons.prems(1) by (simp_all add: plain_char_def line_char_def)
  show ?case
  proof (cases "i + 1 < length b")
    case True
    with Cons.IH [where b = "(b[i := c])[i + 1 := ZERO]" and i = "i + 1"] Cons.prems c show ?thesis
      by (simp add: put_char_def poke_def)
  next
    case False
    with c show ?thesis by (simp add: put_char_def poke_def)
  qed
qed simp

section \<open>Turns of the shell\<close>

definition shell_ok :: "shell \<Rightarrow> bool" where
  "shell_ok sh \<longleftrightarrow> length (sh_buffer sh) = SHELL_BUFFER \<and> (\<exists>z. sh_buffer sh = ZERO # z)"

lemma start_shell_ok [simp]: "shell_ok (start_shell c input)"
  by (simp add: shell_ok_def start_shell_def SHELL_BUFFER_def numeral_eq_Suc)

lemma poke_length: "poke b i c = Inr b' \<Longrightarrow> length b' = length b"
  by (auto simp: poke_def split: if_splits)

lemma put_char_length: "put_char b i c = Inr b' \<Longrightarrow> length b' = length b"
  by (auto simp: put_char_def bindE_Inr_iff dest!: poke_length)

lemma digit_goes_on: "is_digit c \<Longrightarrow> goes_on c"
  by (auto simp: is_digit_def goes_on_def)

lemma read_command_frame:
  "read_command s b i = Inr (b', s') \<Longrightarrow> length b' = length b \<and> suffix s' s \<and> (s = [] \<or> length s' < length s)"
proof (induction s b i rule: read_command.induct)
  case (1 b i)
  then show ?case by (auto simp: bindE_Inr_iff dest: put_char_length)
next
  case (2 c s b i)
  show ?case
  proof (cases "c \<in> {NEWLINE, BACKSPACE, RETURN, TAB}")
    case True
    with 2 show ?thesis by (auto simp: suffix_Cons split: if_splits)
  next
    case False
    with "2.prems" obtain b1 where b1: "put_char b i c = Inr b1"
      and r: "(if c = EOF_CHAR then Inr (b1, s) else read_command s b1 (i + 1)) = Inr (b', s')"
      by (auto simp: bindE_Inr_iff)
    have "length b1 = length b" using b1 by (rule put_char_length)
    with "2.IH"(4) [OF _ _ _ _ b1] r False show ?thesis by (auto simp: suffix_Cons split: if_splits)
  qed
qed

lemma shell_step_ok:
  assumes "shell_step X sh = Inr sh'"
  shows "shell_ok sh \<Longrightarrow> shell_ok sh'" "suffix (sh_input sh') (sh_input sh)"
    "sh_input sh = [] \<or> length (sh_input sh') < length (sh_input sh)"
proof -
  obtain b input where r: "read_command (sh_input sh) (sh_buffer sh) 0 = Inr (b, input)"
    and b': "poke b 0 ZERO = Inr (sh_buffer sh')" and i: "sh_input sh' = input"
    using assms by (auto simp: shell_step_def bindE_Inr_iff)
  note frame = read_command_frame [OF r]
  show "suffix (sh_input sh') (sh_input sh)" "sh_input sh = [] \<or> length (sh_input sh') < length (sh_input sh)"
    using frame i by auto
  assume "shell_ok sh"
  moreover have "sh_buffer sh' = b[0 := ZERO]" "0 < length b"
    using b' by (auto simp: poke_def split: if_splits)
  ultimately show "shell_ok sh'"
    using frame by (cases b) (simp_all add: shell_ok_def)
qed

lemma shell_step_line:
  assumes "shell_ok sh" "sh_input sh = line @ NEWLINE # rest" "list_all line_char line" "length line < SHELL_BUFFER"
  shows "\<exists>b. length b = SHELL_BUFFER \<and> shell_step X sh =
     bindE (cmd_parse X (edit [] 0 line) (sh_client sh)) (\<lambda>(err, c).
     bindE (if err = COMMAND_CLOSE_OK
            then connection_close (ce_transport X) (ce_usable X) (ce_fifo X) (c_conn c)
            else Inr (c_conn c)) (\<lambda>conn.
     Inr \<lparr>sh_client = c\<lparr>c_conn := conn\<rparr>, sh_buffer = b, sh_input = rest\<rparr>))"
proof -
  obtain z where z: "sh_buffer sh = [] @ ZERO # z" "length ([] @ ZERO # z) = SHELL_BUFFER"
    using assms(1) by (auto simp: shell_ok_def)
  obtain z' where r: "read_command (sh_input sh) (sh_buffer sh) 0 = Inr (edit [] 0 line @ ZERO # z', rest)"
    "nul_free (edit [] 0 line)" "length (edit [] 0 line @ ZERO # z') = SHELL_BUFFER"
    using read_command_edits [OF assms(3), of "[]" 0 z rest] assms(2,4) z by auto
  let ?b = "(edit [] 0 line @ ZERO # z')[0 := ZERO]"
  have "poke (edit [] 0 line @ ZERO # z') 0 ZERO = Inr ?b" by (simp add: poke_def)
  then show ?thesis
    using r by (intro exI [of _ ?b]) (simp add: shell_step_def cstr_append)
qed

section \<open>Properties\<close>

text \<open>
  A client starts with a valid address whose host is its name, also when the name is drawn: the
  name and the URL fit the blocks they are printed into.
\<close>

theorem client_starts:
  assumes "allocator U" "\<forall>n. opt = Some n \<longrightarrow> host_name n"
  shows "\<exists>n conn' r'. client_start U T fresh opt r conn = Inr (conn', r') \<and>
    valid (client_addr conn') \<and> host (client_addr conn') = n \<and>
    (case opt of Some m \<Rightarrow> n = m | None \<Rightarrow> \<exists>k. 1000 \<le> k \<and> k < 10000 \<and> n = ''anon'' @ show_nat k)"
proof -
  obtain n r' where n: "client_name U opt r = Inr (n, r')" "host_name n"
    "case opt of Some m \<Rightarrow> n = m | None \<Rightarrow> \<exists>k. 1000 \<le> k \<and> k < 10000 \<and> n = ''anon'' @ show_nat k"
  proof (cases opt)
    case None
    obtain v r' where v: "getrnd 1000 10000 r = Inr (v, r')" by (auto simp: getrnd_def Let_def)
    then have "1000 \<le> v \<and> v < 10000" using getrnd_range by fastforce
    then obtain k where k: "v = int k" "1000 \<le> k" "k < 10000" by (metis nonneg_int_cases of_nat_le_iff of_nat_less_iff of_nat_numeral order_trans zero_le_numeral)
    have len: "length (''anon'' @ show_int v) < 9"
      using length_show_nat [of 3 k] k by (simp add: show_int_def)
    have "host_name (''anon'' @ show_int v)"
      using k show_nat_digits [of _ k] digit_goes_on
      by (auto simp: host_name_def show_int_def list_all_iff goes_on_def)
    with None v len k show thesis
      by (intro that [of "''anon'' @ show_nat k" r'])
        (auto simp: client_name_def sprintf_into_fits [OF assms(1)] show_int_def)
  next
    case (Some m)
    with assms(2) show thesis by (intro that [of m r]) (simp_all add: client_name_def)
  qed
  let ?p = "protocol_name T" and ?u = "protocol_name T @ ''://'' @ n @ '':3000''"
  have u: "client_url U T n = Inr ?u"
    unfolding client_url_def by (rule sprintf_into_fits [OF assms(1)]) simp
  have "host_name ?p" "?p \<noteq> []" by (cases T; simp add: protocol_name_def host_name_def goes_on_def)+
  then have "read_protocol_host (hd ?p) ?u fresh =
      Inr (fresh\<lparr>valid := True, url := ?u, protocol := ?p, host := n\<rparr>, '':3000'')"
    using read_protocol_host_ok [of ?p n "'':3000''" fresh] n(2) by simp
  then obtain code a where a: "address_from_url T ?u (Some fresh) = (code, Some a) \<and> valid a \<and> host a = n"
    by (cases T) (simp_all add: address_from_url_def address_from_url_fifo_def address_from_url_socket_def protocol_name_def
        port_goes_on_def is_digit_def)
  then have "client_start U T fresh opt r conn = Inr (conn\<lparr>client_addr := a\<rparr>, r')"
    using n(1) u by (simp add: client_start_def)
  with a n(3) show ?thesis
    by (intro exI [of _ n] exI [of _ "conn\<lparr>client_addr := a\<rparr>"] exI [of _ r']) simp
qed

text \<open>
  C27: in every turn of the shell the buffer keeps its 2048 bytes and starts as the empty line, and the
  input only gets shorter: as long as there is input, each turn takes some of it.
\<close>

theorem shell_turns:
  assumes "shell_ok sh" "shell_run Xs sh = Inr sh'"
  shows "shell_ok sh' \<and> suffix (sh_input sh') (sh_input sh) \<and>
    (sh_input sh' = [] \<or> is_connection_closed (c_conn (sh_client sh')) \<or>
     length (sh_input sh') + length Xs \<le> length (sh_input sh))"
  using assms
proof (induction Xs arbitrary: sh)
  case (Cons X Xs)
  show ?case
  proof (cases "is_connection_closed (c_conn (sh_client sh))")
    case True
    with Cons.prems show ?thesis by auto
  next
    case False
    with Cons.prems(2) obtain sh1 where s: "shell_step X sh = Inr sh1" and r: "shell_run Xs sh1 = Inr sh'"
      by (auto simp: bindE_Inr_iff)
    note step = shell_step_ok [OF s]
    from Cons.IH [OF step(1) [OF Cons.prems(1)] r] step(2,3) show ?thesis
      by (auto dest: suffix_order.trans)
  qed
qed simp

text \<open>
  C24: the line a command is run on is what the user edited: the buffer implements a text and a cursor,
  for every line that fits.
\<close>

theorem shell_reads_edited_line:
  assumes "shell_ok sh" "sh_input sh = line @ NEWLINE # rest" "list_all line_char line" "length line < SHELL_BUFFER"
    "cmd_parse X (edit [] 0 line) (sh_client sh) = Inr (err, c)" "err \<noteq> COMMAND_CLOSE_OK"
  shows "\<exists>sh'. shell_step X sh = Inr sh' \<and> sh_client sh' = c \<and> sh_input sh' = rest"
  using shell_step_line [OF assms(1-4), of X] assms(5,6) by auto

text \<open>
  A backspace typed last has no effect: the character stays in the buffer and is run.
\<close>

theorem backspace_before_enter_ignored:
  assumes "shell_ok sh" "sh_input sh = line @ [BACKSPACE] @ NEWLINE # rest" "list_all plain_char line"
    "length line + 1 < SHELL_BUFFER" "cmd_parse X line (sh_client sh) = Inr (err, c)" "err \<noteq> COMMAND_CLOSE_OK"
  shows "\<exists>sh'. shell_step X sh = Inr sh' \<and> sh_client sh' = c \<and> sh_input sh' = rest"
proof -
  have "list_all line_char (line @ [BACKSPACE])"
    using assms(3) by (auto simp: list_all_iff plain_char_def line_char_def)
  moreover have "edit [] 0 (line @ [BACKSPACE]) = line"
    using edit_plain [OF assms(3), of "[]"] by (simp add: edit_backspace)
  ultimately show ?thesis
    using shell_step_line [OF assms(1), of "line @ [BACKSPACE]" rest X] assms(2,4-6) by auto
qed

text \<open>
  A line of ordinary characters is read within the buffer exactly when it is shorter than 2048
  bytes; the length is not checked, and a longer one is written behind the buffer.
\<close>

theorem shell_line_bound:
  assumes "shell_ok sh" "sh_input sh = line @ NEWLINE # rest" "list_all plain_char line"
  shows "read_command (sh_input sh) (sh_buffer sh) 0 = Inl Out_of_bounds \<longleftrightarrow> SHELL_BUFFER \<le> length line"
proof (cases "length line < SHELL_BUFFER")
  case True
  obtain z where z: "sh_buffer sh = [] @ ZERO # z" "length ([] @ ZERO # z) = SHELL_BUFFER"
    using assms(1) by (auto simp: shell_ok_def)
  have "list_all line_char line"
    using assms(3) by (auto simp: list_all_iff plain_char_def)
  from read_command_edits [OF this, of "[]" 0 z rest] True z assms(2) show ?thesis by auto
next
  case False
  with read_command_plain_over [OF assms(3), of 0 "sh_buffer sh" "NEWLINE # rest"] assms(1,2) show ?thesis
    by (auto simp: shell_ok_def SHELL_BUFFER_def)
qed

text \<open>
  At the end of its input the client does not stop: every turn reads \<open>EOF\<close> into the buffer, runs
  the line of that one byte, which is no command, and goes on, for any number of turns.
\<close>

theorem end_of_input_never_ends:
  assumes "shell_ok sh" "sh_input sh = []" "\<not> is_connection_closed (c_conn (sh_client sh))"
  shows "\<exists>sh'. shell_run Xs sh = Inr sh' \<and> sh_client sh' = sh_client sh \<and>
    \<not> is_connection_closed (c_conn (sh_client sh'))"
  using assms
proof (induction Xs arbitrary: sh)
  case (Cons X Xs)
  obtain y z where b: "sh_buffer sh = ZERO # y # z" "length (ZERO # y # z) = SHELL_BUFFER"
  proof -
    obtain u where "sh_buffer sh = ZERO # u" "length (ZERO # u) = SHELL_BUFFER"
      using Cons.prems(1) by (auto simp: shell_ok_def)
    then show thesis by (cases u) (auto intro: that simp: SHELL_BUFFER_def)
  qed
  have "cmd_parse X [EOF_CHAR] (sh_client sh) = Inr (ERR_COMMAND_NOT_FOUND, sh_client sh)"
    using cmd_parse_line [of 0 "[EOF_CHAR]" "[]" X "sh_client sh"]
    by (simp add: Utils.arg_ok_def initialize_commands_def new_command_def)
  then have s: "shell_step X sh = Inr (sh\<lparr>sh_buffer := ZERO # ZERO # z, sh_input := []\<rparr>)"
    using b(1) Cons.prems(2) cstr_append [of "[EOF_CHAR]" z]
    by (simp add: shell_step_def put_char_def poke_def command_codes)
  have "shell_ok (sh\<lparr>sh_buffer := ZERO # ZERO # z, sh_input := []\<rparr>)"
    using b(2) by (simp add: shell_ok_def)
  with Cons.IH [OF this] Cons.prems(3) s show ?case by auto
qed simp

lemma shell_run_closed:
  "\<not> is_connection_closed (c_conn (sh_client sh)) \<Longrightarrow> shell_step X sh = Inr sh' \<Longrightarrow>
    is_connection_closed (c_conn (sh_client sh')) \<Longrightarrow> shell_run (X # Xs) sh = Inr sh'"
  by (cases Xs) simp_all

lemma shell_step_command:
  assumes "shell_ok sh" "sh_input sh = join_args ((g, n) # args) @ NEWLINE # rest"
    "list_all plain_char (join_args ((g, n) # args))" "length (join_args ((g, n) # args)) < SHELL_BUFFER"
    "\<forall>a \<in> set ((g, n) # args). Utils.arg_ok (snd a)" "find_command n initialize_commands = Some f"
  shows "\<exists>b. length b = SHELL_BUFFER \<and> shell_step X sh =
     bindE (call X f (map snd args @ ['''']) (int (length args)) (sh_client sh)) (\<lambda>(err, c).
     bindE (if err = COMMAND_CLOSE_OK
            then connection_close (ce_transport X) (ce_usable X) (ce_fifo X) (c_conn c)
            else Inr (c_conn c)) (\<lambda>conn.
     Inr \<lparr>sh_client = c\<lparr>c_conn := conn\<rparr>, sh_buffer = b, sh_input = rest\<rparr>))"
proof -
  have "list_all line_char (join_args ((g, n) # args))"
    using assms(3) by (auto simp: list_all_iff plain_char_def simp del: join_args.simps)
  from shell_step_line [OF assms(1,2) this assms(4), of X] edit_plain [OF assms(3), of "[]"]
    cmd_parse_line [OF assms(5), of X "sh_client sh"] assms(6)
  show ?thesis by (simp del: join_args.simps)
qed

text \<open>
  In the FIFO build an \<open>open\<close> that fails ends the client: the attempt closes the connection first,
  and the shell runs only while it is not closed.
\<close>

theorem failed_open_ends_client:
  assumes "shell_ok sh" "sh_input sh = join_args [(g, ''open''), (k, u)] @ NEWLINE # rest"
    "list_all plain_char (join_args [(g, ''open''), (k, u)])" "length (join_args [(g, ''open''), (k, u)]) < SHELL_BUFFER"
    "Utils.arg_ok u" "u \<noteq> ''help''" "ce_transport X = Fifo" "conn_state (c_conn (sh_client sh)) = CONNECTION_STATE_IDLE"
    "address_from_url Fifo u (Some (ce_fresh X)) = (ADDRESS_OK, Some a)"
    "connection_open Fifo (ce_usable X) (ce_junk X) (ce_fifo X) (ce_socket X)
       ((c_conn (sh_client sh))\<lparr>server_addr := a\<rparr>) = Inr (e, conn)" "e \<noteq> 0"
  shows "\<exists>sh'. shell_run (X # Xs) sh = Inr sh' \<and> sh_client sh' = (sh_client sh)\<lparr>c_conn := conn\<rparr> \<and>
    is_connection_closed conn \<and> sh_input sh' = rest"
proof -
  let ?c = "sh_client sh"
  have st: "\<not> is_connection_open (c_conn ?c)" "\<not> is_connection_closed (c_conn ?c)"
    using assms(8) by (simp_all add: is_connection_open_def is_connection_closed_def)
  have closed: "is_connection_closed conn"
    by (rule connection_open_fifo_failed [OF assms(10,11)])
  have "cmd_open X [u, ''''] 1 ?c = Inr (1, ?c\<lparr>c_conn := conn\<rparr>)"
    using cmd_open_attempt [OF st(1) assms(6), of X a e conn] assms(7,9-11) by simp
  then have call: "call X Cmd_open (map snd [(k, u)] @ ['''']) (int (length [(k, u)])) ?c = Inr (1, ?c\<lparr>c_conn := conn\<rparr>)"
    by (simp add: call_def)
  have "\<forall>a \<in> set [(g, ''open''), (k, u)]. Utils.arg_ok (snd a)" using assms(5) by (simp add: Utils.arg_ok_def)
  moreover have "find_command ''open'' initialize_commands = Some Cmd_open"
    by (simp add: initialize_commands_def new_command_def)
  ultimately obtain b where "shell_step X sh = Inr \<lparr>sh_client = ?c\<lparr>c_conn := conn\<rparr>, sh_buffer = b, sh_input = rest\<rparr>"
    using shell_step_command [OF assms(1-4), of Cmd_open X] call
    by (auto simp: COMMAND_CLOSE_OK_def simp del: list.map of_nat_Suc list.size)
  with shell_run_closed [OF st(2), of X] closed show ?thesis by (simp del: shell_run.simps)
qed

text \<open>
  \<open>close\<close> typed by a user who is logged out ends the client: one whole close message goes out, the
  connection is closed, and the shell stops.
\<close>

theorem close_ends_client:
  assumes "shell_ok sh" "sh_input sh = join_args [(g, ''close'')] @ NEWLINE # rest" "g + 5 < SHELL_BUFFER"
    "client_ok X" "rng_ok (io_rng (c_io (sh_client sh)))" "is_connection_open (c_conn (sh_client sh))"
    "\<not> c_logged (sh_client sh)"
  shows "\<exists>sh' b. shell_run (X # Xs) sh = Inr sh' \<and> is_connection_closed (c_conn (sh_client sh')) \<and>
    boundary_shape b \<and> fd_out (c_io (sh_client sh')) (req_fd (c_conn (sh_client sh))) =
      fd_out (c_io (sh_client sh)) (req_fd (c_conn (sh_client sh))) @
        frame_bytes b (stringify (ce_json X) MClose)"
proof -
  let ?c = "sh_client sh" and ?conn = "c_conn (sh_client sh)"
  let ?e = "comm_error COMMAND_OK ''Sending command''"
  have ok: "json_c_laws (ce_json X)" "allocator (ce_usable X)" using assms(4) by (simp_all add: client_ok_def)
  obtain b r where s: "send_text (ce_transport X) (ce_usable X) (stringify (ce_json X) MClose) ?conn ?e (c_io ?c) =
      Inr (case ce_transport X of Fifo \<Rightarrow> comm_error NO_COMM_ERROR ''OK'' | Socket \<Rightarrow> ?e,
           emit (req_fd ?conn) (frame_bytes b (stringify (ce_json X) MClose)) ((c_io ?c)\<lparr>io_rng := r\<rparr>))"
      (is "_ = Inr (?e1, ?w)") and b: "boundary_shape b"
    using send_text_bytes [OF ok assms(5)] by blast
  have "err_code ?e1 = 0" by (simp add: NO_COMM_ERROR_def COMMAND_OK_def split: transport.splits)
  with s assms(6,7) have "call X Cmd_close (map snd [] @ ['''']) (int (length [])) ?c = Inr (COMMAND_CLOSE_OK, ?c\<lparr>c_io := ?w\<rparr>)"
    by (simp add: call_def cmd_close_def asks_help_def send_cmd_close_def)
  moreover have plain: "list_all plain_char (join_args [(g, ''close'')])"
    by (auto simp: list_all_iff plain_char_def line_char_def)
  moreover have "find_command ''close'' initialize_commands = Some Cmd_close"
    by (simp add: initialize_commands_def new_command_def)
  moreover obtain conn' where conn': "connection_close (ce_transport X) (ce_usable X) (ce_fifo X) ?conn = Inr conn'"
    "is_connection_closed conn'"
    using connection_close_returns [OF ok(2)] by blast
  ultimately obtain b' where step: "shell_step X sh = Inr \<lparr>sh_client = ?c\<lparr>c_io := ?w, c_conn := conn'\<rparr>, sh_buffer = b', sh_input = rest\<rparr>"
    using shell_step_command [OF assms(1,2) plain, of Cmd_close X] assms(3) by (auto simp: Utils.arg_ok_def)
  have "\<not> is_connection_closed ?conn"
    using assms(6) by (simp add: is_connection_open_def is_connection_closed_def)
  from shell_run_closed [OF this step] conn'(2) b show ?thesis
    by (intro exI [of _ "\<lparr>sh_client = ?c\<lparr>c_io := ?w, c_conn := conn'\<rparr>, sh_buffer = b', sh_input = rest\<rparr>"]
        exI [of _ b]) (simp add: emit_def del: shell_run.simps)
qed

section \<open>Concrete turns\<close>

definition sample_shell :: "string \<Rightarrow> shell" where
  "sample_shell input = start_shell (sample_user_of [] False) input"

lemma sample_shell_simps [simp]:
  "shell_ok (sample_shell i)" "sh_input (sample_shell i) = i" "sh_client (sample_shell i) = sample_user_of [] False"
  by (simp_all add: sample_shell_def) (simp_all add: start_shell_def)

lemma sample_conn_not_closed [simp]: "\<not> is_connection_closed sample_conn"
  by (simp add: is_connection_closed_def sample_conn_def)

lemma plain_chars: "plain_char c \<longleftrightarrow> c \<notin> {NEWLINE, EOF_CHAR, ZERO, BACKSPACE, RETURN, TAB}"
  by (auto simp: plain_char_def line_char_def)

lemma unknown_command:
  assumes "Utils.arg_ok n" "find_command n initialize_commands = None"
  shows "cmd_parse X n c = Inr (ERR_COMMAND_NOT_FOUND, c)"
  using cmd_parse_line [of 0 n "[]" X c] assms by simp

lemma not_found_ls: "cmd_parse X ''ls'' c = Inr (ERR_COMMAND_NOT_FOUND, c)"
  by (rule unknown_command) (simp_all add: Utils.arg_ok_def initialize_commands_def new_command_def)

lemma not_found_lab: "cmd_parse X ''lab'' c = Inr (ERR_COMMAND_NOT_FOUND, c)"
  by (rule unknown_command) (simp_all add: Utils.arg_ok_def initialize_commands_def new_command_def)

theorem client_starts_witness:
  "\<exists>n conn' r'. client_start exact_size Fifo sample_addr None sample_rng sample_conn = Inr (conn', r') \<and>
    valid (client_addr conn') \<and> host (client_addr conn') = n \<and>
    (case None of Some m \<Rightarrow> n = m | None \<Rightarrow> \<exists>k. 1000 \<le> k \<and> k < 10000 \<and> n = ''anon'' @ show_nat k)"
  by (rule client_starts) simp_all

lemma sample_turn:
  "\<exists>sh'. shell_step X (sample_shell (''ls'' @ NEWLINE # ''x'')) = Inr sh' \<and> sh_client sh' = sample_user_of [] False \<and>
    sh_input sh' = ''x''"
proof -
  have "list_all line_char ''ls''" "edit [] 0 ''ls'' = ''ls''" "length ''ls'' < SHELL_BUFFER"
    by (simp_all add: line_char_def SHELL_BUFFER_def)
  with shell_step_line [of "sample_shell (''ls'' @ NEWLINE # ''x'')" "''ls''" "''x''" X] show ?thesis
    by (auto simp: not_found_ls command_codes)
qed

theorem shell_turns_witness:
  "\<exists>sh'. shell_run [sample_env] (sample_shell (''ls'' @ NEWLINE # ''x'')) = Inr sh' \<and>
    shell_ok sh' \<and> suffix (sh_input sh') (''ls'' @ NEWLINE # ''x'') \<and>
    (sh_input sh' = [] \<or> is_connection_closed (c_conn (sh_client sh')) \<or>
     length (sh_input sh') + length [sample_env] \<le> length (''ls'' @ NEWLINE # ''x''))"
proof -
  obtain sh' where "shell_run [sample_env] (sample_shell (''ls'' @ NEWLINE # ''x'')) = Inr sh'"
    using sample_turn [of sample_env] by auto
  from this shell_turns [OF _ this] show ?thesis by simp
qed

theorem shell_reads_edited_line_witness:
  "\<exists>sh'. shell_step sample_env (sample_shell (''lab'' @ [BACKSPACE, BACKSPACE] @ ''s'' @ NEWLINE # ''x'')) = Inr sh' \<and>
    sh_client sh' = sample_user_of [] False \<and> sh_input sh' = ''x''"
  by (rule shell_reads_edited_line [where line = "''lab'' @ [BACKSPACE, BACKSPACE] @ ''s''" and err = ERR_COMMAND_NOT_FOUND])
     (simp_all add: line_char_def SHELL_BUFFER_def not_found_ls command_codes)

theorem backspace_before_enter_ignored_witness:
  "\<exists>sh'. shell_step sample_env (sample_shell (''lab'' @ [BACKSPACE] @ NEWLINE # ''x'')) = Inr sh' \<and>
    sh_client sh' = sample_user_of [] False \<and> sh_input sh' = ''x''"
  by (rule backspace_before_enter_ignored [where line = "''lab''" and err = ERR_COMMAND_NOT_FOUND])
     (simp_all add: plain_chars SHELL_BUFFER_def not_found_lab command_codes)

theorem shell_line_bound_witness:
  "read_command (sh_input (sample_shell (replicate 2048 (CHR ''a'') @ NEWLINE # ''x'')))
     (sh_buffer (sample_shell (replicate 2048 (CHR ''a'') @ NEWLINE # ''x''))) 0 = Inl Out_of_bounds \<longleftrightarrow>
   SHELL_BUFFER \<le> length (replicate 2048 (CHR ''a''))"
  by (rule shell_line_bound) (simp_all add: list_all_iff plain_chars)

theorem end_of_input_never_ends_witness:
  "\<exists>sh'. shell_run (replicate 1000000 sample_env) (sample_shell []) = Inr sh' \<and>
    sh_client sh' = sh_client (sample_shell []) \<and> \<not> is_connection_closed (c_conn (sh_client sh'))"
  by (rule end_of_input_never_ends) simp_all

theorem close_ends_client_witness:
  "\<exists>sh' b. shell_run (sample_env # [sample_env]) (sample_shell (join_args [(1, ''close'')] @ NEWLINE # ''ls'')) = Inr sh' \<and>
    is_connection_closed (c_conn (sh_client sh')) \<and>
    boundary_shape b \<and> fd_out (c_io (sh_client sh'))
        (req_fd (c_conn (sh_client (sample_shell (join_args [(1, ''close'')] @ NEWLINE # ''ls''))))) =
      fd_out (c_io (sh_client (sample_shell (join_args [(1, ''close'')] @ NEWLINE # ''ls''))))
        (req_fd (c_conn (sh_client (sample_shell (join_args [(1, ''close'')] @ NEWLINE # ''ls''))))) @
        frame_bytes b (stringify (ce_json sample_env) MClose)"
  by (rule close_ends_client)
     (simp_all only: sample_shell_simps sample_user_simps client_ok_sample sample_conn_open, simp_all add: SHELL_BUFFER_def)

definition offline_shell :: shell where
  "offline_shell = start_shell ((sample_user_of [] False)\<lparr>c_conn := sample_conn\<lparr>conn_state := CONNECTION_STATE_IDLE\<rparr>\<rparr>)
     (join_args [(0, ''open''), (1, ''fifo://google'')] @ NEWLINE # ''ls'')"

theorem failed_open_ends_client_witness:
  "\<exists>sh' conn. shell_run (sample_env # [sample_env]) offline_shell = Inr sh' \<and>
    sh_client sh' = (sh_client offline_shell)\<lparr>c_conn := conn\<rparr> \<and>
    is_connection_closed conn \<and> sh_input sh' = ''ls''"
proof -
  let ?a = "(ce_fresh sample_env)\<lparr>valid := True, url := ''fifo://google'', protocol := ''fifo'', host := ''google''\<rparr>"
  have addr: "address_from_url Fifo ''fifo://google'' (Some (ce_fresh sample_env)) = (ADDRESS_OK, Some ?a)"
    using read_protocol_host_ok [of "''fifo''" "''google''" "[]" "ce_fresh sample_env"]
    by (simp add: address_from_url_def address_from_url_fifo_def host_name_def goes_on_def)
  obtain conn where c: "connection_open Fifo (ce_usable sample_env) (ce_junk sample_env) (ce_fifo sample_env) (ce_socket sample_env)
       ((c_conn (sh_client offline_shell))\<lparr>server_addr := ?a\<rparr>) = Inr (ERR_SERVER_OFFLINE, conn)"
    by (simp add: connection_open_def connection_open_fifo_def offline_shell_def start_shell_def sample_env_def
        sample_fifo_env_def Let_def sprintf_into_fits pair_fifo_length input_fifo_length sample_conn_def sample_addr_def)
  have "\<exists>sh'. shell_run (sample_env # [sample_env]) offline_shell = Inr sh' \<and>
      sh_client sh' = (sh_client offline_shell)\<lparr>c_conn := conn\<rparr> \<and> is_connection_closed conn \<and> sh_input sh' = ''ls''"
    by (rule failed_open_ends_client [where g = 0 and k = 1 and u = "''fifo://google''" and a = ?a and e = ERR_SERVER_OFFLINE])
       (use addr c in \<open>simp_all add: ERR_SERVER_OFFLINE_def\<close>, simp_all add: offline_shell_def plain_chars SHELL_BUFFER_def
          Utils.arg_ok_def, simp_all add: start_shell_def)
  then show ?thesis by blast
qed

end
