(* ===== verification/Client_Server.thy ===== *)
theory Client_Server
  imports Server Client_Shell
begin

text \<open>
  Client and server together: what the client's commands send is what the server answers, and the
  server's answers are what the commands tell the user. The streams between the two are the bytes
  that each side writes.
\<close>

section \<open>The server answers one request\<close>

text \<open>The text of a message can be read whatever boundary is drawn for it.\<close>

definition fits_frame :: "'j json_lib \<Rightarrow> message \<Rightarrow> bool" where
  "fits_frame J m \<longleftrightarrow> (\<forall>b. boundary_shape b \<longrightarrow> frame_ok b (stringify J m))"

lemma fits_frameI:
  assumes "s = stringify J m" "s \<noteq> []" "nul_free s" "CHR ''-'' \<notin> set s" "length s < 2018"
  shows "fits_frame J m"
proof -
  have "\<not> sublist b s" if "boundary_shape b" for b
  proof -
    have "CHR ''-'' \<in> set b" using that by (auto simp: boundary_shape_def BOUNDARY_PREFIX_def)
    with assms(4) show ?thesis using set_mono_sublist by blast
  qed
  with assms show ?thesis
    by (auto simp: fits_frame_def frame_ok_def BUFFER_LENGTH_def boundary_shape_length simp del: stringify.simps)
qed

lemma server_responder_handles:
  assumes "parse_encoded (plat_json P) (plat_usable P) (plat_junk P) text = Inr r"
    "dispatch P (p_conn p) r e (p_worker p) = Inr (err, w)" "pdata r \<noteq> PClose"
  shows "\<exists>p'. server_responder P self e text p = Inr p' \<and> p_worker p' = w \<and> p_conn p' = p_conn p"
  using assms by (simp add: server_responder_def Let_def)

lemma server_handles_message:
  assumes "platform_ok P" "message_ok m"
    "\<And>r. message_carried m r \<Longrightarrow> dispatch P (p_conn p) r e (p_worker p) = Inr (err, w) \<and> pdata r \<noteq> PClose"
  shows "\<exists>p'. server_responder P self e (stringify (plat_json P) m) p = Inr p' \<and> p_worker p' = w \<and> p_conn p' = p_conn p"
proof -
  obtain r where "parse_encoded (plat_json P) (plat_usable P) (plat_junk P) (stringify (plat_json P) m) = Inr r"
    "message_carried m r"
    using parse_stringify [of "plat_json P" "plat_usable P" m] assms(1,2) unfolding platform_ok_def by blast
  with server_responder_handles assms(3) show ?thesis by blast
qed

section \<open>The client is answered\<close>

lemma cmd_post_answered:
  assumes "client_ok X" "ce_junk X = ZERO" "3 < ce_usable X 3" "rng_ok (io_rng (c_io c))" "is_connection_open (c_conn c)"
    "c_logged c" "files (c_disk c) path = Some d" "nul_free s" "answer_waits X (MData s n) rest c"
  shows "\<exists>v. cmd_post X [dest, path, ''''] 2 c = Inr (COMMAND_OK, tell (Told_string s) (c\<lparr>c_io := v\<rparr>)) \<and>
    asked X (MPost \<lparr>post_data = raw_text d, post_dest = dest, post_size = length d\<rparr>) rest c v"
proof -
  let ?m = "\<lparr>post_data = raw_text d, post_dest = dest, post_size = length d\<rparr>"
  let ?send = "send_cmd_post (ce_transport X) (ce_json X) (ce_usable X) ?m"
  have send: "?send conn e w = send_text (ce_transport X) (ce_usable X) (stringify (ce_json X) (MPost ?m)) conn e w"
    for conn e w by (simp add: send_cmd_post_def)
  have "allocator (ce_usable X)" using assms(1) by (simp add: client_ok_def)
  then have "encode_raw_data (ce_usable X) (Some (d @ [ZERO])) (length d) = Inr (raw_text d)"
    using encode_raw_data_text [of "ce_usable X" "length d" "d @ [ZERO]"] assms(3) by simp
  with assms(5-7) obtain finish where cmd: "cmd_post X [dest, path, ''''] 2 c = ask X ?send finish c"
    and finish: "finish = (\<lambda>r c. bindE (tell_data r c) (\<lambda>c. Inr (COMMAND_OK, c)))"
    by (simp add: cmd_post_def asks_help_def raw_data_from_file_def)
  have ok: "message_ok (MData s n)" using assms(8) by simp
  obtain v r where v: "ask X ?send finish c = finish r (c\<lparr>c_io := v\<rparr>)" "asked X (MPost ?m) rest c v"
    "parsed (ce_usable X) (MData s n) r"
    using ask_answered [OF assms(1,2,4) ok assms(9) send] by blast
  with cmd tell_data_parsed [OF assms(1) v(3) assms(8)] show ?thesis
    by (intro exI [of _ v]) (simp add: finish)
qed

text \<open>The decoder on a zeroed block, for a text whose threes decode to \<open>d\<close>.\<close>

lemma decode_zero_text:
  assumes "allocator U" "nul_free s" "\<And>k. k < length d \<Longrightarrow> decode_triple (s @ ZERO # t) (3 * k) = Inr (d ! k)"
    "length s \<le> 3 * length d" "3 * length d < length s + 3" "3 * length d < U (length s div 3 + 1)"
  shows "\<exists>b. decode_to_raw_data U ZERO (s @ ZERO # t) = Inr b \<and> cstr b = Inr (takeWhile (\<lambda>c. c \<noteq> ZERO) d)"
proof -
  let ?n = "U (length s div 3 + 1)"
  let ?b = "(d @ replicate (?n - length d) ZERO)[3 * length d := ZERO]"
  have len: "length d \<le> ?n" using assms(6) by simp
  obtain k where k: "replicate (?n - length d) ZERO = ZERO # replicate k ZERO"
    using assms(6) by (cases "?n - length d") auto
  have "(replicate j ZERO)[i := ZERO] = replicate j ZERO" for i j
    by (induction j arbitrary: i) (auto split: nat.split)
  then have b: "?b = d @ ZERO # replicate k ZERO"
    unfolding k by (cases "d = []") (simp_all add: list_update_append split: nat.splits)
  have loop: "decode_loop (s @ ZERO # t) (length s) 0 (replicate ?n ZERO) =
      Inr (d @ replicate (?n - length d) ZERO, 3 * length d)"
    using decode_loop_fills [OF assms(3-5), of 0 "replicate ?n ZERO"] len by simp
  have "length (d @ replicate (?n - length d) ZERO) = ?n" using len by simp
  with assms(6) have "poke (d @ replicate (?n - length d) ZERO) (3 * length d) ZERO = Inr ?b"
    by (simp only: poke_def if_True)
  then have "decode_to_raw_data U ZERO (s @ ZERO # t) = Inr ?b"
    unfolding decode_to_raw_data_def cstr_append [OF assms(2)] bindE_simps Let_def
    by (simp only: loop bindE_simps prod.case)
  moreover have "cstr ?b = Inr (takeWhile (\<lambda>c. c \<noteq> ZERO) d)"
    unfolding b by (simp add: cstr_def takeWhile_tail)
  ultimately show ?thesis by blast
qed

lemma decode_zero_block:
  assumes "allocator U" "3 * length d < U (length d + 1)"
  shows "\<exists>b. decode_to_raw_data U ZERO (raw_text d @ ZERO # t) = Inr b \<and> cstr b = Inr (takeWhile (\<lambda>c. c \<noteq> ZERO) d)"
  by (rule decode_zero_text [OF assms(1) nul_free_raw_text decode_triple_text]) (use assms(2) in simp_all)

lemma get_thread_tells_file:
  assumes "client_ok X" "ce_junk X = ZERO" "listeners (c_io c) = [conn]" "frame_ok b (stringify (ce_json X) (MData (raw_text d) n))"
    "fd_in (c_io c) (res_fd conn) = frame_bytes b (stringify (ce_json X) (MData (raw_text d) n)) @ rest"
    "3 * length d < ce_usable X (length d + 1)" "nul_free d"
  shows "run_listener X c = Inr (c\<lparr>c_io := (c_io c)\<lparr>listeners := [], fd_in := (fd_in (c_io c))(res_fd conn := rest)\<rparr>,
    c_told := c_told c @ [Told_file d]\<rparr>)"
proof -
  let ?U = "ce_usable X"
  have U: "allocator ?U" using assms(1) by (simp add: client_ok_def)
  have ok: "message_ok (MData (raw_text d) n)" by simp
  obtain r where r: "parsed ?U (MData (raw_text d) n) r" and l: "run_listener X c = bindE (answer_text X r) (\<lambda>ts.
      Inr (c\<lparr>c_io := (c_io c)\<lparr>listeners := [], fd_in := (fd_in (c_io c))(res_fd conn := rest)\<rparr>,
             c_told := c_told c @ ts\<rparr>))"
    using run_listener_frame [OF assms(1,2) ok assms(3-5)] by blast
  obtain t where "pdata r = PData (raw_text d @ ZERO # t)"
    using r zeros_from [OF U, of "raw_text d"] by auto
  moreover have "takeWhile (\<lambda>c. c \<noteq> ZERO) d = d" using assms(7) by (auto simp: nul_free_def takeWhile_eq_all_conv)
  moreover obtain b where "decode_to_raw_data ?U ZERO (raw_text d @ ZERO # t) = Inr b"
    "cstr b = Inr (takeWhile (\<lambda>c. c \<noteq> ZERO) d)"
    using decode_zero_block [OF U assms(6), of t] by blast
  ultimately show ?thesis using l assms(2) by (simp add: answer_text_def del: takeWhile_eq_Nil_iff)
qed

section \<open>Files\<close>

definition post_of :: "string \<Rightarrow> string \<Rightarrow> command_post_t" where
  "post_of dest d = \<lparr>post_data = raw_text d, post_dest = dest, post_size = length d\<rparr>"

text \<open>A server whose user may store \<open>d\<close> under \<open>dest\<close>, and whose database then knows it.\<close>

definition may_store :: "('j, 'db) platform \<Rightarrow> 'db worker \<Rightarrow> string \<Rightarrow> string \<Rightarrow> bool" where
  "may_store P w dest d \<longleftrightarrow> (\<exists>u l db1 db2 db3 rs. w_user w = Some u \<and> w_link w = Some l \<and>
     db_answers P l (file_query dest (fs_home u)) db1 [] \<and>
     db_answers P (l\<lparr>link_db := db1\<rparr>) (alias_query dest (fs_home u)) db2 [] \<and>
     db_answers P (l\<lparr>link_db := db2\<rparr>) (file_query dest (fs_home u)) db3 ([Some (fs_home u @ ''/'' @ dest)] # rs) \<and>
     post_fits P u (post_of dest d) d \<and> can_create (w_disk w) (post_path u (post_of dest d)))"

lemma server_stores_and_sends:
  assumes "platform_ok P" "rng_ok (io_rng (w_io (p_worker p)))" "3 < plat_usable P 3" "may_store P (p_worker p) dest d"
    "nul_free dest" "length d < 2 ^ 31"
  shows "\<exists>p1 p2 b1 b2. server_responder P t1 e1 (stringify (plat_json P) (MPost (post_of dest d))) p = Inr p1 \<and>
    server_responder P t2 e2 (stringify (plat_json P) (MGet \<lparr>get_path = dest\<rparr>)) p1 = Inr p2 \<and>
    boundary_shape b1 \<and> boundary_shape b2 \<and>
    fd_out (w_io (p_worker p2)) (req_fd (p_conn p)) = fd_out (w_io (p_worker p)) (req_fd (p_conn p)) @
      frame_bytes b1 (stringify (plat_json P) (MData ''File OK'' 7)) @
      frame_bytes b2 (stringify (plat_json P) (MData (raw_text d) (length d)))"
proof -
  let ?w = "p_worker p" and ?post = "post_of dest d" and ?conn = "p_conn p"
  obtain u l db1 db2 db3 rs where m: "w_user ?w = Some u" "w_link ?w = Some l"
    "db_answers P l (file_query dest (fs_home u)) db1 []"
    "db_answers P (l\<lparr>link_db := db1\<rparr>) (alias_query dest (fs_home u)) db2 []"
    "db_answers P (l\<lparr>link_db := db2\<rparr>) (file_query dest (fs_home u)) db3 ([Some (fs_home u @ ''/'' @ dest)] # rs)"
    "post_fits P u ?post d" "can_create (w_disk ?w) (post_path u ?post)"
    using assms(4) unfolding may_store_def by blast
  obtain v ks where p1: "process_post_cmd P ?conn ?post e1 ?w = Inr (error_after_send P (comm_error ERR_OK ''OK''),
        ?w\<lparr>w_link := Some (l\<lparr>link_db := db2\<rparr>),
          w_disk := (w_disk ?w)\<lparr>files := (files (w_disk ?w))(post_path u ?post \<mapsto> d), short_writes := ks\<rparr>,
          w_io := v\<rparr>)" (is "_ = Inr (_, ?w1)")
    and r1: "replied P ?conn ''File OK'' 7 (w_io ?w) v"
    using process_post_stores [OF assms(1,2) m(1,2), of ?post db1 db2 d ?conn e1] m(3,4,6,7) by (auto simp: post_of_def)
  obtain q1 where q1: "server_responder P t1 e1 (stringify (plat_json P) (MPost ?post)) p = Inr q1"
    "p_worker q1 = ?w1" "p_conn q1 = ?conn"
  proof -
    have "message_ok (MPost ?post)" using assms(5,6) by (simp add: post_of_def)
    moreover have "dispatch P ?conn r e1 ?w = Inr (error_after_send P (comm_error ERR_OK ''OK''), ?w1) \<and> pdata r \<noteq> PClose"
      if "message_carried (MPost ?post) r" for r using that p1 by (simp add: dispatch_def Let_def)
    ultimately show thesis using server_handles_message [OF assms(1)] that by blast
  qed
  have path: "''.'' @ row_line [Some (fs_home u @ ''/'' @ dest)] = post_path u ?post"
    by (simp add: row_line_def add_cell_def cell_text_def post_path_def post_of_def)
  obtain v2 where p2: "process_get_cmd P ?conn \<lparr>get_path = dest\<rparr> e2 ?w1 =
      Inr (comm_error ERR_OK ''OK'', ?w1\<lparr>w_link := Some (l\<lparr>link_db := db2\<rparr>\<lparr>link_db := db3\<rparr>), w_io := v2\<rparr>)"
    and r2: "replied P ?conn (raw_text d) (length d) (w_io ?w1) v2"
    using process_get_found [OF assms(1), of ?w1 u "l\<lparr>link_db := db2\<rparr>" "\<lparr>get_path = dest\<rparr>" db3
        "[Some (fs_home u @ ''/'' @ dest)]" rs d ?conn e2] replied_rng [OF r1] assms(3) m(1,5) path
    by auto
  obtain q2 where q2: "server_responder P t2 e2 (stringify (plat_json P) (MGet \<lparr>get_path = dest\<rparr>)) q1 = Inr q2"
    "w_io (p_worker q2) = v2"
  proof -
    let ?g = "\<lparr>get_path = dest\<rparr>" and ?w2 = "?w1\<lparr>w_link := Some (l\<lparr>link_db := db2\<rparr>\<lparr>link_db := db3\<rparr>), w_io := v2\<rparr>"
    have "message_ok (MGet ?g)" using assms(5) by simp
    moreover have "dispatch P (p_conn q1) r e2 (p_worker q1) = Inr (comm_error ERR_OK ''OK'', ?w2) \<and> pdata r \<noteq> PClose"
      if "message_carried (MGet ?g) r" for r using that p2 q1(2,3) by (simp add: dispatch_def Let_def)
    ultimately obtain q where "server_responder P t2 e2 (stringify (plat_json P) (MGet ?g)) q1 = Inr q" "p_worker q = ?w2"
      using server_handles_message [OF assms(1)] by blast
    then show thesis by (intro that [of q]) simp_all
  qed
  obtain b1 b2 where "boundary_shape b1" "boundary_shape b2"
    "fd_out v2 (req_fd ?conn) = fd_out (w_io ?w) (req_fd ?conn) @ frame_bytes b1 (stringify (plat_json P) (MData ''File OK'' 7)) @
      frame_bytes b2 (stringify (plat_json P) (MData (raw_text d) (length d)))"
    using r1 r2 by (auto simp: replied_def emit_def)
  with q1 q2 show ?thesis by blast
qed

text \<open>A client in the state a command on files needs, with the file on its disk; one that may log in.\<close>

definition ready_to_post :: "client \<Rightarrow> string \<Rightarrow> string \<Rightarrow> bool" where
  "ready_to_post c path d \<longleftrightarrow> rng_ok (io_rng (c_io c)) \<and> is_connection_open (c_conn c) \<and> c_logged c \<and>
     listeners (c_io c) = [] \<and> files (c_disk c) path = Some d"

definition ready_to_login :: "client \<Rightarrow> bool" where
  "ready_to_login c \<longleftrightarrow> rng_ok (io_rng (c_io c)) \<and> is_connection_open (c_conn c) \<and> \<not> c_logged c"

lemma asked_facts:
  assumes "asked X m rest c v"
  shows "\<exists>b. boundary_shape b \<and> fd_out v (req_fd (c_conn c)) = fd_out (c_io c) (req_fd (c_conn c)) @ frame_bytes b (stringify (ce_json X) m)"
    "fd_in v (res_fd (c_conn c)) = rest" "listeners v = listeners (c_io c)" "rng_ok (io_rng v)"
  using assms by (auto simp: asked_def emit_def)

section \<open>Properties\<close>



section \<open>A concrete session\<close>

lemma fits_frame_eval:
  assumes "let s = stringify J m in s \<noteq> [] \<and> list_all (\<lambda>c. c \<noteq> ZERO \<and> c \<noteq> CHR ''-'') s \<and> length s < 2018"
  shows "fits_frame J m"
  using assms by (intro fits_frameI [OF refl]) (auto simp: Let_def list_all_iff nul_free_def simp del: stringify.simps)

lemma fits_sample:
  "fits_frame flat_json (MPost (post_of ''x'' ''hi''))" "fits_frame flat_json (MGet \<lparr>get_path = ''x''\<rparr>)"
  "fits_frame flat_json (MData ''File OK'' 7)" "fits_frame flat_json (MData (raw_text ''hi'') (length ''hi''))"
  "fits_frame flat_json (MData ''Login failed'' 12)" "fits_frame flat_json (MData ''Logged in successfully'' 22)"
  by (rule fits_frame_eval, code_simp)+

lemma may_store_sample: "may_store (sample_platform alias_engine) (sample_worker [] (Some sample_user)) ''x'' ''hi''"
proof -
  let ?l = "init_sqlite_server [] :: string list sql_link"
  let ?q = "alias_query ''x'' ''/fs/ana''"
  have f: "take 6 (file_query ''x'' ''/fs/ana'') \<noteq> ''INSERT''" by code_simp
  have a: "take 6 ?q = ''INSERT''" by code_simp
  have r: "row_ok [Some ''/fs/ana/x'']" by code_simp
  have "byte_text CHR ''h'' = ''104''" "byte_text CHR ''i'' = ''105''" by code_simp+
  then have "post_fits (sample_platform alias_engine) sample_user (post_of ''x'' ''hi'') ''hi''"
    by (simp add: post_of_def sample_defs granule_size_def post_fits_def alias_fits_def pair_fits_def)
  moreover have "db_answers (sample_platform alias_engine) ?l (file_query ''x'' (fs_home sample_user)) [] []"
    using f query_ok_sample by (simp add: db_answers_def sample_defs link_idle_def init_sqlite_server_def
        alias_engine_def rows_ok_def MAX_COLUMNS_def)
  moreover have "db_answers (sample_platform alias_engine) (?l\<lparr>link_db := []\<rparr>) (alias_query ''x'' (fs_home sample_user)) [?q] []"
    using a query_ok_sample by (simp add: db_answers_def sample_defs link_idle_def init_sqlite_server_def
        alias_engine_def rows_ok_def MAX_COLUMNS_def)
  moreover have "db_answers (sample_platform alias_engine) (?l\<lparr>link_db := [?q]\<rparr>) (file_query ''x'' (fs_home sample_user)) [?q]
      ([Some (fs_home sample_user @ ''/'' @ ''x'')] # [])"
    using f r query_ok_sample by (simp add: db_answers_def sample_defs link_idle_def init_sqlite_server_def
        alias_engine_def rows_ok_def MAX_COLUMNS_def)
  moreover have "w_user (sample_worker [] (Some sample_user)) = Some sample_user"
    "w_link (sample_worker [] (Some sample_user)) = Some ?l"
    "can_create (w_disk (sample_worker [] (Some sample_user))) (post_path sample_user (post_of ''x'' ''hi''))"
    by (simp_all add: sample_defs)
  ultimately show ?thesis unfolding may_store_def by blast
qed

definition sample_server :: "'db worker \<Rightarrow> 'db process" where
  "sample_server w = \<lparr>p_worker = w, p_conn = sample_conn, p_pid = 4711, p_shared = Some []\<rparr>"



end
