(* ===== verification/Sql_Tables.thy ===== *)
theory Sql_Tables
  imports Sql_Helpers "HOL-Library.Multiset"
begin

text \<open>
  What the server relies on of SQLite: the two tables of \<open>files.db\<close> (their schema is in the file: numbers
  are given out by \<open>autoincrement\<close>, no other column is unique) and the effect of the six
  statements \<open>server/sql_helpers.c\<close> makes. A database of the type \<open>'db\<close> holds the tables \<open>T db\<close>;
  \<open>sql_tables\<close> states, for values without quotes, what each statement returns and leaves. Rows come in
  no order. Two documented rules of SQLite are part of it, because the statements meet them:

  \<^item> a word in double quotes that is the name of a column is that column, not a text;
  \<^item> \<open>LIKE\<close> does not distinguish capital letters.

  \<open>tables_engine\<close> is a small engine of which the laws are proved.
\<close>

section \<open>The tables\<close>

record user_entry =
  ue_id :: int
  ue_name :: string
  ue_password :: string
  ue_home :: string
  ue_admin :: int

record tables =
  tb_users :: "user_entry list"
  tb_files :: "(string \<times> string) list"   \<comment> \<open>path and alias\<close>

definition lower_char :: "char \<Rightarrow> char" where
  "lower_char c = (let n = of_char c :: nat in if 65 \<le> n \<and> n \<le> 90 then char_of (n + 32) else c)"

definition lower :: "string \<Rightarrow> string" where
  "lower s = map lower_char s"

text \<open>A word in double quotes in a condition on a row of a table.\<close>

definition user_word :: "user_entry \<Rightarrow> string \<Rightarrow> string" where
  "user_word e v =
     (if lower v = ''username'' then ue_name e
      else if lower v = ''password'' then ue_password e
      else if lower v = ''home'' then ue_home e
      else v)"

definition file_word :: "string \<times> string \<Rightarrow> string \<Rightarrow> string" where
  "file_word f v = (if lower v = ''path'' then fst f else if lower v = ''alias'' then snd f else v)"

text \<open>\<open>path LIKE 'home%'\<close>\<close>

definition under_home :: "string \<Rightarrow> string \<Rightarrow> bool" where
  "under_home home p \<longleftrightarrow> length home \<le> length p \<and> lower (take (length home) p) = lower home"

definition files_found :: "tables \<Rightarrow> string \<Rightarrow> string \<Rightarrow> (string \<times> string) list" where
  "files_found t al home = filter (\<lambda>f. snd f = file_word f al \<and> under_home home (fst f)) (tb_files t)"

definition users_found :: "tables \<Rightarrow> string \<Rightarrow> string \<Rightarrow> user_entry list" where
  "users_found t name password =
     filter (\<lambda>e. ue_name e = user_word e name \<and> ue_password e = user_word e password) (tb_users t)"

definition users_named :: "tables \<Rightarrow> string \<Rightarrow> user_entry list" where
  "users_named t name = filter (\<lambda>e. ue_name e = user_word e name) (tb_users t)"

definition set_password :: "int \<Rightarrow> string \<Rightarrow> tables \<Rightarrow> tables" where
  "set_password uid p t =
     t\<lparr>tb_users := map (\<lambda>e. if ue_id e = uid then e\<lparr>ue_password := user_word e p\<rparr> else e) (tb_users t)\<rparr>"

section \<open>The laws\<close>

text \<open>
  The values the laws speak of: no quotes, nothing that ends a statement or a line, no wildcard of
  \<open>LIKE\<close>, and not the name of a column that is not a text.
\<close>

definition plain_text :: "string \<Rightarrow> bool" where
  "plain_text v \<longleftrightarrow> list_all (\<lambda>c. c \<notin> {QUOTE, CHR 0x27, CHR '';'', ZERO, NEWLINE, CHR ''%'', CHR ''_'', CHR 0x5C}) v"

definition plain :: "string \<Rightarrow> bool" where
  "plain v \<longleftrightarrow> plain_text v \<and>
     lower v \<notin> {''user_id'', ''cwd'', ''is_admin'', ''file_id'', ''owner'', ''rowid'', ''oid''}"

definition user_rows :: "user_entry list \<Rightarrow> row list" where
  "user_rows es = map (\<lambda>e. user_row (ue_home e) (ue_id e) (ue_admin e)) es"

definition path_rows :: "(string \<times> string) list \<Rightarrow> row list" where
  "path_rows fs = map (\<lambda>f. [Some (fst f)]) fs"

definition same_rows :: "row list \<Rightarrow> row list \<Rightarrow> bool" where
  "same_rows rs ss \<longleftrightarrow> mset rs = mset ss"

definition sql_tables :: "'db sql_engine \<Rightarrow> ('db \<Rightarrow> tables) \<Rightarrow> bool" where
  "sql_tables exec T \<longleftrightarrow>
     (\<forall>db al home. plain al \<longrightarrow> plain_text home \<longrightarrow>
        T (fst (exec db (file_query al home))) = T db \<and>
        same_rows (snd (exec db (file_query al home))) (path_rows (files_found (T db) al home))) \<and>
     (\<forall>db al home. plain al \<longrightarrow> plain_text home \<longrightarrow>
        snd (exec db (alias_query al home)) = [] \<and>
        T (fst (exec db (alias_query al home))) = (T db)\<lparr>tb_files := tb_files (T db) @ [(home @ ''/'' @ al, al)]\<rparr>) \<and>
     (\<forall>db name p. plain name \<longrightarrow> plain p \<longrightarrow>
        T (fst (exec db (login_query name p))) = T db \<and>
        same_rows (snd (exec db (login_query name p))) (user_rows (users_found (T db) name p))) \<and>
     (\<forall>db name. plain name \<longrightarrow>
        T (fst (exec db (user_query name))) = T db \<and>
        same_rows (snd (exec db (user_query name))) (map (\<lambda>e. [Some (ue_home e)]) (users_named (T db) name))) \<and>
     (\<forall>db name p adm. plain name \<longrightarrow> plain p \<longrightarrow>
        snd (exec db (new_user_query name p adm)) = [] \<and>
        (\<exists>uid. uid \<notin> ue_id ` set (tb_users (T db)) \<and>
           T (fst (exec db (new_user_query name p adm))) = (T db)\<lparr>tb_users := tb_users (T db) @
             [\<lparr>ue_id = uid, ue_name = name, ue_password = p, ue_home = ''/fs/'' @ name,
               ue_admin = (if adm > 0 then 1 else 0)\<rparr>]\<rparr>)) \<and>
     (\<forall>db uid p. plain p \<longrightarrow> int32 uid \<longrightarrow>
        snd (exec db (pass_query uid p)) = [] \<and> T (fst (exec db (pass_query uid p))) = set_password uid p (T db))"

lemma sql_tablesD:
  assumes "sql_tables exec T"
  shows "plain al \<Longrightarrow> plain_text home \<Longrightarrow> T (fst (exec db (file_query al home))) = T db"
    and "plain al \<Longrightarrow> plain_text home \<Longrightarrow>
      same_rows (snd (exec db (file_query al home))) (path_rows (files_found (T db) al home))"
    and "plain al \<Longrightarrow> plain_text home \<Longrightarrow> snd (exec db (alias_query al home)) = []"
    and "plain al \<Longrightarrow> plain_text home \<Longrightarrow>
      T (fst (exec db (alias_query al home))) = (T db)\<lparr>tb_files := tb_files (T db) @ [(home @ ''/'' @ al, al)]\<rparr>"
    and "plain name \<Longrightarrow> plain p \<Longrightarrow> T (fst (exec db (login_query name p))) = T db"
    and "plain name \<Longrightarrow> plain p \<Longrightarrow>
      same_rows (snd (exec db (login_query name p))) (user_rows (users_found (T db) name p))"
    and "plain name \<Longrightarrow> T (fst (exec db (user_query name))) = T db"
    and "plain name \<Longrightarrow>
      same_rows (snd (exec db (user_query name))) (map (\<lambda>e. [Some (ue_home e)]) (users_named (T db) name))"
    and "plain name \<Longrightarrow> plain p \<Longrightarrow> snd (exec db (new_user_query name p adm)) = []"
    and "plain name \<Longrightarrow> plain p \<Longrightarrow> \<exists>uid. uid \<notin> ue_id ` set (tb_users (T db)) \<and>
      T (fst (exec db (new_user_query name p adm))) = (T db)\<lparr>tb_users := tb_users (T db) @
        [\<lparr>ue_id = uid, ue_name = name, ue_password = p, ue_home = ''/fs/'' @ name,
          ue_admin = (if adm > 0 then 1 else 0)\<rparr>]\<rparr>"
    and "plain p \<Longrightarrow> int32 uid \<Longrightarrow> snd (exec db (pass_query uid p)) = []"
    and "plain p \<Longrightarrow> int32 uid \<Longrightarrow> T (fst (exec db (pass_query uid p))) = set_password uid p (T db)"
  using assms unfolding sql_tables_def by blast+

lemma same_rows_Nil: "same_rows rs [] \<longleftrightarrow> rs = []" "same_rows [] ss \<longleftrightarrow> ss = []"
  by (auto simp: same_rows_def)

lemma same_rows_set: "same_rows rs ss \<Longrightarrow> set rs = set ss"
  unfolding same_rows_def by (rule mset_eq_setD)

lemma same_rows_ok: "same_rows rs ss \<Longrightarrow> rows_ok ss \<Longrightarrow> rows_ok rs"
  using same_rows_set [of rs ss] mset_eq_length [of rs ss] by (simp add: same_rows_def rows_ok_def list_all_iff)

section \<open>An engine with these laws\<close>

text \<open>
  The text of a statement between its quotes: of the six statements, every second piece is a value. The
  first piece tells them apart.
\<close>

fun quote_pieces :: "string \<Rightarrow> string list" where
  "quote_pieces [] = [[]]"
| "quote_pieces (c # s) =
     (if c = QUOTE \<or> c = CHR 0x27 then [] # quote_pieces s
      else (c # hd (quote_pieces s)) # tl (quote_pieces s))"

definition quote_free :: "string \<Rightarrow> bool" where
  "quote_free s \<longleftrightarrow> QUOTE \<notin> set s \<and> CHR 0x27 \<notin> set s"

lemma quote_pieces_free: "quote_free x \<Longrightarrow> quote_pieces x = [x]"
  by (induction x) (auto simp: quote_free_def)

lemma quote_pieces_append:
  "quote_free x \<Longrightarrow> c = QUOTE \<or> c = CHR 0x27 \<Longrightarrow> quote_pieces (x @ c # y) = x # quote_pieces y"
  by (induction x) (auto simp: quote_free_def)

lemma plain_text_quote_free: "plain_text v \<Longrightarrow> quote_free v"
  by (auto simp: plain_text_def quote_free_def list_all_iff)

lemma quote_free_simps [simp]:
  "quote_free []"
  "quote_free (c # s) \<longleftrightarrow> c \<noteq> QUOTE \<and> c \<noteq> CHR 0x27 \<and> quote_free s"
  "quote_free (s @ t) \<longleftrightarrow> quote_free s \<and> quote_free t"
  by (auto simp: quote_free_def)

definition fresh_id :: "tables \<Rightarrow> int" where
  "fresh_id t = Max (insert 0 (ue_id ` set (tb_users t))) + 1"

lemma fresh_id_new: "fresh_id t \<notin> ue_id ` set (tb_users t)"
proof
  let ?S = "insert 0 (ue_id ` set (tb_users t))"
  assume "fresh_id t \<in> ue_id ` set (tb_users t)"
  then have "fresh_id t \<le> Max ?S" by (intro Max_ge) simp_all
  then show False by (simp add: fresh_id_def)
qed

definition file_head :: string where "file_head = ''SELECT path FROM files WHERE 1=1 AND alias = ''"
definition alias_head :: string where "alias_head = ''INSERT INTO files(path,owner,alias) VALUES(''"
definition users_head :: string where "users_head = ''SELECT home,user_id,is_admin FROM users WHERE 1=1 AND username = ''"
definition name_head :: string where "name_head = ''SELECT home FROM users WHERE 1=1 AND username = ''"
definition new_head :: string where "new_head = ''INSERT INTO users(username,password,home,is_admin) VALUES(''"
definition pass_head :: string where "pass_head = ''UPDATE users SET password=''"
definition pass_tail :: string where "pass_tail = '' WHERE 1=1 AND user_id = ''"

lemmas heads = file_head_def alias_head_def users_head_def name_head_def new_head_def pass_head_def

definition tables_engine :: "tables sql_engine" where
  "tables_engine t s =
     (case quote_pieces s of
        [h, a, m, b, e] \<Rightarrow>
          if h = file_head then (t, path_rows (files_found t a (butlast b)))
          else if h = alias_head then (t\<lparr>tb_files := tb_files t @ [(a, b)]\<rparr>, [])
          else if h = users_head then (t, user_rows (users_found t a b))
          else (t, [])
      | [h, a, e] \<Rightarrow>
          if h = name_head then (t, map (\<lambda>u. [Some (ue_home u)]) (users_named t a))
          else if h = pass_head then (set_password (atoi (drop (length pass_tail) e)) a t, [])
          else (t, [])
      | [h, a, m1, b, m2, c, m3, d, e] \<Rightarrow>
          (t\<lparr>tb_users := tb_users t @
             [\<lparr>ue_id = fresh_id t, ue_name = a, ue_password = b, ue_home = c, ue_admin = atoi d\<rparr>]\<rparr>, [])
      | _ \<Rightarrow> (t, []))"

lemmas query_pieces_simps = query_texts select_spec_def insert_spec_def update_spec_def where_text_def quoted_def home_pattern_def

text \<open>Texts woven of pieces and quotes.\<close>

definition a_quote :: "char \<Rightarrow> bool" where
  "a_quote c \<longleftrightarrow> c = QUOTE \<or> c = CHR 0x27"

lemma a_quote_simps [simp]: "a_quote QUOTE" "a_quote CHR 0x27"
  by (simp_all add: a_quote_def)

lemma quote_pieces_weave: "quote_free x \<Longrightarrow> a_quote c \<Longrightarrow> quote_pieces (x @ c # y) = x # quote_pieces y"
  unfolding a_quote_def by (rule quote_pieces_append)

lemma pieces_three:
  "s = h @ q # a @ r # e \<Longrightarrow> list_all quote_free [h, a, e] \<Longrightarrow> list_all a_quote [q, r] \<Longrightarrow>
   quote_pieces s = [h, a, e]"
  by (simp add: quote_pieces_weave quote_pieces_free)

lemma pieces_five:
  "s = h @ q # a @ r # m @ q' # b @ r' # e \<Longrightarrow> list_all quote_free [h, a, m, b, e] \<Longrightarrow>
   list_all a_quote [q, r, q', r'] \<Longrightarrow> quote_pieces s = [h, a, m, b, e]"
  by (simp add: quote_pieces_weave quote_pieces_free)

lemma file_query_pieces:
  assumes "plain_text al" "plain_text home"
  shows "quote_pieces (file_query al home) = [file_head, al, '' AND path LIKE '', home @ ''%'', '';'']"
  using assms by (intro pieces_five [where q = QUOTE and r = QUOTE and q' = "CHR 0x27" and r' = "CHR 0x27"])
    (simp_all add: query_pieces_simps file_head_def plain_text_quote_free)

lemma alias_query_pieces:
  assumes "plain_text al" "plain_text home"
  shows "quote_pieces (alias_query al home) = [alias_head, home @ ''/'' @ al, '',2,'', al, '');'']"
  using assms by (intro pieces_five [where q = QUOTE and r = QUOTE and q' = QUOTE and r' = QUOTE])
    (simp_all add: query_pieces_simps alias_head_def plain_text_quote_free)

lemma login_query_pieces:
  assumes "plain_text a" "plain_text b"
  shows "quote_pieces (login_query a b) = [users_head, a, '' AND password = '', b, '';'']"
  using assms by (intro pieces_five [where q = QUOTE and r = QUOTE and q' = QUOTE and r' = QUOTE])
    (simp_all add: query_pieces_simps users_head_def plain_text_quote_free)

lemma user_query_pieces:
  assumes "plain_text a"
  shows "quote_pieces (user_query a) = [name_head, a, '';'']"
  using assms by (intro pieces_three [where q = QUOTE and r = QUOTE])
    (simp_all add: query_pieces_simps name_head_def plain_text_quote_free)

lemma quote_free_show_int: "quote_free (show_int i)"
proof -
  have "\<not> is_digit QUOTE" "\<not> is_digit CHR 0x27" by (simp_all add: is_digit_def)
  then show ?thesis by (auto simp: quote_free_def dest: show_int_chars)
qed

lemma pass_query_pieces:
  assumes "plain_text a"
  shows "quote_pieces (pass_query uid a) = [pass_head, a, pass_tail @ show_int uid @ '';'']"
proof (rule pieces_three [where q = QUOTE and r = QUOTE])
  show "list_all quote_free [pass_head, a, pass_tail @ show_int uid @ '';'']"
    using assms by (simp add: pass_head_def pass_tail_def plain_text_quote_free quote_free_show_int)
qed (simp_all add: query_pieces_simps pass_head_def pass_tail_def)

lemma new_user_query_pieces:
  assumes "plain_text a" "plain_text b"
  shows "quote_pieces (new_user_query a b adm) = [new_head, a, '','', b, '','', ''/fs/'' @ a, '','',
    show_int (if adm > 0 then 1 else 0), '');'']"
proof -
  let ?root = "show_int (if adm > 0 then 1 else 0)"
  have shape: "new_user_query a b adm = new_head @ QUOTE # a @ QUOTE # '','' @ QUOTE # b @ QUOTE # '','' @ QUOTE #
      (''/fs/'' @ a) @ QUOTE # '','' @ QUOTE # ?root @ QUOTE # '');''"
    by (simp add: query_pieces_simps new_head_def)
  have head: "quote_free new_head" by (simp add: new_head_def)
  have root: "quote_free ?root" by (rule quote_free_show_int)
  show ?thesis
    unfolding shape using assms root
    by (simp add: quote_pieces_weave quote_pieces_free plain_text_quote_free head del: append_Cons append_assoc)
qed

text \<open>The engine on each statement.\<close>

lemma atoi_id: "int32 uid \<Longrightarrow> atoi (show_int uid @ '';'') = uid"
proof (cases "uid < 0")
  case True
  assume "int32 uid"
  moreover have "digits_val 0 (show_nat n @ '';'') = n" for n
    using digits_val_stop [of "CHR '';''" n "[]"] by (simp add: is_digit_def)
  ultimately show ?thesis
    using True by (simp add: atoi_def show_int_def is_space_def clamp64_int32)
next
  case False
  assume "int32 uid"
  with False show ?thesis
    using atoi_digits [of "show_int uid @ '';''" "nat uid" "'';''"] by (simp add: show_int_def is_digit_def)
qed

lemma tables_engine_file:
  "plain_text al \<Longrightarrow> plain_text home \<Longrightarrow>
   tables_engine t (file_query al home) = (t, path_rows (files_found t al home))"
  by (simp add: tables_engine_def file_query_pieces)

lemma tables_engine_alias:
  "plain_text al \<Longrightarrow> plain_text home \<Longrightarrow>
   tables_engine t (alias_query al home) = (t\<lparr>tb_files := tb_files t @ [(home @ ''/'' @ al, al)]\<rparr>, [])"
  by (simp add: tables_engine_def alias_query_pieces heads)

lemma tables_engine_login:
  "plain_text a \<Longrightarrow> plain_text b \<Longrightarrow> tables_engine t (login_query a b) = (t, user_rows (users_found t a b))"
  by (simp add: tables_engine_def login_query_pieces heads)

lemma tables_engine_user:
  "plain_text a \<Longrightarrow> tables_engine t (user_query a) = (t, map (\<lambda>u. [Some (ue_home u)]) (users_named t a))"
  by (simp add: tables_engine_def user_query_pieces)

lemma tables_engine_new_user:
  "plain_text a \<Longrightarrow> plain_text b \<Longrightarrow> tables_engine t (new_user_query a b adm) =
   (t\<lparr>tb_users := tb_users t @ [\<lparr>ue_id = fresh_id t, ue_name = a, ue_password = b, ue_home = ''/fs/'' @ a,
      ue_admin = (if adm > 0 then 1 else 0)\<rparr>]\<rparr>, [])"
  by (simp add: tables_engine_def new_user_query_pieces int32_def)

lemma tables_engine_pass:
  "plain_text a \<Longrightarrow> int32 uid \<Longrightarrow> tables_engine t (pass_query uid a) = (set_password uid a t, [])"
  by (simp add: tables_engine_def pass_query_pieces heads atoi_id)

lemma plain_plain_text: "plain v \<Longrightarrow> plain_text v"
  by (simp add: plain_def)

theorem tables_engine_laws: "sql_tables tables_engine (\<lambda>t. t)"
  unfolding sql_tables_def
  by (auto simp: tables_engine_file tables_engine_alias tables_engine_login tables_engine_user
      tables_engine_new_user tables_engine_pass plain_plain_text same_rows_def
      intro!: exI [of _ "fresh_id t" for t] dest: fresh_id_new [THEN notE, OF image_eqI])

end
