(* ===== verification/File_Store.thy ===== *)
theory File_Store
  imports Responder Sql_Tables
begin

text \<open>
  What a worker of the server promises its client: a store of files and users. The state (\<open>store\<close>) is
  the user of the session, the two tables of the database, the files on the disk and the folders made
  for users. \<open>serve\<close> says how a command changes it and what is answered; which of several matching
  rows SQLite gives first is left open. The handlers of \<open>Responder\<close> implement it: \<open>store_of\<close> is the
  store a worker holds, and one handler call is one step of \<open>serve\<close>, with one answer sent.
\<close>

section \<open>The store\<close>

record store =
  st_user :: "fs_user_t option"
  st_tables :: tables
  st_files :: "string \<Rightarrow> string option"
  st_folders :: "string list"

definition add_alias :: "string \<Rightarrow> string \<Rightarrow> tables \<Rightarrow> tables" where
  "add_alias home al t = t\<lparr>tb_files := tb_files t @ [(home @ ''/'' @ al, al)]\<rparr>"

definition add_user :: "int \<Rightarrow> string \<Rightarrow> string \<Rightarrow> boolean \<Rightarrow> tables \<Rightarrow> tables" where
  "add_user uid name p adm t = t\<lparr>tb_users := tb_users t @
     [\<lparr>ue_id = uid, ue_name = name, ue_password = p, ue_home = ''/fs/'' @ name,
       ue_admin = (if adm > 0 then 1 else 0)\<rparr>]\<rparr>"

text \<open>The session of a user who logged in as \<open>name\<close> and whose row is \<open>e\<close>.\<close>

definition session_of :: "string \<Rightarrow> user_entry \<Rightarrow> fs_user_t" where
  "session_of name e = \<lparr>fs_name = name, fs_home = ue_home e, fs_is_admin = word_of_int (ue_admin e), fs_id = ue_id e\<rparr>"

definition user_folder :: "bool \<Rightarrow> string \<Rightarrow> string list" where
  "user_folder can_fork name = (if can_fork then [''./fs/'' @ name] else [])"

inductive serve :: "bool \<Rightarrow> store \<Rightarrow> command \<Rightarrow> string \<times> nat \<Rightarrow> store \<Rightarrow> bool" for can_fork where
  not_logged:
    "st_user s = None \<Longrightarrow> \<not> is_login c \<Longrightarrow> serve can_fork s c (''NOT logged'', 10) s"
| already_logged:
    "st_user s = Some u \<Longrightarrow> serve can_fork s (Login c) (''You are already logged in'', 25) s"
| logged_in:
    "st_user s = None \<Longrightarrow>
     e \<in> set (users_found (st_tables s) (username (login_user c)) (password (login_user c))) \<Longrightarrow>
     serve can_fork s (Login c) (''Logged in successfully'', 22)
       (s\<lparr>st_user := Some (session_of (username (login_user c)) e)\<rparr>)"
| login_failed:
    "st_user s = None \<Longrightarrow>
     users_found (st_tables s) (username (login_user c)) (password (login_user c)) = [] \<Longrightarrow>
     serve can_fork s (Login c) (''Login failed'', 12) s"
| logged_out:
    "st_user s = Some u \<Longrightarrow> serve can_fork s Logout (''Log out successful'', 18) (s\<lparr>st_user := None\<rparr>)"
| file_sent:
    "st_user s = Some u \<Longrightarrow> f \<in> set (files_found (st_tables s) (get_path c) (fs_home u)) \<Longrightarrow>
     st_files s (''.'' @ fst f) = Some d \<Longrightarrow> serve can_fork s (Get c) (raw_text d, length d) s"
| no_file:
    "st_user s = Some u \<Longrightarrow> files_found (st_tables s) (get_path c) (fs_home u) = [] \<Longrightarrow>
     serve can_fork s (Get c) (''FILE IS NOT IN DB'', 17) s"
| file_stored:
    "st_user s = Some u \<Longrightarrow> files_found (st_tables s) (post_dest c) (fs_home u) = [] \<Longrightarrow>
     post_data c = raw_text d \<Longrightarrow> post_size c = length d \<Longrightarrow>
     serve can_fork s (Post c) (''File OK'', 7)
       (s\<lparr>st_tables := add_alias (fs_home u) (post_dest c) (st_tables s),
          st_files := (st_files s)(post_path u c \<mapsto> d)\<rparr>)"
| file_exists:
    "st_user s = Some u \<Longrightarrow> files_found (st_tables s) (post_dest c) (fs_home u) \<noteq> [] \<Longrightarrow>
     serve can_fork s (Post c) (''FILE EXISTS'', 11) s"
| no_permission:
    "st_user s = Some u \<Longrightarrow> fs_is_admin u = 0 \<Longrightarrow>
     serve can_fork s (New_user c) (''HAVE NOT PERMISION'', 10) s"
| user_exists:
    "st_user s = Some u \<Longrightarrow> fs_is_admin u \<noteq> 0 \<Longrightarrow> users_named (st_tables s) (username (new_user c)) \<noteq> [] \<Longrightarrow>
     serve can_fork s (New_user c) (''User already exists'', 19) s"
| user_added:
    "st_user s = Some u \<Longrightarrow> fs_is_admin u \<noteq> 0 \<Longrightarrow> users_named (st_tables s) (username (new_user c)) = [] \<Longrightarrow>
     uid \<notin> ue_id ` set (tb_users (st_tables s)) \<Longrightarrow>
     serve can_fork s (New_user c) (''User registered'', 15)
       (s\<lparr>st_tables := add_user uid (username (new_user c)) (password (new_user c)) (admin (new_user c)) (st_tables s),
          st_folders := st_folders s @ user_folder can_fork (username (new_user c))\<rparr>)"
| password_set:
    "st_user s = Some u \<Longrightarrow> serve can_fork s (Change_pass c) (''PASSWORD UPDATED'', 16)
       (s\<lparr>st_tables := set_password (fs_id u) (pass c) (st_tables s)\<rparr>)"

inductive_cases serve_login_elim: "serve F s (Login c) a s'"
inductive_cases serve_get_elim: "serve F s (Get c) a s'"
inductive_cases serve_post_elim: "serve F s (Post c) a s'"
inductive_cases serve_logout_elim: "serve F s Logout a s'"
inductive_cases serve_new_user_elim: "serve F s (New_user c) a s'"
inductive_cases serve_change_pass_elim: "serve F s (Change_pass c) a s'"

section \<open>The store of a worker\<close>

definition store_of :: "('db \<Rightarrow> tables) \<Rightarrow> 'db worker \<Rightarrow> store" where
  "store_of T w = \<lparr>st_user = w_user w, st_tables = T (link_db (the (w_link w))), st_files = files (w_disk w),
     st_folders = w_folders w\<rparr>"

text \<open>Every file of the database is on the disk: what a get relies on without a test.\<close>

definition on_disk :: "store \<Rightarrow> bool" where
  "on_disk s \<longleftrightarrow> (\<forall>f \<in> set (tb_files (st_tables s)). st_files s (''.'' @ fst f) \<noteq> None)"

definition worker_ready :: "'db worker \<Rightarrow> bool" where
  "worker_ready w \<longleftrightarrow> rng_ok (io_rng (w_io w)) \<and> (\<exists>l. w_link w = Some l \<and> link_idle l)"

text \<open>A selection of the file \<open>al\<close>, and what must hold of the store for its answer to fit.\<close>

definition lookup_fits :: "tables \<Rightarrow> string \<Rightarrow> string \<Rightarrow> bool" where
  "lookup_fits t al home \<longleftrightarrow> plain al \<and> plain_text home \<and> query_ok (file_query al home) \<and>
     rows_ok (path_rows (files_found t al home))"

text \<open>
  A command whose values and answers fit the buffers and the line protocol on the way to SQLite: quotes
  and other special characters are not escaped, a query has at most 101 characters, an answer at most
  nine lines, and some copies need more room than is asked for.
\<close>

fun fits_user :: "('j, 'db) platform \<Rightarrow> tables \<Rightarrow> disk \<Rightarrow> fs_user_t \<Rightarrow> command \<Rightarrow> bool" where
  "fits_user P t D u (Get c) \<longleftrightarrow> 3 < plat_usable P 3 \<and> lookup_fits t (get_path c) (fs_home u)"
| "fits_user P t D u (Post c) \<longleftrightarrow> lookup_fits t (post_dest c) (fs_home u) \<and>
     (files_found t (post_dest c) (fs_home u) = [] \<longrightarrow>
        query_ok (alias_query (post_dest c) (fs_home u)) \<and> can_create D (post_path u c) \<and>
        (\<exists>d. post_fits P u c d))"
| "fits_user P t D u (New_user c) \<longleftrightarrow> fs_is_admin u = 0 \<or>
     plain (username (new_user c)) \<and> plain (password (new_user c)) \<and>
     query_ok (user_query (username (new_user c))) \<and>
     rows_ok (map (\<lambda>e. [Some (ue_home e)]) (users_named t (username (new_user c)))) \<and>
     (users_named t (username (new_user c)) = [] \<longrightarrow>
        query_ok (new_user_query (username (new_user c)) (password (new_user c)) (admin (new_user c))) \<and>
        new_user_fits (plat_usable P) (username (new_user c)) (password (new_user c)) (admin (new_user c)))"
| "fits_user P t D u (Change_pass c) \<longleftrightarrow> plain (pass c) \<and> int32 (fs_id u) \<and>
     query_ok (pass_query (fs_id u) (pass c)) \<and> pass_fits (plat_usable P) (fs_id u) (pass c)"
| "fits_user P t D u _ \<longleftrightarrow> True"

definition login_fits :: "tables \<Rightarrow> string \<Rightarrow> string \<Rightarrow> bool" where
  "login_fits t name p \<longleftrightarrow> plain name \<and> plain p \<and> query_ok (login_query name p) \<and>
     rows_ok (user_rows (users_found t name p)) \<and>
     list_all (\<lambda>e. arg_ok (ue_home e) \<and> int32 (ue_id e) \<and> int32 (ue_admin e)) (users_found t name p)"

definition fits :: "('j, 'db) platform \<Rightarrow> ('db \<Rightarrow> tables) \<Rightarrow> 'db worker \<Rightarrow> command \<Rightarrow> bool" where
  "fits P T w c \<longleftrightarrow>
     (let t = T (link_db (the (w_link w)))
      in case w_user w of
           Some u \<Rightarrow> fits_user P t (w_disk w) u c
         | None \<Rightarrow> (case c of Login x \<Rightarrow> login_fits t (username (login_user x)) (password (login_user x)) | _ \<Rightarrow> True))"

section \<open>The answers of the database\<close>

lemma db_answersI:
  "link_idle l \<Longrightarrow> query_ok q \<Longrightarrow> rows_ok (snd (plat_exec P (link_db l) q)) \<Longrightarrow>
   db_answers P l q (fst (plat_exec P (link_db l) q)) (snd (plat_exec P (link_db l) q))"
  by (simp add: db_answers_def)

lemma file_answers:
  assumes "sql_tables (plat_exec P) T" "link_idle l" "lookup_fits (T (link_db l)) al home"
  obtains db' rows where "db_answers P l (file_query al home) db' rows" "T db' = T (link_db l)"
    "same_rows rows (path_rows (files_found (T (link_db l)) al home))"
  using assms sql_tablesD(1,2) [OF assms(1), of al home "link_db l"]
  by (intro that [OF db_answersI]) (auto simp: lookup_fits_def intro: same_rows_ok)

lemma login_answers:
  assumes "sql_tables (plat_exec P) T" "link_idle l" "login_fits (T (link_db l)) name p"
  obtains db' rows where "db_answers P l (login_query name p) db' rows" "T db' = T (link_db l)"
    "same_rows rows (user_rows (users_found (T (link_db l)) name p))"
  using assms sql_tablesD(5,6) [OF assms(1), of name p "link_db l"]
  by (intro that [OF db_answersI]) (auto simp: login_fits_def intro: same_rows_ok)

lemma rows_ok_Nil [simp]: "rows_ok []"
  by (simp add: rows_ok_def MAX_COLUMNS_def)

lemma alias_answers:
  assumes "sql_tables (plat_exec P) T" "link_idle l" "plain al" "plain_text home" "query_ok (alias_query al home)"
  obtains db' where "db_answers P l (alias_query al home) db' []" "T db' = add_alias home al (T (link_db l))"
  using sql_tablesD(3,4) [OF assms(1,3,4), of "link_db l"] db_answersI [OF assms(2,5), of P]
  by (intro that [of "fst (plat_exec P (link_db l) (alias_query al home))"]) (auto simp: add_alias_def)

lemma path_rows_cases:
  assumes "same_rows rows (path_rows fs)" "rows = r # rs"
  obtains f where "f \<in> set fs" "r = [Some (fst f)]"
proof -
  have "r \<in> set (path_rows fs)" using same_rows_set [OF assms(1)] assms(2) by auto
  with that show thesis by (auto simp: path_rows_def)
qed

lemma user_rows_cases:
  assumes "same_rows rows (user_rows es)" "rows = r # rs"
  obtains e where "e \<in> set es" "r = user_row (ue_home e) (ue_id e) (ue_admin e)"
proof -
  have "r \<in> set (user_rows es)" using same_rows_set [OF assms(1)] assms(2) by auto
  with that show thesis by (auto simp: user_rows_def)
qed

lemma rows_Nil_iff: "same_rows rows (path_rows fs) \<Longrightarrow> rows = [] \<longleftrightarrow> fs = []"
  "same_rows rows (user_rows es) \<Longrightarrow> rows = [] \<longleftrightarrow> es = []"
  by (auto simp: same_rows_def path_rows_def user_rows_def)

lemma row_line_path: "row_line [Some p] = p"
  by (simp add: row_line_def add_cell_def cell_text_def)

section \<open>One handler call is one step of the store\<close>

text \<open>What a call that has returned with \<open>w'\<close> has done.\<close>

definition served ::
  "('j, 'db) platform \<Rightarrow> ('db \<Rightarrow> tables) \<Rightarrow> connection_t \<Rightarrow> command \<Rightarrow> 'db worker \<Rightarrow> string \<times> nat \<Rightarrow> 'db worker \<Rightarrow> bool" where
  "served P T conn c w a w' \<longleftrightarrow> replied P conn (fst a) (snd a) (w_io w) (w_io w') \<and>
     serve (plat_can_fork P) (store_of T w) c a (store_of T w') \<and> worker_ready w'"

lemma servedI:
  assumes "m = Inr (e, w')" "replied P conn s n (w_io w) (w_io w')"
    "serve (plat_can_fork P) (store_of T w) c (s, n) (store_of T w')" "w_link w' = Some l" "link_idle l"
  shows "\<exists>e w' a. m = Inr (e, w') \<and> served P T conn c w a w'"
  using assms replied_rng [OF assms(2)] unfolding served_def worker_ready_def by fastforce

lemma store_of_simps [simp]:
  "st_user (store_of T w) = w_user w" "st_files (store_of T w) = files (w_disk w)"
  "st_folders (store_of T w) = w_folders w" "w_link w = Some l \<Longrightarrow> st_tables (store_of T w) = T (link_db l)"
  by (simp_all add: store_of_def)

lemma store_of_io [simp]: "store_of T (w\<lparr>w_io := v\<rparr>) = store_of T w"
  by (simp add: store_of_def)

text \<open>A call that comes down to one reply.\<close>

lemma served_reply:
  assumes "platform_ok P" "worker_ready w" "m = reply P s n conn e w'" "w_io w' = w_io w"
    "serve (plat_can_fork P) (store_of T w) c (s, n) (store_of T w')" "w_link w' = Some l" "link_idle l" "nul_free s"
  shows "\<exists>e w' a. m = Inr (e, w') \<and> served P T conn c w a w'"
proof -
  have "rng_ok (io_rng (w_io w'))" using assms(2,4) by (simp add: worker_ready_def)
  then obtain v where v: "m = Inr (error_after_send P e, w'\<lparr>w_io := v\<rparr>)" "replied P conn s n (w_io w) v"
    using reply_sends [OF assms(1) _ assms(8), of w' n conn e] assms(3,4) by auto
  show ?thesis
    by (rule servedI [OF v(1), where s = s and n = n and l = l]) (use assms v(2) in simp_all)
qed

lemma worker_readyD: "worker_ready w \<Longrightarrow> rng_ok (io_rng (w_io w)) \<and> (\<exists>l. w_link w = Some l \<and> link_idle l)"
  by (simp add: worker_ready_def)

lemma served_refuse:
  assumes "platform_ok P" "worker_ready w" "w_user w = None" "\<not> is_login c"
  shows "\<exists>e w' a. process_command P conn c err w = Inr (e, w') \<and> served P T conn c w a w'"
proof -
  obtain l where l: "w_link w = Some l" "link_idle l" using worker_readyD [OF assms(2)] by blast
  show ?thesis
    unfolding process_command_refuses [OF assms(3,4)]
    by (rule served_reply [OF assms(1,2) refuse_def refl _ l])
       (use assms(3,4) in \<open>simp_all add: store_of_def not_logged del: append.simps\<close>)
qed

lemma served_login:
  assumes "platform_ok P" "sql_tables (plat_exec P) T" "worker_ready w" "fits P T w (Login x)"
  shows "\<exists>e w' a. process_login_cmd P conn x err w = Inr (e, w') \<and> served P T conn (Login x) w a w'"
proof -
  obtain l where l: "rng_ok (io_rng (w_io w))" "w_link w = Some l" "link_idle l"
    using worker_readyD [OF assms(3)] by blast
  show ?thesis
  proof (cases "w_user w")
    case (Some u)
    then have step: "process_login_cmd P conn x err w = reply P ''You are already logged in'' 25 conn
        (comm_error ERR_USER_ALREADY_LOGGED ''Already logged in'') w"
      by (simp add: process_login_cmd_def numeral_eq_Suc)
    show ?thesis
      by (rule served_reply [OF assms(1,3) step refl _ l(2,3)])
         (use Some in \<open>simp_all add: already_logged store_of_def\<close>)
  next
    case None
    then have f: "login_fits (T (link_db l)) (username (login_user x)) (password (login_user x))"
      using assms(4) l(2) by (simp add: fits_def)
    obtain db' rows where db: "db_answers P l (login_query (username (login_user x)) (password (login_user x))) db' rows"
      "T db' = T (link_db l)"
      "same_rows rows (user_rows (users_found (T (link_db l)) (username (login_user x)) (password (login_user x))))"
      by (rule login_answers [OF assms(2) l(3) f])
    show ?thesis
    proof (cases rows)
      case Nil
      obtain v where v: "process_login_cmd P conn x err w =
          Inr (error_after_send P (comm_error ERR_USER_NOT_EXISTS ''Login failed''),
            w\<lparr>w_link := Some (l\<lparr>link_db := db'\<rparr>), w_io := v\<rparr>)" "replied P conn ''Login failed'' 12 (w_io w) v"
        using process_login_unknown [OF assms(1) l(1) None l(2), of x db' conn err] db(1) Nil by auto
      show ?thesis
        by (rule servedI [OF v(1), where s = "''Login failed''" and n = 12 and l = "l\<lparr>link_db := db'\<rparr>"])
           (use v(2) l None Nil db rows_Nil_iff(2) [OF db(3)] in \<open>auto simp: store_of_def intro: login_failed\<close>)
    next
      case (Cons r rs)
      obtain e where e: "e \<in> set (users_found (T (link_db l)) (username (login_user x)) (password (login_user x)))"
        "r = user_row (ue_home e) (ue_id e) (ue_admin e)"
        by (rule user_rows_cases [OF db(3) Cons])
      with f have ids: "arg_ok (ue_home e)" "int32 (ue_id e)" "int32 (ue_admin e)"
        by (auto simp: login_fits_def list_all_iff)
      let ?w = "w\<lparr>w_user := Some (session_of (username (login_user x)) e), w_link := Some (l\<lparr>link_db := db'\<rparr>)\<rparr>"
      obtain v where v: "process_login_cmd P conn x err w =
          Inr (error_after_send P (comm_error ERR_OK ''Logged in successfully''), ?w\<lparr>w_io := v\<rparr>)"
        "replied P conn ''Logged in successfully'' 22 (w_io w) v"
        using process_login_known [OF assms(1) l(1) None l(2), of x db' "ue_home e" "ue_id e" "ue_admin e" rs conn err]
          db(1) Cons e(2) ids by (auto simp: session_of_def)
      have "serve (plat_can_fork P) (store_of T w) (Login x) (''Logged in successfully'', 22)
          ((store_of T w)\<lparr>st_user := Some (session_of (username (login_user x)) e)\<rparr>)"
        by (rule logged_in) (use None l(2) e(1) in simp_all)
      moreover have st: "store_of T (?w\<lparr>w_io := v\<rparr>) = (store_of T w)\<lparr>st_user := Some (session_of (username (login_user x)) e)\<rparr>"
        using db(2) l(2) by (simp add: store_of_def)
      ultimately show ?thesis
        by (intro servedI [OF v(1), where s = "''Logged in successfully''" and n = 22 and l = "l\<lparr>link_db := db'\<rparr>"])
           (use v(2) l in simp_all)
    qed
  qed
qed

lemma served_logout:
  assumes "platform_ok P" "worker_ready w" "w_user w = Some u"
  shows "\<exists>e w' a. process_logout_cmd P conn err w = Inr (e, w') \<and> served P T conn Logout w a w'"
proof -
  obtain l where l: "rng_ok (io_rng (w_io w))" "w_link w = Some l" "link_idle l"
    using worker_readyD [OF assms(2)] by blast
  obtain v where v: "reply P ''Log out successful'' (length ''Log out successful'') conn (comm_error ERR_OK ''OK'') w =
      Inr (error_after_send P (comm_error ERR_OK ''OK''), w\<lparr>w_io := v\<rparr>)"
    "replied P conn ''Log out successful'' (length ''Log out successful'') (w_io w) v"
    using reply_sends [OF assms(1) l(1), of "''Log out successful''"] by fastforce
  have n: "length ''Log out successful'' = 18" by simp
  let ?w = "w\<lparr>w_io := v, w_user := None\<rparr>"
  have step: "process_logout_cmd P conn err w = Inr (error_after_send P (comm_error ERR_OK ''OK''), ?w)"
    unfolding process_logout_cmd_def assms(3) check_logged_in using v(1) by simp
  have "serve (plat_can_fork P) (store_of T w) Logout (''Log out successful'', 18) ((store_of T w)\<lparr>st_user := None\<rparr>)"
    by (rule logged_out) (simp add: assms(3))
  then have "serve (plat_can_fork P) (store_of T w) Logout (''Log out successful'', 18) (store_of T ?w)"
    by (simp add: store_of_def)
  then show ?thesis
    by (intro servedI [OF step, where s = "''Log out successful''" and n = 18 and l = l])
       (use v(2) [unfolded n] l in simp_all)
qed

lemma store_of_link [simp]:
  "w_link w = Some l \<Longrightarrow> T db' = T (link_db l) \<Longrightarrow>
   store_of T (w\<lparr>w_link := Some (l\<lparr>link_db := db'\<rparr>)\<rparr>) = store_of T w"
  by (simp add: store_of_def)

lemma served_get:
  assumes "platform_ok P" "sql_tables (plat_exec P) T" "worker_ready w" "fits P T w (Get x)" "w_user w = Some u"
    "on_disk (store_of T w)"
  shows "\<exists>e w' a. process_get_cmd P conn x err w = Inr (e, w') \<and> served P T conn (Get x) w a w'"
proof -
  obtain l where l: "rng_ok (io_rng (w_io w))" "w_link w = Some l" "link_idle l"
    using worker_readyD [OF assms(3)] by blast
  have f: "3 < plat_usable P 3" "lookup_fits (T (link_db l)) (get_path x) (fs_home u)"
    using assms(4,5) l(2) by (simp_all add: fits_def Let_def)
  obtain db' rows where db: "db_answers P l (file_query (get_path x) (fs_home u)) db' rows" "T db' = T (link_db l)"
    "same_rows rows (path_rows (files_found (T (link_db l)) (get_path x) (fs_home u)))"
    by (rule file_answers [OF assms(2) l(3) f(2)])
  let ?w = "w\<lparr>w_link := Some (l\<lparr>link_db := db'\<rparr>)\<rparr>"
  have st: "store_of T ?w = store_of T w" using db(2) l(2) by simp
  show ?thesis
  proof (cases rows)
    case Nil
    obtain v where v: "process_get_cmd P conn x err w =
        Inr (error_after_send P (comm_error ERR_ASKED_FILE_IS_NOT_AVAILABLE ''FILE IS NOT IN DB''), ?w\<lparr>w_io := v\<rparr>)"
      "replied P conn ''FILE IS NOT IN DB'' 17 (w_io w) v"
      using process_get_unknown [OF assms(1) l(1) assms(5) l(2), of x db' conn err] db(1) Nil by auto
    have "serve (plat_can_fork P) (store_of T w) (Get x) (''FILE IS NOT IN DB'', 17) (store_of T w)"
      by (rule no_file [where u = u]) (use assms(5) l(2) Nil rows_Nil_iff(1) [OF db(3)] in simp_all)
    then show ?thesis
      by (intro servedI [OF v(1), where s = "''FILE IS NOT IN DB''" and n = 17 and l = "l\<lparr>link_db := db'\<rparr>"])
         (use v(2) l st in simp_all)
  next
    case (Cons r rs)
    obtain g where g: "g \<in> set (files_found (T (link_db l)) (get_path x) (fs_home u))" "r = [Some (fst g)]"
      by (rule path_rows_cases [OF db(3) Cons])
    then have "st_files (store_of T w) (''.'' @ fst g) \<noteq> None"
      using assms(6) l(2) unfolding on_disk_def by (simp add: files_found_def)
    then obtain d where d: "files (w_disk w) (''.'' @ fst g) = Some d" by auto
    obtain v where v: "process_get_cmd P conn x err w = Inr (comm_error ERR_OK ''OK'', ?w\<lparr>w_io := v\<rparr>)"
      "replied P conn (raw_text d) (length d) (w_io w) v"
      using process_get_found [OF assms(1) l(1) f(1) assms(5) l(2), of x db' r rs d conn err] db(1) Cons g(2) d
      by (auto simp: row_line_path)
    have "serve (plat_can_fork P) (store_of T w) (Get x) (raw_text d, length d) (store_of T w)"
      by (rule file_sent [where u = u and f = g]) (use assms(5) l(2) g(1) d in simp_all)
    then show ?thesis
      by (intro servedI [OF v(1), where s = "raw_text d" and n = "length d" and l = "l\<lparr>link_db := db'\<rparr>"])
         (use v(2) l st in simp_all)
  qed
qed

lemma served_post:
  assumes "platform_ok P" "sql_tables (plat_exec P) T" "worker_ready w" "fits P T w (Post x)" "w_user w = Some u"
  shows "\<exists>e w' a. process_post_cmd P conn x err w = Inr (e, w') \<and> served P T conn (Post x) w a w'"
proof -
  obtain l where l: "rng_ok (io_rng (w_io w))" "w_link w = Some l" "link_idle l"
    using worker_readyD [OF assms(3)] by blast
  let ?found = "files_found (T (link_db l)) (post_dest x) (fs_home u)"
  have f: "lookup_fits (T (link_db l)) (post_dest x) (fs_home u)"
    "?found = [] \<Longrightarrow> query_ok (alias_query (post_dest x) (fs_home u)) \<and> can_create (w_disk w) (post_path u x) \<and>
       (\<exists>d. post_fits P u x d)"
    using assms(4,5) l(2) by (simp_all add: fits_def Let_def)
  obtain db' rows where db: "db_answers P l (file_query (post_dest x) (fs_home u)) db' rows" "T db' = T (link_db l)"
    "same_rows rows (path_rows ?found)"
    by (rule file_answers [OF assms(2) l(3) f(1)])
  show ?thesis
  proof (cases rows)
    case (Cons r rs)
    let ?w = "w\<lparr>w_link := Some (l\<lparr>link_db := db'\<rparr>)\<rparr>"
    have step: "process_post_cmd P conn x err w = reply P ''FILE EXISTS'' 11 conn (comm_error ERR_FILE_EXISTS ''FILE EXISTS'') ?w"
      using ask_for_file_answer [OF assms(1) db(1)] Cons l(2) assms(5)
      by (simp add: process_post_cmd_def check_logged_in with_user_def Let_def first_row_def)
    have "serve (plat_can_fork P) (store_of T w) (Post x) (''FILE EXISTS'', 11) (store_of T w)"
      by (rule file_exists [where u = u]) (use assms(5) l(2) Cons rows_Nil_iff(1) [OF db(3)] in simp_all)
    then show ?thesis
      by (intro served_reply [OF assms(1,3) step, where l = "l\<lparr>link_db := db'\<rparr>"]) (use l db(2) in simp_all)
  next
    case Nil
    then have none: "?found = []" using rows_Nil_iff(1) [OF db(3)] by simp
    from f(2) [OF this] obtain d where ok: "query_ok (alias_query (post_dest x) (fs_home u))"
      "can_create (w_disk w) (post_path u x)" "post_fits P u x d" by blast
    have pl: "plain (post_dest x)" "plain_text (fs_home u)" using f(1) by (simp_all add: lookup_fits_def)
    obtain db2 where ins: "db_answers P (l\<lparr>link_db := db'\<rparr>) (alias_query (post_dest x) (fs_home u)) db2 []"
      "T db2 = add_alias (fs_home u) (post_dest x) (T db')"
      using alias_answers [OF assms(2) _ pl ok(1), of "l\<lparr>link_db := db'\<rparr>"] l(3) by auto
    obtain v ks where v: "process_post_cmd P conn x err w = Inr (error_after_send P (comm_error ERR_OK ''OK''),
        w\<lparr>w_link := Some (l\<lparr>link_db := db2\<rparr>),
          w_disk := (w_disk w)\<lparr>files := (files (w_disk w))(post_path u x \<mapsto> d), short_writes := ks\<rparr>, w_io := v\<rparr>)"
      "replied P conn ''File OK'' 7 (w_io w) v"
      using process_post_stores [OF assms(1) l(1) assms(5) l(2) _ ins(1) ok(3,2)] db(1) Nil by blast
    have "serve (plat_can_fork P) (store_of T w) (Post x) (''File OK'', 7)
        ((store_of T w)\<lparr>st_tables := add_alias (fs_home u) (post_dest x) (T (link_db l)),
           st_files := (files (w_disk w))(post_path u x \<mapsto> d)\<rparr>)"
      using file_stored [of "store_of T w" u x d "plat_can_fork P"] assms(5) l(2) none ok(3) by (simp add: post_fits_def)
    moreover have "store_of T (w\<lparr>w_link := Some (l\<lparr>link_db := db2\<rparr>),
          w_disk := (w_disk w)\<lparr>files := (files (w_disk w))(post_path u x \<mapsto> d), short_writes := ks\<rparr>\<rparr>) =
        (store_of T w)\<lparr>st_tables := add_alias (fs_home u) (post_dest x) (T (link_db l)),
           st_files := (files (w_disk w))(post_path u x \<mapsto> d)\<rparr>"
      using ins(2) db(2) l(2) by (simp add: store_of_def)
    ultimately show ?thesis
      by (intro servedI [OF v(1), where s = "''File OK''" and n = 7 and l = "l\<lparr>link_db := db2\<rparr>"])
         (use v(2) l in simp_all)
  qed
qed

lemma served_change_pass:
  assumes "platform_ok P" "sql_tables (plat_exec P) T" "worker_ready w" "fits P T w (Change_pass x)" "w_user w = Some u"
  shows "\<exists>e w' a. process_change_pass_cmd P conn x err w = Inr (e, w') \<and> served P T conn (Change_pass x) w a w'"
proof -
  obtain l where l: "w_link w = Some l" "link_idle l" using worker_readyD [OF assms(3)] by blast
  have f: "plain (pass x)" "int32 (fs_id u)" "query_ok (pass_query (fs_id u) (pass x))"
    "pass_fits (plat_usable P) (fs_id u) (pass x)"
    using assms(4,5) l(1) by (simp_all add: fits_def Let_def)
  let ?q = "pass_query (fs_id u) (pass x)"
  let ?db = "fst (plat_exec P (link_db l) ?q)"
  let ?w = "w\<lparr>w_link := Some (l\<lparr>link_db := ?db\<rparr>)\<rparr>"
  have db: "plat_exec P (link_db l) ?q = (?db, [])" "T ?db = set_password (fs_id u) (pass x) (T (link_db l))"
    using sql_tablesD(11,12) [OF assms(2) f(1,2), of "link_db l"] by (simp_all add: prod_eq_iff)
  have U: "allocator (plat_usable P)" using assms(1) by (simp add: platform_ok_def)
  have step: "process_change_pass_cmd P conn x err w = reply P ''PASSWORD UPDATED'' 16 conn (comm_error ERR_OK ''OK'') ?w"
    using update_pass_ok [where user = u and new_pass = "pass x" and exec = "plat_exec P", OF U l(2) refl f(3,4) db(1)] l(1) assms(5)
    by (simp add: process_change_pass_cmd_def check_logged_in with_user_def)
  have "store_of T ?w = (store_of T w)\<lparr>st_tables := set_password (fs_id u) (pass x) (st_tables (store_of T w))\<rparr>"
    using db(2) l(1) by (simp add: store_of_def)
  then have "serve (plat_can_fork P) (store_of T w) (Change_pass x) (''PASSWORD UPDATED'', 16) (store_of T ?w)"
    by (simp only:) (rule password_set, simp add: assms(5))
  then show ?thesis
    by (intro served_reply [OF assms(1,3) step, where l = "l\<lparr>link_db := ?db\<rparr>"]) (use l in simp_all)
qed

lemma user_db_answers:
  assumes "sql_tables (plat_exec P) T" "link_idle l" "plain name" "query_ok (user_query name)"
    "rows_ok (map (\<lambda>e. [Some (ue_home e)]) (users_named (T (link_db l)) name))" "platform_ok P"
  obtains db' where "user_in_db (plat_usable P) (plat_exec P) (Some l) name =
      Inr (users_named (T (link_db l)) name \<noteq> [], l\<lparr>link_db := db'\<rparr>)" "T db' = T (link_db l)"
proof -
  let ?rows = "snd (plat_exec P (link_db l) (user_query name))"
  let ?spec = "map (\<lambda>e. [Some (ue_home e)]) (users_named (T (link_db l)) name)"
  have d: "T (fst (plat_exec P (link_db l) (user_query name))) = T (link_db l)" "same_rows ?rows ?spec"
    using sql_tablesD(7,8) [OF assms(1,3), of "link_db l"] by simp_all
  then have "(?rows = []) = (users_named (T (link_db l)) name = [])" by (auto simp: same_rows_def)
  moreover have "allocator (plat_usable P)" using assms(6) by (simp add: platform_ok_def)
  ultimately show thesis
    using user_in_db_ok [where exec = "plat_exec P" and name = name, OF _ assms(2) refl assms(4)] that [OF _ d(1)]
      same_rows_ok [OF d(2) assms(5)] by simp
qed

lemma store_of_new_user:
  assumes "w_link w = Some l" "T db' = add_user uid name p adm (T (link_db l))"
  shows "store_of T (w\<lparr>w_folders := fs, w_link := Some (l\<lparr>link_db := db'\<rparr>)\<rparr>) =
    (store_of T w)\<lparr>st_tables := add_user uid name p adm (st_tables (store_of T w)), st_folders := fs\<rparr>"
  using assms by (simp add: store_of_def)

lemma create_user_folder_ok:
  assumes "allocator (plat_usable P)" "length name + 6 < plat_usable P (length name + 6)"
  shows "create_user_folder P name w =
    Inr (w\<lparr>w_folders := w_folders w @ user_folder (plat_can_fork P) name\<rparr>)"
  using assms(2) by (simp add: create_user_folder_def user_folder_def sprintf_into_Inr add.commute)

lemma served_new_user:
  assumes "platform_ok P" "sql_tables (plat_exec P) T" "worker_ready w" "fits P T w (New_user x)" "w_user w = Some u"
  shows "\<exists>e w' a. process_new_user_cmd P conn x err w = Inr (e, w') \<and> served P T conn (New_user x) w a w'"
proof -
  obtain l where l: "w_link w = Some l" "link_idle l" using worker_readyD [OF assms(3)] by blast
  have U: "allocator (plat_usable P)" using assms(1) by (simp add: platform_ok_def)
  let ?n = "username (new_user x)" and ?p = "password (new_user x)" and ?a = "admin (new_user x)"
  show ?thesis
  proof (cases "fs_is_admin u = 0")
    case True
    have step: "process_new_user_cmd P conn x err w = reply P ''HAVE NOT PERMISION'' 10 conn
        (comm_error ERR_USER_HAVE_NOT_PERMISSION ''HAVE NOT PERMISION'') w"
      using True assms(5) by (simp add: process_new_user_cmd_def check_logged_in with_user_def)
    show ?thesis
      by (rule served_reply [OF assms(1,3) step refl _ l]) (use True assms(5) in \<open>simp_all add: no_permission\<close>)
  next
    case False
    then have f: "plain ?n" "plain ?p" "query_ok (user_query ?n)"
      "rows_ok (map (\<lambda>e. [Some (ue_home e)]) (users_named (T (link_db l)) ?n))"
      "users_named (T (link_db l)) ?n = [] \<Longrightarrow>
        query_ok (new_user_query ?n ?p ?a) \<and> new_user_fits (plat_usable P) ?n ?p ?a"
      using assms(4,5) l(1) by (simp_all add: fits_def Let_def)
    obtain db' where db: "user_in_db (plat_usable P) (plat_exec P) (Some l) ?n =
        Inr (users_named (T (link_db l)) ?n \<noteq> [], l\<lparr>link_db := db'\<rparr>)" "T db' = T (link_db l)"
      by (rule user_db_answers [OF assms(2) l(2) f(1,3,4) assms(1)])
    let ?w = "w\<lparr>w_link := Some (l\<lparr>link_db := db'\<rparr>)\<rparr>"
    show ?thesis
    proof (cases "users_named (T (link_db l)) ?n = []")
      case found: False
      have step: "process_new_user_cmd P conn x err w = reply P ''User already exists'' 19 conn
          (comm_error ERR_USER_EXISTS ''User already exists'') ?w"
        using False found db(1) l(1) assms(5) by (simp add: process_new_user_cmd_def check_logged_in with_user_def Let_def)
      have "serve (plat_can_fork P) (store_of T w) (New_user x) (''User already exists'', 19) (store_of T w)"
        by (rule user_exists [where u = u]) (use assms(5) False found l(1) in simp_all)
      then show ?thesis
        by (intro served_reply [OF assms(1,3) step, where l = "l\<lparr>link_db := db'\<rparr>"]) (use l db(2) in simp_all)
    next
      case none: True
      from f(5) [OF this] have ok: "query_ok (new_user_query ?n ?p ?a)" "new_user_fits (plat_usable P) ?n ?p ?a"
        by simp_all
      let ?db = "fst (plat_exec P db' (new_user_query ?n ?p ?a))"
      have ins: "plat_exec P db' (new_user_query ?n ?p ?a) = (?db, [])"
        using sql_tablesD(9) [OF assms(2) f(1,2), of db' ?a] by (simp add: prod_eq_iff)
      obtain uid where uid: "uid \<notin> ue_id ` set (tb_users (T (link_db l)))"
        "T ?db = add_user uid ?n ?p ?a (T (link_db l))"
        using sql_tablesD(10) [OF assms(2) f(1,2), of db' ?a] db(2) unfolding add_user_def by auto
      let ?fs = "w_folders w @ user_folder (plat_can_fork P) ?n"
      let ?w = "w\<lparr>w_folders := ?fs, w_link := Some (l\<lparr>link_db := ?db\<rparr>)\<rparr>"
      have folder: "create_user_folder P ?n w' = Inr (w'\<lparr>w_folders := w_folders w' @
          user_folder (plat_can_fork P) ?n\<rparr>)" for w' :: "'b worker"
        using ok(2) by (intro create_user_folder_ok [OF U]) (simp add: new_user_fits_def)
      have new: "new_user_in_db (plat_usable P) (plat_exec P) (Some (l\<lparr>link_db := db'\<rparr>)) ?n ?p ?a =
          Inr (EXPECTED_RESPONSE, l\<lparr>link_db := ?db\<rparr>)"
        using new_user_ok [where exec = "plat_exec P" and l = "l\<lparr>link_db := db'\<rparr>", OF U _ refl ok] ins l(2) by simp
      have step: "process_new_user_cmd P conn x err w = reply P ''User registered'' 15 conn (comm_error ERR_OK ''OK'') ?w"
        using False none db(1) new l(1) assms(5)
        by (simp add: process_new_user_cmd_def check_logged_in with_user_def Let_def folder)
      have "serve (plat_can_fork P) (store_of T w) (New_user x) (''User registered'', 15) (store_of T ?w)"
        using user_added [of "store_of T w" u x uid "plat_can_fork P"] assms(5) False none l(1) uid(1)
        by (simp add: store_of_new_user [OF l(1) uid(2)])
      then show ?thesis
        by (intro served_reply [OF assms(1,3) step, where l = "l\<lparr>link_db := ?db\<rparr>"]) (use l in simp_all)
    qed
  qed
qed

lemma process_command_serves:
  assumes "platform_ok P" "sql_tables (plat_exec P) T" "worker_ready w" "fits P T w c" "on_disk (store_of T w)"
  shows "\<exists>e w' a. process_command P conn c err w = Inr (e, w') \<and> served P T conn c w a w'"
proof (cases "w_user w = None \<and> \<not> is_login c")
  case True
  with served_refuse [OF assms(1,3)] show ?thesis by blast
next
  case False
  note calls = served_get [OF assms(1-3) _ _ assms(5)] served_post [OF assms(1-3)] served_login [OF assms(1-3)]
    served_logout [OF assms(1,3)] served_new_user [OF assms(1-3)] served_change_pass [OF assms(1-3)]
  show ?thesis
    using False assms(4) calls
    by (cases c; cases "w_user w") (simp_all only: process_command.simps is_login.simps not_True_eq_False simp_thms)
qed

section \<open>Invariants of the store\<close>

text \<open>What no step of the store touches: the other rows, and the files the database has.\<close>

lemma serve_on_disk: "serve F s c a s' \<Longrightarrow> on_disk s \<Longrightarrow> on_disk s'"
  by (induction rule: serve.induct) (auto simp: on_disk_def add_alias_def add_user_def set_password_def post_path_def)

definition ids_distinct :: "store \<Rightarrow> bool" where
  "ids_distinct s \<longleftrightarrow> distinct (map ue_id (tb_users (st_tables s)))"

lemma set_password_ids: "map ue_id (tb_users (set_password uid p t)) = map ue_id (tb_users t)"
  by (simp add: set_password_def)

lemma serve_ids_distinct: "serve F s c a s' \<Longrightarrow> ids_distinct s \<Longrightarrow> ids_distinct s'"
  by (induction rule: serve.induct) (auto simp: ids_distinct_def add_alias_def add_user_def set_password_ids)

section \<open>Sequences of commands\<close>

text \<open>
  A service of commands: \<open>call\<close> is the code that answers one command, \<open>step\<close> the specification, \<open>abs\<close>
  the state the code's state stands for. When every ready state answers a fitting command as the
  specification says and is ready again, it does so for sequences of any length.
\<close>

fun call_all :: "('c \<Rightarrow> 'w \<Rightarrow> 'w option) \<Rightarrow> 'c list \<Rightarrow> 'w \<Rightarrow> 'w option" where
  "call_all call [] w = Some w"
| "call_all call (c # cs) w = (case call c w of None \<Rightarrow> None | Some w' \<Rightarrow> call_all call cs w')"

fun fit_all :: "('c \<Rightarrow> 'w \<Rightarrow> 'w option) \<Rightarrow> ('w \<Rightarrow> 'c \<Rightarrow> bool) \<Rightarrow> 'c list \<Rightarrow> 'w \<Rightarrow> bool" where
  "fit_all call fit [] w \<longleftrightarrow> True"
| "fit_all call fit (c # cs) w \<longleftrightarrow> fit w c \<and> (case call c w of None \<Rightarrow> True | Some w' \<Rightarrow> fit_all call fit cs w')"

inductive trace :: "('s \<Rightarrow> 'c \<Rightarrow> 'a \<Rightarrow> 's \<Rightarrow> bool) \<Rightarrow> 's \<Rightarrow> 'c list \<Rightarrow> 'a list \<Rightarrow> 's \<Rightarrow> bool" for step where
  trace_nil: "trace step s [] [] s"
| trace_cons: "step s c a s' \<Longrightarrow> trace step s' cs as s'' \<Longrightarrow> trace step s (c # cs) (a # as) s''"

inductive_cases trace_nil_elim: "trace step s [] as s'"
inductive_cases trace_cons_elim: "trace step s (c # cs) as s'"

lemma trace_invariant:
  "trace step s cs as s' \<Longrightarrow> I s \<Longrightarrow> (\<And>s c a s'. step s c a s' \<Longrightarrow> I s \<Longrightarrow> I s') \<Longrightarrow> I s'"
  by (induction rule: trace.induct) blast+

locale command_service =
  fixes call :: "'c \<Rightarrow> 'w \<Rightarrow> 'w option"
    and ready :: "'w \<Rightarrow> bool"
    and fit :: "'w \<Rightarrow> 'c \<Rightarrow> bool"
    and abs :: "'w \<Rightarrow> 's"
    and step :: "'s \<Rightarrow> 'c \<Rightarrow> 'a \<Rightarrow> 's \<Rightarrow> bool"
    and answers :: "'w \<Rightarrow> 'a \<Rightarrow> 'w \<Rightarrow> bool"
  assumes call_served: "ready w \<Longrightarrow> fit w c \<Longrightarrow>
    \<exists>w' a. call c w = Some w' \<and> answers w a w' \<and> step (abs w) c a (abs w') \<and> ready w'"
begin

lemma calls_served:
  "ready w \<Longrightarrow> fit_all call fit cs w \<Longrightarrow>
   \<exists>w' as. call_all call cs w = Some w' \<and> trace (\<lambda>w c a w'. answers w a w') w cs as w' \<and>
     trace step (abs w) cs as (abs w') \<and> ready w'"
proof (induction cs arbitrary: w)
  case Nil
  then show ?case by (auto intro: trace_nil)
next
  case (Cons c cs)
  then obtain w1 a where w1: "call c w = Some w1" "answers w a w1" "step (abs w) c a (abs w1)" "ready w1"
    using call_served by fastforce
  with Cons obtain w' as where "call_all call cs w1 = Some w'" "trace (\<lambda>w c a w'. answers w a w') w1 cs as w'"
    "trace step (abs w1) cs as (abs w')" "ready w'"
    by fastforce
  with w1 show ?case by (auto intro: trace_cons)
qed

end

text \<open>The handlers.\<close>

definition call_handler ::
  "('j, 'db) platform \<Rightarrow> connection_t \<Rightarrow> comm_error_t \<Rightarrow> command \<Rightarrow> 'db worker \<Rightarrow> 'db worker option" where
  "call_handler P conn err c w =
     (case process_command P conn c err w of Inl _ \<Rightarrow> None | Inr (_, w') \<Rightarrow> Some w')"

definition service_ready :: "('j, 'db) platform \<Rightarrow> ('db \<Rightarrow> tables) \<Rightarrow> 'db worker \<Rightarrow> bool" where
  "service_ready P T w \<longleftrightarrow> platform_ok P \<and> sql_tables (plat_exec P) T \<and> worker_ready w \<and> on_disk (store_of T w)"

definition answer_sent :: "('j, 'db) platform \<Rightarrow> connection_t \<Rightarrow> 'db worker \<Rightarrow> string \<times> nat \<Rightarrow> 'db worker \<Rightarrow> bool" where
  "answer_sent P conn w a w' \<longleftrightarrow> replied P conn (fst a) (snd a) (w_io w) (w_io w')"

interpretation handlers: command_service "call_handler P conn err" "service_ready P T" "fits P T" "store_of T"
  "serve (plat_can_fork P)" "answer_sent P conn" for P conn err T
proof
  fix w :: "'b worker" and c
  assume "service_ready P T w" "fits P T w c"
  then obtain e w' a where h: "process_command P conn c err w = Inr (e, w')" "served P T conn c w a w'"
    using process_command_serves unfolding service_ready_def by blast
  moreover have "on_disk (store_of T w')"
    using h(2) \<open>service_ready P T w\<close> serve_on_disk unfolding served_def service_ready_def by blast
  ultimately show "\<exists>w' a. call_handler P conn err c w = Some w' \<and> answer_sent P conn w a w' \<and>
      serve (plat_can_fork P) (store_of T w) c a (store_of T w') \<and> service_ready P T w'"
    using \<open>service_ready P T w\<close>
    by (intro exI [of _ w'] exI [of _ a]) (simp add: call_handler_def served_def service_ready_def answer_sent_def)
qed

section \<open>What the store promises\<close>

text \<open>A word in double quotes that names no column is itself.\<close>

definition own_word :: "string \<Rightarrow> bool" where
  "own_word v \<longleftrightarrow> lower v \<notin> {''username'', ''password'', ''home''}"

lemma user_word_own [simp]: "own_word v \<Longrightarrow> user_word e v = v"
  by (simp add: user_word_def own_word_def)

text \<open>The one row of a name.\<close>

definition only_user :: "tables \<Rightarrow> user_entry \<Rightarrow> bool" where
  "only_user t e \<longleftrightarrow> e \<in> set (tb_users t) \<and>
     (\<forall>e' \<in> set (tb_users t). ue_id e' = ue_id e \<or> ue_name e' = ue_name e \<longrightarrow> e' = e)"

lemma users_found_only:
  assumes "only_user t e" "own_word (ue_name e)" "own_word q"
  shows "set (users_found t (ue_name e) q) = (if q = ue_password e then {e} else {})"
  using assms by (auto simp: users_found_def only_user_def)

lemma only_user_set_password:
  assumes "only_user t e" "own_word p"
  shows "only_user (set_password (ue_id e) p t) (e\<lparr>ue_password := p\<rparr>)"
  using assms unfolding only_user_def set_password_def by auto

lemma password_change_step:
  assumes "trace (serve F) s [Change_pass c, Logout, Login x] as s'" "st_user s = Some u"
    "only_user (st_tables s) e" "fs_id u = ue_id e" "own_word (ue_name e)" "own_word (pass c)"
    "username (login_user x) = ue_name e" "own_word (password (login_user x))"
  shows "st_user s' = (if password (login_user x) = pass c then Some (session_of (ue_name e) e) else None)"
proof -
  obtain a1 a2 a3 s1 s2 where t: "serve F s (Change_pass c) a1 s1" "serve F s1 Logout a2 s2" "serve F s2 (Login x) a3 s'"
    using assms(1) by (fastforce elim!: trace_cons_elim trace_nil_elim)
  have s1: "s1 = s\<lparr>st_tables := set_password (ue_id e) (pass c) (st_tables s)\<rparr>"
    using t(1) assms(2,4) by (auto elim: serve_change_pass_elim)
  have s2: "s2 = s1\<lparr>st_user := None\<rparr>"
    using t(2) assms(2) s1 by (auto elim: serve_logout_elim)
  let ?e = "e\<lparr>ue_password := pass c\<rparr>"
  have found: "set (users_found (st_tables s2) (username (login_user x)) (password (login_user x))) =
      (if password (login_user x) = pass c then {?e} else {})"
    using users_found_only [OF only_user_set_password [OF assms(3,6)], of "password (login_user x)"] s1 s2 assms(5,7,8)
    by simp
  have "st_user s2 = None" by (simp add: s2)
  with t(3) found assms(7) show ?thesis
    by (cases a3) (erule serve_login_elim; auto simp: session_of_def split: if_splits)
qed

section \<open>Properties\<close>

text \<open>
  A handler call is one step of the file store: whatever the command, when its values fit the
  queries and the files of the database are on the disk, the call returns, sends the one answer the
  store gives, and leaves the worker with the store after the step, ready for the next command.
\<close>

theorem handlers_implement_store:
  assumes "platform_ok P" "sql_tables (plat_exec P) T" "worker_ready w" "on_disk (store_of T w)" "fits P T w c"
  shows "\<exists>e w' s n. process_command P conn c err w = Inr (e, w') \<and> replied P conn s n (w_io w) (w_io w') \<and>
    serve (plat_can_fork P) (store_of T w) c (s, n) (store_of T w') \<and> worker_ready w' \<and> on_disk (store_of T w')"
proof -
  obtain e w' s n where h: "process_command P conn c err w = Inr (e, w')" "served P T conn c w (s, n) w'"
    using process_command_serves [OF assms(1-3,5,4), of conn err] by auto
  then have "on_disk (store_of T w')"
    using assms(4) serve_on_disk unfolding served_def by blast
  with h show ?thesis unfolding served_def by auto
qed

text \<open>Two users and no files, for the witnesses.\<close>

definition sample_tables :: tables where
  "sample_tables = \<lparr>tb_users =
     [\<lparr>ue_id = 1, ue_name = ''root'', ue_password = ''r'', ue_home = ''/fs/'', ue_admin = 1\<rparr>,
      \<lparr>ue_id = 7, ue_name = ''ana'', ue_password = ''x'', ue_home = ''/fs/ana'', ue_admin = 0\<rparr>], tb_files = []\<rparr>"

definition ana_login :: "string \<Rightarrow> command_login_t" where
  "ana_login p = \<lparr>login_user = \<lparr>username = ''ana'', password = p, admin = 0\<rparr>\<rparr>"

lemma plain_ana: "plain ''ana''" "plain ''x''" "plain ''y''"
  by code_simp+

lemma rows_ok_users: "rows_ok (user_rows (users_found sample_tables ''ana'' ''x''))"
  by code_simp

lemma sample_ready:
  "platform_ok (sample_platform tables_engine)" "worker_ready (sample_worker t u)"
  "on_disk (store_of (\<lambda>t. t) (sample_worker sample_tables u))"
  by (simp_all add: worker_ready_def link_idle_def init_sqlite_server_def on_disk_def store_of_def sample_tables_def)

lemma fits_ana: "fits (sample_platform tables_engine) (\<lambda>t. t) (sample_worker sample_tables None) (Login (ana_login ''x''))"
proof -
  have "list_all (\<lambda>e. arg_ok (ue_home e) \<and> int32 (ue_id e) \<and> int32 (ue_admin e)) (users_found sample_tables ''ana'' ''x'')"
    by code_simp
  then show ?thesis
    using plain_ana query_ok_ana rows_ok_users
    by (simp add: fits_def login_fits_def ana_login_def init_sqlite_server_def)
qed

theorem handlers_implement_store_witness:
  "let P = sample_platform tables_engine; w = sample_worker sample_tables None
   in \<exists>e w' s n. process_command P sample_conn (Login (ana_login ''x'')) (comm_error 0 []) w = Inr (e, w') \<and>
    replied P sample_conn s n (w_io w) (w_io w') \<and>
    serve (plat_can_fork P) (store_of (\<lambda>t. t) w) (Login (ana_login ''x'')) (s, n) (store_of (\<lambda>t. t) w') \<and>
    worker_ready w' \<and> on_disk (store_of (\<lambda>t. t) w')"
  unfolding Let_def
  by (rule handlers_implement_store) (simp_all only: sample_platform_simps tables_engine_laws sample_ready fits_ana)


lemma lookup_fits_sample: "lookup_fits sample_tables ''x'' ''/fs/ana''"
proof -
  have "plain ''x''" "plain_text ''/fs/ana''" "rows_ok (path_rows (files_found sample_tables ''x'' ''/fs/ana''))"
    by code_simp+
  then show ?thesis using query_ok_sample by (simp add: lookup_fits_def)
qed


text \<open>
  The password \<open>password\<close> opens every account: in double quotes the word is the column for SQLite, so the
  condition compares each row's password with itself.
\<close>

theorem password_word_opens_accounts:
  assumes "platform_ok P" "sql_tables (plat_exec P) T" "worker_ready w" "w_user w = None"
    "x = \<lparr>login_user = \<lparr>username = name, password = ''password'', admin = adm\<rparr>\<rparr>"
    "es = filter (\<lambda>e. ue_name e = name) (tb_users (st_tables (store_of T w)))" "es \<noteq> []" "own_word name" "plain name"
    "query_ok (login_query name ''password'')" "rows_ok (user_rows es)"
    "list_all (\<lambda>e. arg_ok (ue_home e) \<and> int32 (ue_id e) \<and> int32 (ue_admin e)) es"
  shows "\<exists>e w' u. process_login_cmd P conn x err w = Inr (e, w') \<and>
    replied P conn ''Logged in successfully'' 22 (w_io w) (w_io w') \<and>
    u \<in> set es \<and> w_user w' = Some (session_of name u)"
proof -
  obtain l where l: "w_link w = Some l" using worker_readyD [OF assms(3)] by blast
  have words: "lower ''password'' = ''password''" "plain ''password''" by code_simp+
  then have all: "users_found t name ''password'' = filter (\<lambda>e. ue_name e = name) (tb_users t)" for t
    using assms(8) by (simp add: users_found_def user_word_def own_word_def)
  then have es: "users_found (st_tables (store_of T w)) (username (login_user x)) (password (login_user x)) = es"
    using assms(5,6) by simp
  have "fits P T w (Login x)"
    using assms(4,5,9-12) l es words(2) by (simp add: fits_def login_fits_def)
  then obtain e w' s n where h: "process_login_cmd P conn x err w = Inr (e, w')" "served P T conn (Login x) w (s, n) w'"
    using served_login [OF assms(1-3)] by fastforce
  then have r: "replied P conn s n (w_io w) (w_io w')" "serve (plat_can_fork P) (store_of T w) (Login x) (s, n) (store_of T w')"
    by (simp_all add: served_def)
  have "\<exists>u \<in> set es. (s, n) = (''Logged in successfully'', 22) \<and> st_user (store_of T w') = Some (session_of name u)"
    using r(2) by (rule serve_login_elim) (use assms(4,5,7) es in auto)
  with h r(1) show ?thesis by auto
qed

lemma query_ok_root: "query_ok (login_query ''root'' ''password'')"
  unfolding login_query_def
  by (rule query_ok_select) (simp_all add: select_spec_def where_text_def quoted_def)

theorem password_word_opens_accounts_witness:
  "let P = sample_platform tables_engine; w = sample_worker sample_tables None;
       es = filter (\<lambda>e. ue_name e = ''root'') (tb_users sample_tables)
   in \<exists>e w' u. process_login_cmd P sample_conn
      \<lparr>login_user = \<lparr>username = ''root'', password = ''password'', admin = 0\<rparr>\<rparr> (comm_error 0 []) w = Inr (e, w') \<and>
    replied P sample_conn ''Logged in successfully'' 22 (w_io w) (w_io w') \<and>
    u \<in> set es \<and> w_user w' = Some (session_of ''root'' u)"
  unfolding Let_def
proof (rule password_word_opens_accounts [where T = "\<lambda>t. t"])
  let ?es = "filter (\<lambda>e. ue_name e = ''root'') (tb_users sample_tables)"
  show "rows_ok (user_rows ?es)" "own_word ''root''" "plain ''root''" "?es \<noteq> []"
    "list_all (\<lambda>e. arg_ok (ue_home e) \<and> int32 (ue_id e) \<and> int32 (ue_admin e)) ?es" by code_simp+
  show "?es = filter (\<lambda>e. ue_name e = ''root'') (tb_users (st_tables (store_of (\<lambda>t. t) (sample_worker sample_tables None))))"
    by (simp add: store_of_def init_sqlite_server_def)
qed (simp_all only: sample_platform_simps tables_engine_laws sample_ready sample_worker_simps query_ok_root)

text \<open>
  The home is compared as a prefix, without the slash after it: a file of \<open>anabel\<close> is under the home of
  \<open>ana\<close>, who gets it when she has none of that alias.
\<close>

lemma under_home_prefix: "under_home home (home @ rest)"
  by (simp add: under_home_def)

theorem other_home_is_read:
  assumes "platform_ok P" "sql_tables (plat_exec P) T" "worker_ready w" "on_disk (store_of T w)"
    "fits P T w (Get c)" "w_user w = Some u" "p = fs_home u @ rest @ ''/'' @ get_path c"
    "files_found (st_tables (store_of T w)) (get_path c) (fs_home u) = [(p, get_path c)]"
  shows "\<exists>e w' d. st_files (store_of T w) (''.'' @ p) = Some d \<and>
    process_get_cmd P conn c err w = Inr (e, w') \<and> replied P conn (raw_text d) (length d) (w_io w) (w_io w')"
proof -
  obtain e w' s n where h: "process_get_cmd P conn c err w = Inr (e, w')" "served P T conn (Get c) w (s, n) w'"
    using served_get [OF assms(1-3,5,6,4)] by fastforce
  then have r: "replied P conn s n (w_io w) (w_io w')" "serve (plat_can_fork P) (store_of T w) (Get c) (s, n) (store_of T w')"
    by (simp_all add: served_def)
  have "\<exists>d. st_files (store_of T w) (''.'' @ p) = Some d \<and> (s, n) = (raw_text d, length d)"
    using r(2) by (rule serve_get_elim) (use assms(6,8) in auto)
  with h(1) r(1) show ?thesis by auto
qed

text \<open>
  A post whose file cannot be created is recorded and answered with \<open>File OK\<close> all the same: the result of
  \<open>file_from_raw_data\<close> is not looked at. The get that follows crashes the worker.
\<close>

lemma process_post_uncreatable:
  assumes "platform_ok P" "rng_ok (io_rng (w_io w))" "w_user w = Some u" "w_link w = Some l"
    "db_answers P l (file_query (post_dest post) (fs_home u)) db1 []"
    "db_answers P (l\<lparr>link_db := db1\<rparr>) (alias_query (post_dest post) (fs_home u)) db2 []"
    "post_fits P u post d" "\<not> can_create (w_disk w) (post_path u post)"
  shows "process_post_cmd P conn post err w =
    reply P ''File OK'' 7 conn (comm_error ERR_OK ''OK'') (w\<lparr>w_link := Some (l\<lparr>link_db := db2\<rparr>)\<rparr>)"
proof -
  have U: "allocator (plat_usable P)" using assms(1) by (simp add: platform_ok_def)
  have ins: "insert_alias_in_db (plat_usable P) (plat_exec P) (Some (l\<lparr>link_db := db1\<rparr>)) (post_dest post) u =
      Inr (EXPECTED_RESPONSE, l\<lparr>link_db := db2\<rparr>)"
    using insert_alias_ok [OF U, of "l\<lparr>link_db := db1\<rparr>" _ "post_dest post" u, OF _ refl] assms(6,7)
    by (simp add: db_answers_def post_fits_def)
  obtain b where b: "decode_to_raw_data (plat_usable P) (plat_junk P) (post_data post @ [ZERO]) = Inr b"
    using decode_raw_text [OF U, of "plat_junk P" d "[]"] assms(7) by (auto simp: post_fits_def)
  have "file_from_raw_data (w_disk w) (''.'' @ fs_home u @ ''/'' @ post_dest post) b (post_size post) =
      Inr (ERR_FILE_NOT_OPENED, w_disk w)"
    using assms(8) by (simp add: file_from_raw_data_def post_path_def)
  then show ?thesis
    using assms(3,4) ask_for_file_answer [OF assms(1,5)] ins b
    by (simp add: process_post_cmd_def check_logged_in with_user_def Let_def first_row_def
        sprintf_into_fits [OF U] numeral_eq_Suc)
qed

lemma file_word_own: "lower a \<notin> {''path'', ''alias''} \<Longrightarrow> file_word f a = a"
  by (simp add: file_word_def)

lemma files_found_add_alias:
  assumes "files_found t a home = []" "lower a \<notin> {''path'', ''alias''}"
  shows "files_found (add_alias home a t) a home = [(home @ ''/'' @ a, a)]"
  using assms by (simp add: files_found_def add_alias_def file_word_own under_home_prefix)

theorem failed_post_then_get_crashes:
  assumes "platform_ok P" "sql_tables (plat_exec P) T" "worker_ready w" "w_user w = Some u"
    "t = st_tables (store_of T w)" "a = post_dest post" "files_found t a (fs_home u) = []"
    "lookup_fits t a (fs_home u)" "lookup_fits (add_alias (fs_home u) a t) a (fs_home u)" "lower a \<notin> {''path'', ''alias''}"
    "query_ok (alias_query a (fs_home u))" "post_fits P u post d"
    "\<not> can_create (w_disk w) (post_path u post)" "files (w_disk w) (post_path u post) = None"
  shows "\<exists>e w'. process_post_cmd P conn post err w = Inr (e, w') \<and> replied P conn ''File OK'' 7 (w_io w) (w_io w') \<and>
    process_get_cmd P conn \<lparr>get_path = a\<rparr> err' w' = Inl Null_deref"
proof -
  obtain l where l: "rng_ok (io_rng (w_io w))" "w_link w = Some l" "link_idle l"
    using worker_readyD [OF assms(3)] by blast
  have t: "t = T (link_db l)" using assms(5) l(2) by simp
  obtain db1 rows where db1: "db_answers P l (file_query a (fs_home u)) db1 rows" "T db1 = t"
    "same_rows rows (path_rows (files_found t a (fs_home u)))"
    using file_answers [OF assms(2) l(3) assms(8) [unfolded t]] t by metis
  have none: "rows = []" using rows_Nil_iff(1) [OF db1(3)] assms(7) by simp
  have pl: "plain a" "plain_text (fs_home u)" using assms(8) by (simp_all add: lookup_fits_def)
  obtain db2 where db2: "db_answers P (l\<lparr>link_db := db1\<rparr>) (alias_query a (fs_home u)) db2 []"
    "T db2 = add_alias (fs_home u) a t"
    using alias_answers [OF assms(2) _ pl assms(11), of "l\<lparr>link_db := db1\<rparr>"] l(3) db1(2) by auto
  let ?l = "l\<lparr>link_db := db2\<rparr>"
  have "process_post_cmd P conn post err w = reply P ''File OK'' 7 conn (comm_error ERR_OK ''OK'') (w\<lparr>w_link := Some ?l\<rparr>)"
    using process_post_uncreatable [OF assms(1) l(1) assms(4) l(2), of post db1 db2 d] db1(1) db2(1) none assms(6,12,13) by simp
  moreover obtain v where "reply P ''File OK'' 7 conn (comm_error ERR_OK ''OK'') (w\<lparr>w_link := Some ?l\<rparr>) =
      Inr (error_after_send P (comm_error ERR_OK ''OK''), w\<lparr>w_link := Some ?l, w_io := v\<rparr>)" "replied P conn ''File OK'' 7 (w_io w) v"
    using reply_sends [OF assms(1), of "w\<lparr>w_link := Some ?l\<rparr>" "''File OK''" 7 conn "comm_error ERR_OK ''OK''"] l(1) by auto
  moreover have "process_get_cmd P conn \<lparr>get_path = a\<rparr> err' (w\<lparr>w_link := Some ?l, w_io := v\<rparr>) = Inl Null_deref" for v
  proof -
    obtain db3 rows3 where db3: "db_answers P ?l (file_query a (fs_home u)) db3 rows3"
      "same_rows rows3 (path_rows (files_found (add_alias (fs_home u) a t) a (fs_home u)))"
      using file_answers [OF assms(2), of ?l a "fs_home u"] l(3) assms(9) db2(2) by (simp, blast)
    then obtain r rs where rs: "rows3 = r # rs"
      using rows_Nil_iff(1) [OF db3(2)] files_found_add_alias [OF assms(7,10)] by (cases rows3) auto
    with db3(2) obtain g where "g \<in> set (files_found (add_alias (fs_home u) a t) a (fs_home u))" "r = [Some (fst g)]"
      by (rule path_rows_cases)
    then have "row_line r = fs_home u @ ''/'' @ a"
      by (simp add: files_found_add_alias [OF assms(7,10)] row_line_path)
    then have "files (w_disk w) (''.'' @ row_line r) = None" using assms(6,14) by (simp add: post_path_def)
    then show ?thesis
      using process_get_missing [OF assms(1), of "w\<lparr>w_link := Some ?l, w_io := v\<rparr>" u ?l "\<lparr>get_path = a\<rparr>" db3 r rs] assms(4) db3(1) rs
      by simp
  qed
  ultimately show ?thesis by auto
qed

text \<open>Examples of both: \<open>anabel\<close> has a file, and a disk on which nothing can be created.\<close>

definition anabel_worker :: "tables worker" where
  "anabel_worker = (sample_worker (sample_tables\<lparr>tb_files := [(''/fs/anabel/x'', ''x'')]\<rparr>) (Some sample_user))
     \<lparr>w_disk := sample_disk\<lparr>files := [''./fs/anabel/x'' \<mapsto> ''hi'']\<rparr>\<rparr>"

theorem other_home_is_read_witness:
  "\<exists>e w' d. st_files (store_of (\<lambda>t. t) anabel_worker) (''.'' @ ''/fs/anabel/x'') = Some d \<and>
    process_get_cmd (sample_platform tables_engine) sample_conn \<lparr>get_path = ''x''\<rparr> (comm_error 0 []) anabel_worker = Inr (e, w') \<and>
    replied (sample_platform tables_engine) sample_conn (raw_text d) (length d) (w_io anabel_worker) (w_io w')"
proof (rule other_home_is_read [where u = sample_user and rest = "''bel''" and T = "\<lambda>t. t"])
  let ?t = "sample_tables\<lparr>tb_files := [(''/fs/anabel/x'', ''x'')]\<rparr>"
  have c: "plain ''x''" "plain_text ''/fs/ana''" "rows_ok (path_rows (files_found ?t ''x'' ''/fs/ana''))"
    "files_found ?t ''x'' ''/fs/ana'' = [(''/fs/anabel/x'', ''x'')]" by code_simp+
  have st: "st_tables (store_of (\<lambda>t. t) anabel_worker) = ?t"
    by (simp add: store_of_def anabel_worker_def init_sqlite_server_def)
  show "files_found (st_tables (store_of (\<lambda>t. t) anabel_worker)) (get_path \<lparr>get_path = ''x''\<rparr>) (fs_home sample_user) =
      [(''/fs/anabel/x'', get_path \<lparr>get_path = ''x''\<rparr>)]"
    unfolding st using c(4) by (simp add: sample_user_def)
  show "fits (sample_platform tables_engine) (\<lambda>t. t) anabel_worker (Get \<lparr>get_path = ''x''\<rparr>)"
    using c query_ok_sample
    by (simp add: fits_def lookup_fits_def init_sqlite_server_def sample_user_def anabel_worker_def granule_size_def)
  show "on_disk (store_of (\<lambda>t. t) anabel_worker)"
    unfolding on_disk_def st by (simp add: store_of_def anabel_worker_def)
  show "worker_ready anabel_worker" "w_user anabel_worker = Some sample_user"
    by (simp_all add: worker_ready_def anabel_worker_def link_idle_def init_sqlite_server_def)
qed (simp_all add: tables_engine_laws sample_user_def)

definition full_disk_worker :: "tables worker" where
  "full_disk_worker = (sample_worker sample_tables (Some sample_user))\<lparr>w_disk := sample_disk\<lparr>can_create := (\<lambda>_. False)\<rparr>\<rparr>"

theorem failed_post_then_get_crashes_witness:
  "\<exists>e w'. process_post_cmd (sample_platform tables_engine) sample_conn
      \<lparr>post_data = ''104105'', post_dest = ''x'', post_size = 2\<rparr> (comm_error 0 []) full_disk_worker = Inr (e, w') \<and>
    replied (sample_platform tables_engine) sample_conn ''File OK'' 7 (w_io full_disk_worker) (w_io w') \<and>
    process_get_cmd (sample_platform tables_engine) sample_conn \<lparr>get_path = ''x''\<rparr> (comm_error 0 []) w' = Inl Null_deref"
proof (rule failed_post_then_get_crashes [where u = sample_user and T = "\<lambda>t. t" and d = "''hi''" and t = sample_tables])
  have c: "rows_ok (path_rows (files_found (add_alias ''/fs/ana'' ''x'' sample_tables) ''x'' ''/fs/ana''))"
    "files_found sample_tables ''x'' ''/fs/ana'' = []" "lower ''x'' \<notin> {''path'', ''alias''}" by code_simp+
  show "files_found sample_tables ''x'' (fs_home sample_user) = []" "lower ''x'' \<notin> {''path'', ''alias''}"
    using c by (simp_all add: sample_user_def)
  show "lookup_fits sample_tables ''x'' (fs_home sample_user)"
    using lookup_fits_sample by (simp add: sample_user_def)
  show "lookup_fits (add_alias (fs_home sample_user) ''x'' sample_tables) ''x'' (fs_home sample_user)"
    using lookup_fits_sample c(1) by (simp add: lookup_fits_def sample_user_def)
  show "query_ok (alias_query ''x'' (fs_home sample_user))" using query_ok_sample by (simp add: sample_user_def)
  have "byte_text CHR ''h'' = ''104''" "byte_text CHR ''i'' = ''105''" by code_simp+
  then show "post_fits (sample_platform tables_engine) sample_user
      \<lparr>post_data = ''104105'', post_dest = ''x'', post_size = 2\<rparr> ''hi''"
    by (simp add: sample_defs granule_size_def post_fits_def alias_fits_def pair_fits_def)
  show "sample_tables = st_tables (store_of (\<lambda>t. t) full_disk_worker)"
    by (simp add: store_of_def full_disk_worker_def init_sqlite_server_def)
  show "worker_ready full_disk_worker" "w_user full_disk_worker = Some sample_user"
    "\<not> can_create (w_disk full_disk_worker) (post_path sample_user \<lparr>post_data = ''104105'', post_dest = ''x'', post_size = 2\<rparr>)"
    "files (w_disk full_disk_worker) (post_path sample_user \<lparr>post_data = ''104105'', post_dest = ''x'', post_size = 2\<rparr>) = None"
    by (simp_all add: worker_ready_def full_disk_worker_def link_idle_def init_sqlite_server_def sample_disk_def)
qed (simp_all add: tables_engine_laws)

end
