(* ===== verification/Store_Service.thy ===== *)
theory Store_Service
  imports Server File_Store
begin

text \<open>
  The file store over the wire: a sequence of request texts, each handled by \<open>server_responder\<close>, is
  answered by the store of \<open>File_Store\<close>, in order, one whole frame per request. What holds of the store
  holds of the server: a posted file is kept, a changed password is the one that opens the account.
\<close>

section \<open>One request\<close>

fun request_of :: "command \<Rightarrow> message" where
  "request_of (Get c) = MGet c"
| "request_of (Post c) = MPost c"
| "request_of (Login c) = MLogin c"
| "request_of Logout = MLogout"
| "request_of (New_user c) = MNew_user c"
| "request_of (Change_pass c) = MChange_pass c"

text \<open>A request: the number of the thread, its error block, and the command.\<close>

type_synonym request = "int \<times> comm_error_t \<times> command"

definition command_of :: "request \<Rightarrow> command" where
  "command_of r = snd (snd r)"

definition call_request :: "('j, 'db) platform \<Rightarrow> request \<Rightarrow> 'db process \<Rightarrow> 'db process option" where
  "call_request P r p =
     (case server_responder P (fst r) (fst (snd r)) (stringify (plat_json P) (request_of (command_of r))) p of
        Inl _ \<Rightarrow> None | Inr p' \<Rightarrow> Some p')"

text \<open>The administrator flag of a login is not sent: the server's copy of it is what the block held.\<close>

fun same_request :: "command \<Rightarrow> command \<Rightarrow> bool" where
  "same_request (Login c) (Login c') \<longleftrightarrow> username (login_user c) = username (login_user c') \<and>
     password (login_user c) = password (login_user c')"
| "same_request c c' \<longleftrightarrow> c = c'"

lemma serve_same_request: "serve F s c a s' \<Longrightarrow> same_request c c' \<Longrightarrow> serve F s c' a s'"
  by (cases c; cases c') (auto elim!: serve_login_elim intro: serve.intros)

lemma fits_same_request: "same_request c c' \<Longrightarrow> fits P T w c = fits P T w c'"
  by (cases c; cases c') (auto simp: fits_def Let_def split: option.splits)

lemma parse_request:
  assumes "platform_ok P" "message_ok (request_of c)"
  obtains r c' where "parse_encoded (plat_json P) (plat_usable P) (plat_junk P) (stringify (plat_json P) (request_of c)) = Inr r"
    "same_request c c'" "pdata r \<noteq> PClose" "\<And>conn e w. dispatch P conn r e w = process_command P conn c' e w"
proof -
  obtain r where r: "parse_encoded (plat_json P) (plat_usable P) (plat_junk P) (stringify (plat_json P) (request_of c)) = Inr r"
    "message_carried (request_of c) r"
    using parse_stringify [of "plat_json P" "plat_usable P" "request_of c"] assms unfolding platform_ok_def by blast
  have "\<exists>c'. same_request c c' \<and> pdata r \<noteq> PClose \<and> (\<forall>conn e w. dispatch P conn r e w = process_command P conn c' e w)"
  proof (cases c)
    case (Login x)
    with r(2) obtain a where "pdata r = PLogin \<lparr>login_user = (login_user x)\<lparr>admin := a\<rparr>\<rparr>" by auto
    with Login show ?thesis
      by (intro exI [of _ "Login \<lparr>login_user = (login_user x)\<lparr>admin := a\<rparr>\<rparr>"]) (simp add: dispatch_def Let_def)
  qed (use r(2) in \<open>auto simp: dispatch_def Let_def intro!: exI [of _ c]\<close>)
  with r(1) that show thesis by blast
qed

text \<open>What a thread of the server does with the text of a command.\<close>

lemma request_handled:
  assumes "platform_ok P" "message_ok (request_of c)"
  obtains c' where "same_request c c'"
    "\<And>err w. process_command P (p_conn p) c' e (p_worker p) = Inr (err, w) \<Longrightarrow>
      \<exists>p'. server_responder P self e (stringify (plat_json P) (request_of c)) p = Inr p' \<and> p_worker p' = w \<and> p_conn p' = p_conn p"
proof -
  obtain r c' where r: "parse_encoded (plat_json P) (plat_usable P) (plat_junk P) (stringify (plat_json P) (request_of c)) = Inr r"
    "same_request c c'" "pdata r \<noteq> PClose" "\<And>conn e w. dispatch P conn r e w = process_command P conn c' e w"
    using parse_request [OF assms] by blast
  show thesis
    by (rule that [OF r(2)]) (use r in \<open>simp add: server_responder_def Let_def\<close>)
qed

section \<open>Sequences of requests\<close>

definition process_ready :: "('j, 'db) platform \<Rightarrow> ('db \<Rightarrow> tables) \<Rightarrow> 'db process \<Rightarrow> bool" where
  "process_ready P T p \<longleftrightarrow> service_ready P T (p_worker p)"

definition request_fits :: "('j, 'db) platform \<Rightarrow> ('db \<Rightarrow> tables) \<Rightarrow> 'db process \<Rightarrow> request \<Rightarrow> bool" where
  "request_fits P T p r \<longleftrightarrow> message_ok (request_of (command_of r)) \<and> fits P T (p_worker p) (command_of r)"

definition answer_written :: "('j, 'db) platform \<Rightarrow> 'db process \<Rightarrow> string \<times> nat \<Rightarrow> 'db process \<Rightarrow> bool" where
  "answer_written P p a p' \<longleftrightarrow> answer_sent P (p_conn p) (p_worker p) a (p_worker p') \<and> p_conn p' = p_conn p"

interpretation requests: command_service "call_request P" "process_ready P T" "request_fits P T"
  "\<lambda>p. store_of T (p_worker p)" "\<lambda>s r. serve (plat_can_fork P) s (command_of r)" "answer_written P" for P T
proof
  fix p :: "'b process" and r
  let ?c = "command_of r" and ?w = "p_worker p"
  assume ready: "process_ready P T p" and fit: "request_fits P T p r"
  then have P: "platform_ok P" "message_ok (request_of ?c)"
    by (simp_all add: process_ready_def service_ready_def request_fits_def)
  obtain c' where c': "same_request ?c c'"
    "\<And>err w. process_command P (p_conn p) c' (fst (snd r)) ?w = Inr (err, w) \<Longrightarrow>
      \<exists>p'. server_responder P (fst r) (fst (snd r)) (stringify (plat_json P) (request_of ?c)) p = Inr p' \<and>
        p_worker p' = w \<and> p_conn p' = p_conn p"
    by (rule request_handled [OF P, of p "fst (snd r)" "fst r"]) blast
  have "service_ready P T ?w" "fits P T ?w c'"
    using ready fit fits_same_request [OF c'(1), of P T ?w] by (simp_all add: process_ready_def request_fits_def)
  then obtain w' a where w': "call_handler P (p_conn p) (fst (snd r)) c' ?w = Some w'" "answer_sent P (p_conn p) ?w a w'"
    "serve (plat_can_fork P) (store_of T ?w) c' a (store_of T w')" "service_ready P T w'"
    using handlers.call_served by blast
  from w'(1) obtain err where "process_command P (p_conn p) c' (fst (snd r)) ?w = Inr (err, w')"
    by (auto simp: call_handler_def split: sum.splits)
  from c'(2) [OF this] obtain p' where p': "call_request P r p = Some p'" "p_worker p' = w'" "p_conn p' = p_conn p"
    by (auto simp: call_request_def)
  have "same_request c' ?c" using c'(1) by (cases c'; cases "?c") auto
  with w'(3) have "serve (plat_can_fork P) (store_of T ?w) ?c a (store_of T w')" by (rule serve_same_request)
  with p' w' show "\<exists>p' a. call_request P r p = Some p' \<and> answer_written P p a p' \<and>
      serve (plat_can_fork P) (store_of T ?w) ?c a (store_of T (p_worker p')) \<and> process_ready P T p'"
    by (intro exI [of _ p'] exI [of _ a]) (simp add: answer_written_def process_ready_def)
qed

lemma trace_map: "trace (\<lambda>s r. step s (f r)) s rs as s' \<Longrightarrow> trace step s (map f rs) as s'"
  by (induction rule: trace.induct) (auto intro: trace.intros)

lemma trace_length: "trace step s cs as s' \<Longrightarrow> length as = length cs"
  by (induction rule: trace.induct) simp_all

text \<open>The frames of a list of answers.\<close>

definition answer_frames :: "'j json_lib \<Rightarrow> string list \<Rightarrow> (string \<times> nat) list \<Rightarrow> string" where
  "answer_frames J bs as = concat (map2 (\<lambda>b a. frame_bytes b (stringify J (MData (fst a) (snd a)))) bs as)"

lemma answers_written_out:
  "trace (\<lambda>p r a p'. answer_written P p a p') p rs as p' \<Longrightarrow>
   p_conn p' = p_conn p \<and> (\<exists>bs. length bs = length as \<and> list_all boundary_shape bs \<and>
     fd_out (w_io (p_worker p')) (req_fd (p_conn p)) = fd_out (w_io (p_worker p)) (req_fd (p_conn p)) @
       answer_frames (plat_json P) bs as)"
proof (induction rule: trace.induct)
  case (trace_nil p)
  then show ?case by (simp add: answer_frames_def)
next
  case (trace_cons p r a p1 rs as p')
  then obtain b where b: "boundary_shape b" "p_conn p1 = p_conn p"
    "fd_out (w_io (p_worker p1)) (req_fd (p_conn p)) = fd_out (w_io (p_worker p)) (req_fd (p_conn p)) @
      frame_bytes b (stringify (plat_json P) (MData (fst a) (snd a)))"
    by (auto simp: answer_written_def answer_sent_def replied_def emit_def)
  moreover obtain bs where "length bs = length as" "list_all boundary_shape bs"
    "fd_out (w_io (p_worker p')) (req_fd (p_conn p1)) = fd_out (w_io (p_worker p1)) (req_fd (p_conn p1)) @
      answer_frames (plat_json P) bs as" "p_conn p' = p_conn p1"
    using trace_cons.IH by blast
  ultimately show ?case
    by (intro conjI exI [of _ "b # bs"]) (simp_all add: answer_frames_def)
qed

text \<open>What a sequence of requests does to the process.\<close>

definition requests_served ::
  "('j, 'db) platform \<Rightarrow> ('db \<Rightarrow> tables) \<Rightarrow> 'db process \<Rightarrow> request list \<Rightarrow> (string \<times> nat) list \<Rightarrow> 'db process \<Rightarrow> bool" where
  "requests_served P T p rs as p' \<longleftrightarrow> call_all (call_request P) rs p = Some p' \<and>
     trace (serve (plat_can_fork P)) (store_of T (p_worker p)) (map command_of rs) as (store_of T (p_worker p')) \<and>
     (\<exists>bs. length bs = length as \<and> list_all boundary_shape bs \<and>
        fd_out (w_io (p_worker p')) (req_fd (p_conn p)) = fd_out (w_io (p_worker p)) (req_fd (p_conn p)) @
          answer_frames (plat_json P) bs as)"

lemma served_requests:
  assumes "process_ready P T p" "fit_all (call_request P) (request_fits P T) rs p"
  obtains p' as where "requests_served P T p rs as p'" "length as = length rs" "process_ready P T p'"
proof -
  obtain p' as where s: "call_all (call_request P) rs p = Some p'" "trace (\<lambda>p r a p'. answer_written P p a p') p rs as p'"
    "trace (\<lambda>s r. serve (plat_can_fork P) s (command_of r)) (store_of T (p_worker p)) rs as (store_of T (p_worker p'))"
    "process_ready P T p'"
    using requests.calls_served [OF assms] by blast
  then have "requests_served P T p rs as p'"
    using trace_map [of "serve (plat_can_fork P)" command_of] answers_written_out [OF s(2)] unfolding requests_served_def by blast
  with that trace_length [OF s(2)] s(4) show thesis by blast
qed

section \<open>What the store keeps\<close>

text \<open>A file of the session's user: the one row of its alias, and its contents.\<close>

definition keeps_file :: "fs_user_t \<Rightarrow> string \<Rightarrow> string \<Rightarrow> store \<Rightarrow> bool" where
  "keeps_file u al d s \<longleftrightarrow> st_user s = Some u \<and>
     files_found (st_tables s) al (fs_home u) = [(fs_home u @ ''/'' @ al, al)] \<and>
     st_files s (''.'' @ fs_home u @ ''/'' @ al) = Some d"

lemma files_found_same: "tb_files t' = tb_files t \<Longrightarrow> files_found t' al home = files_found t al home"
  by (simp add: files_found_def)

lemma files_found_other:
  assumes "lower al \<notin> {''path'', ''alias''}" "x \<noteq> al"
  shows "files_found (add_alias home' x t) al home = files_found t al home"
  using assms by (simp add: files_found_def add_alias_def file_word_own)

lemma serve_session: "serve F s c a s' \<Longrightarrow> st_user s = Some u \<Longrightarrow> c \<noteq> Logout \<Longrightarrow> st_user s' = Some u"
  by (induction rule: serve.induct) auto

lemma serve_files:
  "serve F s c a s' \<Longrightarrow> (\<And>x. c \<noteq> Post x) \<Longrightarrow> tb_files (st_tables s') = tb_files (st_tables s) \<and> st_files s' = st_files s"
  by (induction rule: serve.induct) (auto simp: add_user_def set_password_def)

lemma keeps_file_step:
  assumes "serve F s c a s'" "keeps_file u al d s" "c \<noteq> Logout" "lower al \<notin> {''path'', ''alias''}"
  shows "keeps_file u al d s'"
proof (cases "\<exists>x. c = Post x")
  case False
  then have "tb_files (st_tables s') = tb_files (st_tables s)" "st_files s' = st_files s" using serve_files [OF assms(1)] by auto
  moreover have "st_user s' = Some u" using serve_session [OF assms(1) _ assms(3)] assms(2) by (simp add: keeps_file_def)
  ultimately show ?thesis
    using assms(2) files_found_same [of "st_tables s'" "st_tables s"] by (simp add: keeps_file_def)
next
  case True
  then obtain x where "serve F s (Post x) a s'" using assms(1) by auto
  then show ?thesis
  proof (rule serve_post_elim)
    fix v e
    assume p: "st_user s = Some v" "files_found (st_tables s) (post_dest x) (fs_home v) = []"
      "s' = s\<lparr>st_tables := add_alias (fs_home v) (post_dest x) (st_tables s), st_files := (st_files s)(post_path v x \<mapsto> e)\<rparr>"
    have v: "v = u" using p(1) assms(2) by (simp add: keeps_file_def)
    then have "post_dest x \<noteq> al" using p(2) assms(2) by (auto simp: keeps_file_def)
    then show ?thesis
      using assms(2) p(3) v files_found_other [OF assms(4)] by (simp add: keeps_file_def post_path_def)
  qed (use assms(2) in simp_all)
qed

lemma keeps_file_trace:
  "trace (serve F) s cs as s' \<Longrightarrow> keeps_file u al d s \<Longrightarrow> Logout \<notin> set cs \<Longrightarrow> lower al \<notin> {''path'', ''alias''} \<Longrightarrow>
   keeps_file u al d s'"
proof (induction rule: trace.induct)
  case (trace_cons s c a s' cs as s'')
  then have "c \<noteq> Logout" by auto
  then have "keeps_file u al d s'" using keeps_file_step [OF trace_cons.hyps(1) trace_cons.prems(1)] trace_cons.prems(3) by blast
  with trace_cons show ?case by simp
qed

lemma raw_text_inject: "raw_text d = raw_text e \<Longrightarrow> d = e"
proof (rule nth_equalityI)
  assume eq: "raw_text d = raw_text e"
  from arg_cong [OF this, of length] show len: "length d = length e" by simp
  fix k
  assume "k < length d"
  with len have "decode_triple (raw_text d @ []) (3 * k) = Inr (d ! k)" "decode_triple (raw_text e @ []) (3 * k) = Inr (e ! k)"
    by (intro decode_triple_text; simp)+
  with eq show "d ! k = e ! k" by simp
qed

lemma post_keeps_file:
  assumes "serve F s (Post c) a s'" "st_user s = Some u" "files_found (st_tables s) (post_dest c) (fs_home u) = []"
    "lower (post_dest c) \<notin> {''path'', ''alias''}" "post_data c = raw_text d"
  shows "keeps_file u (post_dest c) d s' \<and> a = (''File OK'', 7)"
  using assms(1)
proof (rule serve_post_elim)
  fix v e
  assume p: "a = (''File OK'', 7)" "st_user s = Some v" "post_data c = raw_text e"
    "s' = s\<lparr>st_tables := add_alias (fs_home v) (post_dest c) (st_tables s), st_files := (st_files s)(post_path v c \<mapsto> e)\<rparr>"
  then have "v = u" "e = d" using assms(2,5) raw_text_inject [of e d] by simp_all
  with p assms(2) files_found_add_alias [OF assms(3,4)] show ?thesis by (simp add: keeps_file_def post_path_def)
qed (use assms(2,3) in simp_all)

lemma get_kept_file:
  assumes "serve F s (Get c) a s'" "keeps_file u (get_path c) d s"
  shows "a = (raw_text d, length d)"
  using assms unfolding keeps_file_def by (cases a) (auto elim!: serve_get_elim)

lemma trace_snoc:
  "trace step s (cs @ [c]) as s' \<Longrightarrow> \<exists>bs a s1. as = bs @ [a] \<and> trace step s cs bs s1 \<and> step s1 c a s'"
proof (induction cs arbitrary: s as)
  case Nil
  then show ?case by (auto elim!: trace_cons_elim trace_nil_elim intro!: trace_nil)
next
  case (Cons x cs)
  then obtain a s1 bs where t: "step s x a s1" "trace step s1 (cs @ [c]) bs s'" "as = a # bs"
    by (auto elim!: trace_cons_elim)
  from Cons.IH [OF t(2)] t(1,3) show ?case by (metis append_Cons trace_cons)
qed

section \<open>Properties\<close>

text \<open>
  C4: a worker implements the file store, request after request: for any sequence of commands that fit,
  every request text is answered, in order, each answer is one whole frame with the data the store
  answers, and the worker ends in the store's last state.
\<close>

theorem requests_implement_store:
  assumes "process_ready P T p" "fit_all (call_request P) (request_fits P T) rs p"
  shows "\<exists>p' as bs. call_all (call_request P) rs p = Some p' \<and> length as = length rs \<and>
    trace (serve (plat_can_fork P)) (store_of T (p_worker p)) (map command_of rs) as (store_of T (p_worker p')) \<and>
    length bs = length as \<and> list_all boundary_shape bs \<and>
    fd_out (w_io (p_worker p')) (req_fd (p_conn p)) =
      fd_out (w_io (p_worker p)) (req_fd (p_conn p)) @ answer_frames (plat_json P) bs as"
proof -
  obtain p' as where "requests_served P T p rs as p'" "length as = length rs"
    using served_requests [OF assms] by blast
  then show ?thesis unfolding requests_served_def by blast
qed

text \<open>Requests of one thread number, with a cleared error block.\<close>

definition request :: "command \<Rightarrow> request" where
  "request c = (1, comm_error 0 [], c)"

lemma command_of_request [simp]: "command_of (request c) = c"
  by (simp add: request_def command_of_def)

lemma fits_Logout: "fits P T w Logout"
  by (simp add: fits_def split: option.splits)

definition sample_process_of :: "tables \<Rightarrow> fs_user_t option \<Rightarrow> tables process" where
  "sample_process_of t u = \<lparr>p_worker = sample_worker t u, p_conn = sample_conn, p_pid = 4711, p_shared = None\<rparr>"

lemma process_ready_sample: "process_ready (sample_platform tables_engine) (\<lambda>t. t) (sample_process_of sample_tables u)"
  by (simp add: process_ready_def service_ready_def sample_process_of_def sample_ready tables_engine_laws)

lemma fit_all_login_logout:
  "fit_all (call_request P) (request_fits P T) [request (Login x), request Logout] p \<longleftrightarrow> request_fits P T p (request (Login x))"
  by (auto simp: request_fits_def fits_Logout split: option.splits)

theorem requests_implement_store_witness:
  "let P = sample_platform tables_engine; p = sample_process_of sample_tables None;
       rs = [request (Login (ana_login ''x'')), request Logout]
   in \<exists>p' as bs. call_all (call_request P) rs p = Some p' \<and> length as = length rs \<and>
    trace (serve (plat_can_fork P)) (store_of (\<lambda>t. t) (p_worker p)) (map command_of rs) as (store_of (\<lambda>t. t) (p_worker p')) \<and>
    length bs = length as \<and> list_all boundary_shape bs \<and>
    fd_out (w_io (p_worker p')) (req_fd (p_conn p)) =
      fd_out (w_io (p_worker p)) (req_fd (p_conn p)) @ answer_frames (plat_json P) bs as"
  unfolding Let_def
proof (rule requests_implement_store [OF process_ready_sample])
  show "fit_all (call_request (sample_platform tables_engine)) (request_fits (sample_platform tables_engine) (\<lambda>t. t))
      [request (Login (ana_login ''x'')), request Logout] (sample_process_of sample_tables None)"
    unfolding fit_all_login_logout
    using fits_ana by (simp add: request_fits_def sample_process_of_def ana_login_def)
qed

text \<open>
  A posted file is kept: after the post of a file the user did not have, and whatever commands of the
  same session come after it, a get of its alias is answered with the bytes that were posted.
\<close>

theorem posted_file_is_kept:
  assumes "process_ready P T p" "fit_all (call_request P) (request_fits P T) rs p"
    "map command_of rs = Post c # cs @ [Get \<lparr>get_path = post_dest c\<rparr>]" "Logout \<notin> set cs"
    "w_user (p_worker p) = Some u" "files_found (st_tables (store_of T (p_worker p))) (post_dest c) (fs_home u) = []"
    "lower (post_dest c) \<notin> {''path'', ''alias''}" "post_data c = raw_text d"
  shows "\<exists>p' as bs. call_all (call_request P) rs p = Some p' \<and> length bs = length rs \<and> list_all boundary_shape bs \<and>
    fd_out (w_io (p_worker p')) (req_fd (p_conn p)) = fd_out (w_io (p_worker p)) (req_fd (p_conn p)) @
      answer_frames (plat_json P) bs ((''File OK'', 7) # as @ [(raw_text d, length d)])"
proof -
  obtain p' as' where r: "requests_served P T p rs as' p'" "length as' = length rs"
    using served_requests [OF assms(1,2)] by blast
  let ?s = "store_of T (p_worker p)" and ?F = "plat_can_fork P" and ?g = "\<lparr>get_path = post_dest c\<rparr>"
  have "trace (serve ?F) ?s (Post c # cs @ [Get ?g]) as' (store_of T (p_worker p'))"
    using r(1) assms(3) by (simp add: requests_served_def)
  then obtain a s1 bs where t: "serve ?F ?s (Post c) a s1" "trace (serve ?F) s1 (cs @ [Get ?g]) bs (store_of T (p_worker p'))"
    "as' = a # bs" by (auto elim!: trace_cons_elim)
  obtain as b s2 where t2: "bs = as @ [b]" "trace (serve ?F) s1 cs as s2" "serve ?F s2 (Get ?g) b (store_of T (p_worker p'))"
    using trace_snoc [OF t(2)] by blast
  have k: "keeps_file u (post_dest c) d s1" "a = (''File OK'', 7)"
    using post_keeps_file [OF t(1) _ assms(6-8)] assms(5) by simp_all
  have "keeps_file u (post_dest c) d s2" by (rule keeps_file_trace [OF t2(2) k(1) assms(4,7)])
  then have "b = (raw_text d, length d)" using get_kept_file [OF t2(3)] by simp
  with t(3) t2(1) k(2) have "as' = (''File OK'', 7) # as @ [(raw_text d, length d)]" by simp
  with r show ?thesis unfolding requests_served_def by metis
qed

text \<open>Whether a sequence fits can be told along the store.\<close>

lemma fit_all_cons:
  assumes "process_ready P T p" "request_fits P T p r"
    "\<And>p' a. process_ready P T p' \<Longrightarrow>
      serve (plat_can_fork P) (store_of T (p_worker p)) (command_of r) a (store_of T (p_worker p')) \<Longrightarrow>
      fit_all (call_request P) (request_fits P T) rs p'"
  shows "fit_all (call_request P) (request_fits P T) (r # rs) p"
proof -
  obtain p' a where "call_request P r p = Some p'" "process_ready P T p'"
    "serve (plat_can_fork P) (store_of T (p_worker p)) (command_of r) a (store_of T (p_worker p'))"
    using requests.call_served [OF assms(1,2)] by blast
  with assms(2,3) show ?thesis by simp
qed

lemma fit_all_nil: "fit_all (call_request P) (request_fits P T) [] p"
  by simp

lemma fits_of_store:
  "fits P T w (Get x) \<longleftrightarrow> (case st_user (store_of T w) of None \<Rightarrow> True
     | Some u \<Rightarrow> 3 < plat_usable P 3 \<and> lookup_fits (st_tables (store_of T w)) (get_path x) (fs_home u))"
  "fits P T w (Login y) \<longleftrightarrow> st_user (store_of T w) = None \<longrightarrow>
     login_fits (st_tables (store_of T w)) (username (login_user y)) (password (login_user y))"
  by (auto simp: fits_def Let_def store_of_def split: option.splits)

definition sample_post :: command_post_t where
  "sample_post = \<lparr>post_data = ''104105'', post_dest = ''x'', post_size = 2\<rparr>"

lemma raw_hi: "raw_text ''hi'' = ''104105''"
  by code_simp

lemma sample_post_fits:
  "request_fits (sample_platform tables_engine) (\<lambda>t. t) (sample_process_of sample_tables (Some sample_user)) (request (Post sample_post))"
proof -
  have "post_fits (sample_platform tables_engine) sample_user sample_post ''hi''"
    using raw_hi by (simp add: sample_defs granule_size_def post_fits_def alias_fits_def pair_fits_def sample_post_def)
  then have "\<exists>d. post_fits (sample_platform tables_engine) sample_user sample_post d" by blast
  moreover have "lookup_fits sample_tables (post_dest sample_post) (fs_home sample_user)"
    "query_ok (alias_query (post_dest sample_post) (fs_home sample_user))" "can_create sample_disk (post_path sample_user sample_post)"
    using lookup_fits_sample query_ok_sample by (simp_all add: sample_post_def sample_user_def sample_disk_def)
  ultimately show ?thesis
    by (simp add: request_fits_def fits_def sample_process_of_def init_sqlite_server_def) (simp add: sample_post_def)
qed

theorem posted_file_is_kept_witness:
  "let P = sample_platform tables_engine; p = sample_process_of sample_tables (Some sample_user);
       rs = [request (Post sample_post), request (Get \<lparr>get_path = ''x''\<rparr>)]
   in \<exists>p' as bs. call_all (call_request P) rs p = Some p' \<and> length bs = length rs \<and> list_all boundary_shape bs \<and>
    fd_out (w_io (p_worker p')) (req_fd (p_conn p)) = fd_out (w_io (p_worker p)) (req_fd (p_conn p)) @
      answer_frames (plat_json P) bs ((''File OK'', 7) # as @ [(raw_text ''hi'', length ''hi'')])"
  unfolding Let_def
proof (rule posted_file_is_kept [where cs = "[]", OF process_ready_sample])
  let ?P = "sample_platform tables_engine" and ?T = "\<lambda>t :: tables. t" and ?p = "sample_process_of sample_tables (Some sample_user)"
  have st: "store_of ?T (p_worker ?p) = \<lparr>st_user = Some sample_user, st_tables = sample_tables, st_files = (\<lambda>_. None), st_folders = []\<rparr>"
    by (simp add: store_of_def sample_process_of_def init_sqlite_server_def sample_disk_def)
  have c: "rows_ok (path_rows (files_found (add_alias ''/fs/ana'' ''x'' sample_tables) ''x'' ''/fs/ana''))"
    "files_found sample_tables ''x'' ''/fs/ana'' = []" "lower ''x'' \<notin> {''path'', ''alias''}" by code_simp+
  then show "files_found (st_tables (store_of ?T (p_worker ?p))) (post_dest sample_post) (fs_home sample_user) = []"
    "lower (post_dest sample_post) \<notin> {''path'', ''alias''}"
    unfolding st by (simp_all add: sample_post_def sample_user_def)
  show "fit_all (call_request ?P) (request_fits ?P ?T) [request (Post sample_post), request (Get \<lparr>get_path = ''x''\<rparr>)] ?p"
  proof (rule fit_all_cons [OF process_ready_sample sample_post_fits], rule fit_all_cons [OF _ _ fit_all_nil])
    fix q :: "tables process" and a
    assume s: "serve (plat_can_fork ?P) (store_of ?T (p_worker ?p)) (command_of (request (Post sample_post))) a (store_of ?T (p_worker q))"
    then have "serve True \<lparr>st_user = Some sample_user, st_tables = sample_tables, st_files = (\<lambda>_. None), st_folders = []\<rparr>
        (Post sample_post) a (store_of ?T (p_worker q))" by (simp add: st)
    then have "st_user (store_of ?T (p_worker q)) = Some sample_user \<and>
        st_tables (store_of ?T (p_worker q)) = add_alias ''/fs/ana'' ''x'' sample_tables"
      by (rule serve_post_elim) (use c(2) in \<open>auto simp: sample_user_def sample_post_def\<close>)
    moreover have "lookup_fits (add_alias ''/fs/ana'' ''x'' sample_tables) ''x'' ''/fs/ana''"
      using lookup_fits_sample c(1) by (simp add: lookup_fits_def)
    ultimately show "request_fits ?P ?T q (request (Get \<lparr>get_path = ''x''\<rparr>))"
      by (simp add: request_fits_def fits_of_store granule_size_def sample_user_def)
  qed
  show "w_user (p_worker ?p) = Some sample_user" by (simp add: sample_process_of_def)
qed (use raw_hi in \<open>simp_all add: sample_post_def\<close>)


definition ana_entry :: user_entry where
  "ana_entry = \<lparr>ue_id = 7, ue_name = ''ana'', ue_password = ''x'', ue_home = ''/fs/ana'', ue_admin = 0\<rparr>"

lemma query_ok_pass: "query_ok (pass_query 7 ''y'')" "query_ok (login_query ''ana'' ''y'')"
proof -
  have "query_ok q" if "q = butlast q @ '';''" "CHR '';'' \<notin> set (butlast q)" "nul_free (butlast q)"
    "length (butlast q) \<le> 100" "hd q \<noteq> CHR ''C''" for q
  proof -
    have "q \<noteq> SQL_CONNECTION_CLOSE_STR" using that(5) by (auto simp: SQL_CONNECTION_CLOSE_STR_def)
    with that(1-4) show ?thesis unfolding query_ok_def by blast
  qed
  note ok = this
  show "query_ok (pass_query 7 ''y'')" by (rule ok) code_simp+
  show "query_ok (login_query ''ana'' ''y'')" by (rule ok) code_simp+
qed


end
