(* ===== verification/Client_Lines.thy ===== *)
theory Client_Lines
  imports Client_Server Store_Service
begin

text \<open>
  The lines a user types, as commands of the store: which request a line asks for (\<open>meant\<close>), which of them
  the client refuses itself (\<open>refused\<close>), and what it makes of the server's answer (\<open>after_answer\<close>): one
  lemma says what a line writes, one what it does when the answer is there.
\<close>

section \<open>The commands a user types\<close>

text \<open>The request a command with these arguments asks for, when the words are as its help says.\<close>

definition new_user_of :: "string \<Rightarrow> string \<Rightarrow> string \<Rightarrow> command option" where
  "new_user_of u yn p =
     (if yn = ''yes'' \<or> yn = ''no''
      then Some (New_user \<lparr>new_user = \<lparr>username = u, password = p, admin = (if yn = ''yes'' then 1 else 0)\<rparr>\<rparr>)
      else None)"

definition login_of :: "string \<Rightarrow> string \<Rightarrow> command_login_t" where
  "login_of u p = \<lparr>login_user = \<lparr>username = u, password = p, admin = 0\<rparr>\<rparr>"

fun issued :: "disk \<Rightarrow> command_fun \<Rightarrow> string list \<Rightarrow> command option" where
  "issued D Cmd_login [u, p] = Some (Login (login_of u p))"
| "issued D Cmd_logout [] = Some Logout"
| "issued D Cmd_get [al] = (if al = ''help'' then None else Some (Get \<lparr>get_path = al\<rparr>))"
| "issued D Cmd_post [al, path] = map_option (\<lambda>d. Post (post_of al d)) (files D path)"
| "issued D Cmd_new_user [u, yn] = new_user_of u yn ''pass123''"
| "issued D Cmd_new_user [u, yn, p] = new_user_of u yn p"
| "issued D Cmd_change_pass [p] = (if p = ''help'' then None else Some (Change_pass \<lparr>pass = p\<rparr>))"
| "issued D _ _ = None"

text \<open>A typed line: its words with the spaces after each; the first is the name of the command.\<close>

type_synonym typed = "(nat \<times> string) list"

definition meant :: "disk \<Rightarrow> typed \<Rightarrow> command option" where
  "meant D k = (case map snd k of [] \<Rightarrow> None | n # args \<Rightarrow>
     (case find_command n initialize_commands of None \<Rightarrow> None | Some f \<Rightarrow> issued D f args))"

fun_cases issued_elim: "issued D f args = Some k"

section \<open>What the user sees\<close>

text \<open>The text of a file's reply, decoded: three digits for a byte, the terminator closes the last three.\<close>

definition digits_char :: "char \<Rightarrow> char \<Rightarrow> char \<Rightarrow> char" where
  "digits_char a b c = char_of (nat ((char_minus_0 a * 100 + char_minus_0 b * 10 + char_minus_0 c) mod 256))"

fun decoded :: "string \<Rightarrow> string" where
  "decoded (a # b # c # s) = digits_char a b c # decoded s"
| "decoded [a, b] = [digits_char a b ZERO]"
| "decoded _ = []"

text \<open>
  A command that needs a login without one, and a login on top of another, are refused by the client.
  Any other is answered by the server: the user is told the text, for a file its decoded contents up to
  the first null byte.
\<close>

fun told_of :: "command \<Rightarrow> string \<Rightarrow> told" where
  "told_of (Get x) s = Told_file (takeWhile (\<lambda>c. c \<noteq> ZERO) (decoded s))"
| "told_of _ s = Told_string s"

definition refused :: "bool \<Rightarrow> command \<Rightarrow> bool" where
  "refused logged k \<longleftrightarrow> is_login k = logged"

definition code_of :: "command \<Rightarrow> string \<Rightarrow> int" where
  "code_of k s = (if is_login k \<and> s = LOGIN_FAILED then ERR_LOGIN_FAILED else COMMAND_OK)"

definition seen :: "bool \<Rightarrow> command \<Rightarrow> string \<times> nat \<Rightarrow> int \<times> told list" where
  "seen logged k a =
     (if refused logged k then (if logged then ERR_ALREADY_DONE else ERR_CONNECTION_NOT_LOGGED, [])
      else (code_of k (fst a), [told_of k (fst a)]))"

text \<open>The store behind the client: the session of the store decides what the client refuses.\<close>

definition user_step :: "bool \<Rightarrow> store \<Rightarrow> command \<Rightarrow> int \<times> told list \<Rightarrow> store \<Rightarrow> bool" where
  "user_step F st k out st' \<longleftrightarrow> (\<exists>a. serve F st k a st' \<and> out = seen (st_user st \<noteq> None) k a)"

section \<open>What the client does with a command\<close>

fun logged_after :: "command \<Rightarrow> string \<Rightarrow> bool \<Rightarrow> bool" where
  "logged_after (Login x) s lg = (s \<noteq> LOGIN_FAILED)"
| "logged_after Logout s lg = False"
| "logged_after _ s lg = lg"

definition after_answer :: "command \<Rightarrow> string \<Rightarrow> client \<Rightarrow> client" where
  "after_answer k s c = (tell (told_of k s) c)\<lparr>c_logged := logged_after k s (c_logged c)\<rparr>"

lemma call_refused:
  assumes "issued (c_disk c) f args = Some k" "is_connection_open (c_conn c)" "refused (c_logged c) k"
  shows "call X f (args @ ['''']) (int (length args)) c = Inr (if c_logged c then ERR_ALREADY_DONE else ERR_CONNECTION_NOT_LOGGED, c)"
  using assms(1)
  by (rule issued_elim)
     (use assms(2,3) in \<open>auto simp: call_def cmd_defs asks_help_def show_help_for_command_def refused_def new_user_of_def
        eq_commute [of "Some k"] split: if_splits\<close>)

text \<open>A command that is not refused is a request, an answer, and what is made of it.\<close>

definition asks_for :: "'j client_env \<Rightarrow> command_fun \<Rightarrow> string list \<Rightarrow> command \<Rightarrow> client \<Rightarrow> bool" where
  "asks_for X f args k c \<longleftrightarrow> (\<exists>send finish.
     (\<forall>conn e w. send conn e w = send_text (ce_transport X) (ce_usable X) (stringify (ce_json X) (request_of k)) conn e w) \<and>
     call X f (args @ ['''']) (int (length args)) c = ask X send finish c \<and>
     (\<forall>r c c' code. finish r c = Inr (code, c') \<longrightarrow> c_io c' = c_io c \<and> c_conn c' = c_conn c) \<and>
     (\<forall>r v s n. parsed (ce_usable X) (MData s n) r \<and> nul_free s \<longrightarrow>
        finish r (c\<lparr>c_io := v\<rparr>) = Inr (code_of k s, after_answer k s (c\<lparr>c_io := v\<rparr>))))"

lemma asks_forI:
  assumes "call X f (args @ ['''']) (int (length args)) c = ask X send finish c"
    "\<And>conn e w. send conn e w = send_text (ce_transport X) (ce_usable X) (stringify (ce_json X) (request_of k)) conn e w"
    "\<And>r c c' code. finish r c = Inr (code, c') \<Longrightarrow> c_io c' = c_io c \<and> c_conn c' = c_conn c"
    "\<And>r v s n. parsed (ce_usable X) (MData s n) r \<Longrightarrow> nul_free s \<Longrightarrow>
        finish r (c\<lparr>c_io := v\<rparr>) = Inr (code_of k s, after_answer k s (c\<lparr>c_io := v\<rparr>))"
  shows "asks_for X f args k c"
  using assms unfolding asks_for_def by blast

lemma tell_data_io [simp]: "tell_data r c = Inr c' \<Longrightarrow> c_io c' = c_io c \<and> c_conn c' = c_conn c"
  by (auto simp: tell_data_def bindE_Inr_iff split: parse_data.splits)

lemma new_user_of_kind: "new_user_of u yn p = Some k \<Longrightarrow> \<not> is_login k"
  by (auto simp: new_user_of_def split: if_splits)

lemma tells_answer:
  assumes "client_ok X" "parsed (ce_usable X) (MData s n) r" "nul_free s" "\<And>s lg. logged_after k s lg = lg"
    "\<And>s. told_of k s = Told_string s" "\<not> is_login k"
  shows "bindE (tell_data r c) (\<lambda>c. Inr (COMMAND_OK, c)) = Inr (code_of k s, after_answer k s c)"
  using assms(4-6) tell_data_parsed [OF assms(1-3)] by (simp add: after_answer_def tell_def code_of_def)

lemma asks_for_post:
  assumes "client_ok X" "3 < ce_usable X 3" "is_connection_open (c_conn c)" "c_logged c" "files (c_disk c) path = Some d"
  shows "asks_for X Cmd_post [al, path] (Post (post_of al d)) c"
proof (rule asks_forI [where send = "send_cmd_post (ce_transport X) (ce_json X) (ce_usable X) (post_of al d)"])
  have "allocator (ce_usable X)" using assms(1) by (simp add: client_ok_def)
  then have "encode_raw_data (ce_usable X) (Some (d @ [ZERO])) (length d) = Inr (raw_text d)"
    using encode_raw_data_text [of "ce_usable X" "length d" "d @ [ZERO]"] assms(2) by simp
  then show "call X Cmd_post ([al, path] @ ['''']) (int (length [al, path])) c =
    ask X (send_cmd_post (ce_transport X) (ce_json X) (ce_usable X) (post_of al d))
      (\<lambda>r c. bindE (tell_data r c) (\<lambda>c. Inr (COMMAND_OK, c))) c"
    using assms(3-5) by (simp add: call_def cmd_post_def asks_help_def raw_data_from_file_def post_of_def)
qed (use tells_answer [OF assms(1)] in \<open>auto simp: send_cmd_post_def bindE_Inr_iff dest: tell_data_io\<close>)

lemma asks_for_new_user:
  assumes "client_ok X" "is_connection_open (c_conn c)" "c_logged c" "new_user_of u yn p = Some k"
    "args = [u, yn] \<and> p = ''pass123'' \<or> args = [u, yn, p]"
  shows "asks_for X Cmd_new_user args k c"
proof -
  obtain x where x: "k = New_user x" "yn = ''yes'' \<or> yn = ''no''"
    "x = \<lparr>new_user = \<lparr>username = u, password = p, admin = (if yn = ''yes'' then 1 else 0)\<rparr>\<rparr>"
    using assms(4) by (auto simp: new_user_of_def split: if_splits)
  show ?thesis
  proof (rule asks_forI [where send = "send_cmd_new_user (ce_transport X) (ce_json X) (ce_usable X) x"])
    show "call X Cmd_new_user (args @ ['''']) (int (length args)) c =
      ask X (send_cmd_new_user (ce_transport X) (ce_json X) (ce_usable X) x)
        (\<lambda>r c. bindE (tell_data r c) (\<lambda>c. Inr (COMMAND_OK, c))) c"
      using assms(2,3,5) x(2,3) by (auto simp: call_def cmd_new_user_def asks_help_def)
  qed (use tells_answer [OF assms(1)] in \<open>auto simp: x(1) send_cmd_new_user_def bindE_Inr_iff dest: tell_data_io\<close>)
qed

lemma asks_for_change_pass:
  assumes "client_ok X" "is_connection_open (c_conn c)" "c_logged c" "p \<noteq> ''help''"
  shows "asks_for X Cmd_change_pass [p] (Change_pass \<lparr>pass = p\<rparr>) c"
proof (rule asks_forI [where send = "send_cmd_change_pass (ce_transport X) (ce_json X) (ce_usable X) \<lparr>pass = p\<rparr>"])
  show "call X Cmd_change_pass ([p] @ ['''']) (int (length [p])) c =
    ask X (send_cmd_change_pass (ce_transport X) (ce_json X) (ce_usable X) \<lparr>pass = p\<rparr>)
      (\<lambda>r c. bindE (tell_data r c) (\<lambda>c. Inr (COMMAND_OK, c))) c"
    using assms(2-4) by (simp add: call_def cmd_change_pass_def asks_help_def show_help_for_command_def)
qed (use tells_answer [OF assms(1)] in \<open>auto simp: send_cmd_change_pass_def bindE_Inr_iff dest: tell_data_io\<close>)

lemma asks_for_logout:
  assumes "client_ok X" "is_connection_open (c_conn c)" "c_logged c"
  shows "asks_for X Cmd_logout [] Logout c"
proof (rule asks_forI [where send = "send_cmd_logout (ce_transport X) (ce_json X) (ce_usable X)"])
  show "call X Cmd_logout ([] @ ['''']) (int (length [])) c =
    ask X (send_cmd_logout (ce_transport X) (ce_json X) (ce_usable X))
      (\<lambda>r c. bindE (tell_data r c) (\<lambda>c. Inr (COMMAND_OK, c\<lparr>c_logged := False\<rparr>))) c"
    using assms(2,3) by (simp add: call_def cmd_logout_def asks_help_def)
qed (use tell_data_parsed [OF assms(1)] in \<open>auto simp: send_cmd_logout_def code_of_def after_answer_def bindE_Inr_iff dest: tell_data_io\<close>)

lemma asks_for_login:
  assumes "client_ok X" "ce_junk X = ZERO" "is_connection_open (c_conn c)" "\<not> c_logged c"
  shows "asks_for X Cmd_login [u, p] (Login (login_of u p)) c"
proof (rule asks_forI [where send = "send_cmd_login (ce_transport X) (ce_json X) (ce_usable X) (login_of u p)"
      and finish = "\<lambda>r c. case pdata r of
             PData b \<Rightarrow>
               bindE (tell_data r c) (\<lambda>c.
               bindE (strcmp_buf (LOGIN_FAILED @ [ZERO]) b) (\<lambda>failed.
               if failed then Inr (ERR_LOGIN_FAILED, c)
               else Inr (COMMAND_OK, c\<lparr>c_logged := True\<rparr>)))
           | _ \<Rightarrow> Inr (COMMAND_OK, c\<lparr>c_logged := True\<rparr>)"])
  show "call X Cmd_login ([u, p] @ ['''']) (int (length [u, p])) c =
    ask X (send_cmd_login (ce_transport X) (ce_json X) (ce_usable X) (login_of u p)) (\<lambda>r c. case pdata r of
             PData b \<Rightarrow>
               bindE (tell_data r c) (\<lambda>c.
               bindE (strcmp_buf (LOGIN_FAILED @ [ZERO]) b) (\<lambda>failed.
               if failed then Inr (ERR_LOGIN_FAILED, c)
               else Inr (COMMAND_OK, c\<lparr>c_logged := True\<rparr>)))
           | _ \<Rightarrow> Inr (COMMAND_OK, c\<lparr>c_logged := True\<rparr>)) c"
    using assms(2-4) by (simp add: call_def cmd_login_def asks_help_def login_of_def)
next
  fix r v s n
  assume r: "parsed (ce_usable X) (MData s n) r" "nul_free s"
  obtain t where t: "pdata r = PData (s @ ZERO # t)"
    using r zeros_from [of "ce_usable X" s] assms(1) by (auto simp: client_ok_def)
  have "strcmp_buf (LOGIN_FAILED @ [ZERO]) (s @ ZERO # t) = Inr (s = LOGIN_FAILED)"
    using strcmp_buf_strings [of LOGIN_FAILED s "[]" t] r(2) by (auto simp: LOGIN_FAILED_def)
  with t tell_data_parsed [OF assms(1) r, of "c\<lparr>c_io := v\<rparr>"] assms(4)
  show "(case pdata r of
             PData b \<Rightarrow>
               bindE (tell_data r (c\<lparr>c_io := v\<rparr>)) (\<lambda>c.
               bindE (strcmp_buf (LOGIN_FAILED @ [ZERO]) b) (\<lambda>failed.
               if failed then Inr (ERR_LOGIN_FAILED, c)
               else Inr (COMMAND_OK, c\<lparr>c_logged := True\<rparr>)))
           | _ \<Rightarrow> Inr (COMMAND_OK, (c\<lparr>c_io := v\<rparr>)\<lparr>c_logged := True\<rparr>)) =
     Inr (code_of (Login (login_of u p)) s, after_answer (Login (login_of u p)) s (c\<lparr>c_io := v\<rparr>))"
    by (auto simp: code_of_def after_answer_def tell_def)
qed (auto simp: send_cmd_login_def bindE_Inr_iff dest!: tell_data_io split: parse_data.splits if_splits)

lemma call_asks:
  assumes "client_ok X" "ce_junk X = ZERO" "3 < ce_usable X 3" "is_connection_open (c_conn c)"
    "issued (c_disk c) f args = Some k" "\<not> refused (c_logged c) k" "\<And>x. k \<noteq> Get x"
  shows "asks_for X f args k c"
  using assms(5)
proof (rule issued_elim)
  fix al path
  assume p: "f = Cmd_post" "args = [al, path]" "Some k = map_option (\<lambda>d. Post (post_of al d)) (files (c_disk c) path)"
  then obtain d where "files (c_disk c) path = Some d" "k = Post (post_of al d)"
    by (cases "files (c_disk c) path") auto
  with asks_for_post [OF assms(1,3,4)] p(1,2) assms(6) show ?thesis by (auto simp: refused_def)
next
  fix u yn assume p: "f = Cmd_new_user" "args = [u, yn]" "Some k = new_user_of u yn ''pass123''"
  show ?thesis
    using asks_for_new_user [OF assms(1,4) _ p(3) [symmetric]] new_user_of_kind [OF p(3) [symmetric]] assms(6) p(1,2)
    by (simp add: refused_def)
next
  fix u yn pw assume p: "f = Cmd_new_user" "args = [u, yn, pw]" "Some k = new_user_of u yn pw"
  show ?thesis
    using asks_for_new_user [OF assms(1,4) _ p(3) [symmetric]] new_user_of_kind [OF p(3) [symmetric]] assms(6) p(1,2)
    by (simp add: refused_def)
qed (use assms(6,7) asks_for_change_pass [OF assms(1,4)] asks_for_logout [OF assms(1,4)]
      asks_for_login [OF assms(1,2,4)] in \<open>auto simp: refused_def split: if_splits\<close>)

section \<open>What is written and what is read\<close>

lemma asks_forE:
  assumes "asks_for X f args k c"
  obtains send finish where "\<And>conn e w. send conn e w =
      send_text (ce_transport X) (ce_usable X) (stringify (ce_json X) (request_of k)) conn e w"
    "call X f (args @ ['''']) (int (length args)) c = ask X send finish c"
    "\<And>r c c' code. finish r c = Inr (code, c') \<Longrightarrow> c_io c' = c_io c \<and> c_conn c' = c_conn c"
    "\<And>r v s n. parsed (ce_usable X) (MData s n) r \<Longrightarrow> nul_free s \<Longrightarrow>
        finish r (c\<lparr>c_io := v\<rparr>) = Inr (code_of k s, after_answer k s (c\<lparr>c_io := v\<rparr>))"
proof -
  obtain send finish where a: "\<forall>conn e w. send conn e w =
      send_text (ce_transport X) (ce_usable X) (stringify (ce_json X) (request_of k)) conn e w"
    "call X f (args @ ['''']) (int (length args)) c = ask X send finish c"
    "\<forall>r c c' code. finish r c = Inr (code, c') \<longrightarrow> c_io c' = c_io c \<and> c_conn c' = c_conn c"
    "\<forall>r v s n. parsed (ce_usable X) (MData s n) r \<and> nul_free s \<longrightarrow>
        finish r (c\<lparr>c_io := v\<rparr>) = Inr (code_of k s, after_answer k s (c\<lparr>c_io := v\<rparr>))"
    using assms unfolding asks_for_def by (elim exE conjE)
  show thesis by (rule that [of send finish]) (use a in blast)+
qed

lemma asks_for_writes:
  assumes "client_ok X" "rng_ok (io_rng (c_io c))" "asks_for X f args k c"
    "call X f (args @ ['''']) (int (length args)) c = Inr (code, c')"
  shows "c_conn c' = c_conn c \<and> listeners (c_io c') = listeners (c_io c) \<and> (\<exists>b. boundary_shape b \<and>
    fd_out (c_io c') (req_fd (c_conn c)) =
      fd_out (c_io c) (req_fd (c_conn c)) @ frame_bytes b (stringify (ce_json X) (request_of k)))"
proof (rule asks_forE [OF assms(3)])
  fix send finish
  assume a: "\<And>conn e w. send conn e w =
      send_text (ce_transport X) (ce_usable X) (stringify (ce_json X) (request_of k)) conn e w"
    "call X f (args @ ['''']) (int (length args)) c = ask X send finish c"
    "\<And>r c c' code. finish r c = Inr (code, c') \<Longrightarrow> c_io c' = c_io c \<and> c_conn c' = c_conn c"
  have ok: "json_c_laws (ce_json X)" "allocator (ce_usable X)" using assms(1) by (simp_all add: client_ok_def)
  obtain b r e where s: "send (c_conn c) (comm_error COMMAND_OK ''Sending command'') (c_io c) =
      Inr (e, emit (req_fd (c_conn c)) (frame_bytes b (stringify (ce_json X) (request_of k))) ((c_io c)\<lparr>io_rng := r\<rparr>))"
    (is "_ = Inr (_, ?w)") and b: "boundary_shape b"
    by (rule send_text_bytes [OF ok assms(2), of "ce_transport X" "request_of k" "c_conn c" "comm_error COMMAND_OK ''Sending command''"])
       (simp add: a(1))
  have ask: "ask X send finish c = Inr (code, c')" using a(2) assms(4) by simp
  have "c_conn c' = c_conn c \<and> fd_out (c_io c') = fd_out ?w \<and> listeners (c_io c') = listeners ?w"
  proof (cases "err_code e = 0")
    case False
    with ask show ?thesis by (auto simp: ask_def s Let_def)
  next
    case True
    with ask obtain x e' v where v: "receive (ce_transport X) (ce_json X) (ce_usable X) (ce_junk X) (c_conn c) e ?w = Inr (x, e', v)"
      "(if err_code e' \<noteq> 0 then Inr (err_code e', c\<lparr>c_io := v\<rparr>)
        else (case x of None \<Rightarrow> Inl Null_deref | Some r \<Rightarrow> finish r (c\<lparr>c_io := v\<rparr>))) = Inr (code, c')"
      by (auto simp: ask_def s Let_def bindE_Inr_iff)
    then have "fd_out v = fd_out ?w \<and> listeners v = listeners ?w"
      by (auto simp: receive_def comm_receive_data_take take_received_def bindE_Inr_iff split: if_splits)
    with v(2) show ?thesis by (auto split: if_splits option.splits dest: a(3))
  qed
  with b show ?thesis by (auto simp: emit_def)
qed

lemma asks_for_answered:
  assumes "client_ok X" "ce_junk X = ZERO" "rng_ok (io_rng (c_io c))" "asks_for X f args k c"
    "answer_waits X (MData s n) rest c" "nul_free s"
  shows "\<exists>v. call X f (args @ ['''']) (int (length args)) c = Inr (code_of k s, after_answer k s (c\<lparr>c_io := v\<rparr>)) \<and>
    asked X (request_of k) rest c v"
proof (rule asks_forE [OF assms(4)])
  fix send finish
  assume a: "\<And>conn e w. send conn e w =
      send_text (ce_transport X) (ce_usable X) (stringify (ce_json X) (request_of k)) conn e w"
    "call X f (args @ ['''']) (int (length args)) c = ask X send finish c"
    "\<And>r v s n. parsed (ce_usable X) (MData s n) r \<Longrightarrow> nul_free s \<Longrightarrow>
        finish r (c\<lparr>c_io := v\<rparr>) = Inr (code_of k s, after_answer k s (c\<lparr>c_io := v\<rparr>))"
  have ok: "message_ok (MData s n)" using assms(6) by simp
  obtain v r where "ask X send finish c = finish r (c\<lparr>c_io := v\<rparr>)" "asked X (request_of k) rest c v"
    "parsed (ce_usable X) (MData s n) r"
    using ask_answered [OF assms(1-3) ok assms(5) a(1)] by blast
  with a(2) a(3) [OF _ assms(6)] show ?thesis by (intro exI [of _ v]) simp
qed

section \<open>The file a \<open>get\<close> is answered\<close>

text \<open>The block of the decoder has room for its terminator, which it stores behind three times the text.\<close>

definition decoder_room :: "(nat \<Rightarrow> nat) \<Rightarrow> string \<Rightarrow> bool" where
  "decoder_room U s \<longleftrightarrow> 3 * ((length s + 2) div 3) < U (length s div 3 + 1)"

definition NOT_IN_DB :: string where "NOT_IN_DB = ''FILE IS NOT IN DB''"

lemma decoded_raw_text [simp]: "decoded (raw_text d) = d"
proof (induction d)
  case (Cons c d)
  obtain x y z where b: "byte_text c = [x, y, z]" by (simp add: byte_text_def Let_def)
  have "decode_triple (raw_text [c] @ []) (3 * 0) = Inr ([c] ! 0)" by (rule decode_triple_text) simp
  then have "digits_char x y z = c" by (simp add: b decode_triple_def peek_def digits_char_def)
  with Cons b show ?case by simp
qed simp

lemma decode_not_in_db:
  assumes "allocator U" "decoder_room U NOT_IN_DB"
  shows "\<exists>b. decode_to_raw_data U ZERO (NOT_IN_DB @ ZERO # t) = Inr b \<and>
    cstr b = Inr (takeWhile (\<lambda>c. c \<noteq> ZERO) (decoded NOT_IN_DB))"
proof (rule decode_zero_text [OF assms(1)])
  show "decode_triple (NOT_IN_DB @ ZERO # t) (3 * k) = Inr (decoded NOT_IN_DB ! k)"
    if "k < length (decoded NOT_IN_DB)" for k
  proof -
    from that have "k \<in> {0, 1, 2, 3, 4, 5}" by (auto simp: NOT_IN_DB_def)
    then show ?thesis by (auto simp: NOT_IN_DB_def decode_triple_def peek_def digits_char_def)
  qed
qed (use assms(2) in \<open>simp_all add: NOT_IN_DB_def decoder_room_def\<close>)

section \<open>A line\<close>

text \<open>After the command, its thread: the file of a \<open>get\<close> is heard before the next line is typed.\<close>

definition hear :: "'j client_env \<Rightarrow> client \<Rightarrow> client result" where
  "hear X c = (if listeners (c_io c) = [] then Inr c else run_listener X c)"

definition type_line :: "'j client_env \<Rightarrow> typed \<Rightarrow> client \<Rightarrow> (int \<times> client) result" where
  "type_line X k c = bindE (cmd_parse X (join_args k) c) (\<lambda>(code, c). bindE (hear X c) (\<lambda>c. Inr (code, c)))"

definition client_ready :: "client \<Rightarrow> bool" where
  "client_ready c \<longleftrightarrow> rng_ok (io_rng (c_io c)) \<and> is_connection_open (c_conn c) \<and> listeners (c_io c) = []"

definition env_ok :: "'j client_env \<Rightarrow> bool" where
  "env_ok X \<longleftrightarrow> client_ok X \<and> ce_junk X = ZERO \<and> 3 < ce_usable X 3"

text \<open>One request is written and nothing else.\<close>

definition wrote :: "'j client_env \<Rightarrow> command \<Rightarrow> client \<Rightarrow> client \<Rightarrow> bool" where
  "wrote X k c c' \<longleftrightarrow> c_conn c' = c_conn c \<and> (\<exists>b. boundary_shape b \<and>
     fd_out (c_io c') (req_fd (c_conn c)) =
       fd_out (c_io c) (req_fd (c_conn c)) @ frame_bytes b (stringify (ce_json X) (request_of k)))"

lemma run_listener_writes:
  "run_listener X c = Inr c' \<Longrightarrow> c_conn c' = c_conn c \<and> fd_out (c_io c') = fd_out (c_io c)"
  by (auto simp: run_listener_def data_listener_def data_listener_fifo_def data_listener_socket_def take_received_def
      bindE_Inr_iff split: list.splits transport.splits)

lemma line_command:
  assumes "\<forall>a \<in> set k. Utils.arg_ok (snd a)" "meant D k = Some cmd"
  obtains f args where "\<And>c. cmd_parse X (join_args k) c = call X f (args @ ['''']) (int (length args)) c"
    "issued D f args = Some cmd"
proof -
  obtain g n args where k: "k = (g, n) # args"
    using assms(2) by (cases k) (auto simp: meant_def)
  then obtain f where f: "find_command n initialize_commands = Some f" "issued D f (map snd args) = Some cmd"
    using assms(2) by (auto simp: meant_def split: option.splits)
  have "cmd_parse X (join_args k) c = call X f (map snd args @ ['''']) (int (length args)) c" for c
    using cmd_parse_line [OF assms(1) [unfolded k], of X c] unfolding k f(1) option.case .
  with that [of f "map snd args"] f(2) show thesis by (simp only: length_map)
qed

lemma issued_get:
  assumes "issued D f args = Some (Get x)"
  obtains al where "f = Cmd_get" "args = [al]" "al \<noteq> ''help''" "x = \<lparr>get_path = al\<rparr>"
proof -
  have "new_user_of u yn p \<noteq> Some (Get x)" "map_option (\<lambda>d. Post (z d)) o1 \<noteq> Some (Get x)" for u yn p z o1
    by (simp_all add: new_user_of_def)
  note other = this this [symmetric]
  from assms show thesis
    by (rule issued_elim) (use that in \<open>simp_all add: other split: if_splits\<close>)
qed

lemma cmd_get_call:
  assumes "env_ok X" "client_ready c" "c_logged c" "al \<noteq> ''help''"
  obtains b r where "boundary_shape b" "rng_ok r" "call X Cmd_get ([al] @ ['''']) (int (length [al])) c =
    Inr (COMMAND_OK, c\<lparr>c_io := (emit (req_fd (c_conn c)) (frame_bytes b (stringify (ce_json X) (MGet \<lparr>get_path = al\<rparr>)))
      ((c_io c)\<lparr>io_rng := r\<rparr>))\<lparr>listeners := [c_conn c]\<rparr>\<rparr>)"
  using cmd_get_sends [of X c al] assms by (auto simp: env_ok_def client_ready_def call_def)

lemma line_writes:
  assumes "env_ok X" "client_ready c" "\<forall>a \<in> set k. Utils.arg_ok (snd a)" "meant (c_disk c) k = Some cmd"
    "\<not> refused (c_logged c) cmd" "type_line X k c = Inr (code, c')"
  shows "wrote X cmd c c'"
proof (rule line_command [OF assms(3,4), of X])
  fix f args
  assume a: "\<And>c. cmd_parse X (join_args k) c = call X f (args @ ['''']) (int (length args)) c" "issued (c_disk c) f args = Some cmd"
  obtain c1 where c1: "call X f (args @ ['''']) (int (length args)) c = Inr (code, c1)" "hear X c1 = Inr c'"
    using assms(6) by (auto simp: type_line_def a(1) bindE_Inr_iff)
  show ?thesis
  proof (cases "\<exists>x. cmd = Get x")
    case True
    then obtain x where x: "cmd = Get x" by blast
    then have lg: "c_logged c" using assms(5) by (simp add: refused_def)
    obtain al where g: "f = Cmd_get" "args = [al]" "al \<noteq> ''help''" "x = \<lparr>get_path = al\<rparr>"
      using issued_get a(2) x by blast
    show ?thesis
    proof (rule cmd_get_call [OF assms(1,2) lg g(3)])
      fix b r
      assume "boundary_shape b" "call X Cmd_get ([al] @ ['''']) (int (length [al])) c =
        Inr (COMMAND_OK, c\<lparr>c_io := (emit (req_fd (c_conn c)) (frame_bytes b (stringify (ce_json X) (MGet \<lparr>get_path = al\<rparr>)))
          ((c_io c)\<lparr>io_rng := r\<rparr>))\<lparr>listeners := [c_conn c]\<rparr>\<rparr>)"
      with c1 g show ?thesis
        by (auto simp: hear_def wrote_def x emit_def simp del: stringify.simps dest!: run_listener_writes)
    qed
  next
    case False
    have "asks_for X f args cmd c"
      using call_asks [OF _ _ _ _ a(2) assms(5)] assms(1,2) False by (auto simp: env_ok_def client_ready_def)
    then have w: "c_conn c1 = c_conn c \<and> listeners (c_io c1) = listeners (c_io c) \<and> (\<exists>b. boundary_shape b \<and>
      fd_out (c_io c1) (req_fd (c_conn c)) =
        fd_out (c_io c) (req_fd (c_conn c)) @ frame_bytes b (stringify (ce_json X) (request_of cmd)))"
      using asks_for_writes [OF _ _ _ c1(1)] assms(1,2) by (simp add: env_ok_def client_ready_def)
    then have "c' = c1" using c1(2) assms(2) by (simp add: hear_def client_ready_def)
    with w show ?thesis by (simp add: wrote_def)
  qed
qed

text \<open>The text answers the command: for a file, it can be decoded.\<close>

definition answers :: "'j client_env \<Rightarrow> command \<Rightarrow> string \<Rightarrow> bool" where
  "answers X k s \<longleftrightarrow> nul_free s \<and>
     (\<forall>x. k = Get x \<longrightarrow> (s = NOT_IN_DB \<or> (\<exists>d. s = raw_text d)) \<and> decoder_room (ce_usable X) s)"

lemma decode_answer:
  assumes "allocator U" "s = NOT_IN_DB \<or> (\<exists>d. s = raw_text d)" "decoder_room U s"
  shows "\<exists>b. decode_to_raw_data U ZERO (s @ ZERO # t) = Inr b \<and> cstr b = Inr (takeWhile (\<lambda>c. c \<noteq> ZERO) (decoded s))"
  using assms(2)
proof (elim disjE exE)
  fix d assume "s = raw_text d"
  moreover have "(3 * length d + 2) div 3 = length d" by simp
  ultimately show ?thesis using decode_zero_block [OF assms(1), of d t] assms(3) by (simp add: decoder_room_def)
qed (use decode_not_in_db [OF assms(1)] assms(3) in simp)

lemma line_answered:
  assumes "env_ok X" "client_ready c" "\<forall>a \<in> set k. Utils.arg_ok (snd a)" "meant (c_disk c) k = Some cmd"
    "\<not> refused (c_logged c) cmd" "answer_waits X (MData s n) rest c" "answers X cmd s"
  shows "\<exists>v. type_line X k c = Inr (code_of cmd s, after_answer cmd s (c\<lparr>c_io := v\<rparr>)) \<and> asked X (request_of cmd) rest c v"
proof (rule line_command [OF assms(3,4), of X])
  fix f args
  assume a: "\<And>c. cmd_parse X (join_args k) c = call X f (args @ ['''']) (int (length args)) c" "issued (c_disk c) f args = Some cmd"
  have X: "client_ok X" "ce_junk X = ZERO" "allocator (ce_usable X)" using assms(1) by (simp_all add: env_ok_def client_ok_def)
  have s: "nul_free s" using assms(7) by (simp add: answers_def)
  show ?thesis
  proof (cases "\<exists>x. cmd = Get x")
    case True
    then obtain x where x: "cmd = Get x" by blast
    then have lg: "c_logged c" using assms(5) by (simp add: refused_def)
    obtain al where g: "f = Cmd_get" "args = [al]" "al \<noteq> ''help''" "x = \<lparr>get_path = al\<rparr>"
      using issued_get a(2) x by blast
    show ?thesis
    proof (rule cmd_get_call [OF assms(1,2) lg g(3)])
      fix b r
      assume b: "boundary_shape b" "rng_ok r" "call X Cmd_get ([al] @ ['''']) (int (length [al])) c =
        Inr (COMMAND_OK, c\<lparr>c_io := (emit (req_fd (c_conn c)) (frame_bytes b (stringify (ce_json X) (MGet \<lparr>get_path = al\<rparr>)))
          ((c_io c)\<lparr>io_rng := r\<rparr>))\<lparr>listeners := [c_conn c]\<rparr>\<rparr>)" (is "_ = Inr (_, ?c1)")
      obtain b' where b': "frame_ok b' (stringify (ce_json X) (MData s n))"
        "fd_in (c_io c) (res_fd (c_conn c)) = frame_bytes b' (stringify (ce_json X) (MData s n)) @ rest"
        using assms(6) by (auto simp: answer_waits_def)
      have l: "listeners (c_io ?c1) = [c_conn c]" and
        i: "fd_in (c_io ?c1) (res_fd (c_conn c)) = frame_bytes b' (stringify (ce_json X) (MData s n)) @ rest"
        using b'(2) by (simp_all add: emit_def)
      have ok: "message_ok (MData s n)" using s by simp
      obtain p where p: "parsed (ce_usable X) (MData s n) p" "run_listener X ?c1 = bindE (answer_text X p) (\<lambda>ts.
          Inr (?c1\<lparr>c_io := (c_io ?c1)\<lparr>listeners := [], fd_in := (fd_in (c_io ?c1))(res_fd (c_conn c) := rest)\<rparr>,
                 c_told := c_told ?c1 @ ts\<rparr>))"
        using run_listener_frame [OF X(1,2) ok l b'(1) i] by blast
      obtain t where t: "pdata p = PData (s @ ZERO # t)"
        using p(1) zeros_from [OF X(3), of s] by auto
      have dec: "s = NOT_IN_DB \<or> (\<exists>d. s = raw_text d)" "decoder_room (ce_usable X) s"
        using assms(7) x by (simp_all add: answers_def)
      obtain z where "decode_to_raw_data (ce_usable X) ZERO (s @ ZERO # t) = Inr z" "cstr z = Inr (takeWhile (\<lambda>c. c \<noteq> ZERO) (decoded s))"
        using decode_answer [OF X(3) dec] by blast
      then have "answer_text X p = Inr [told_of cmd s]" using t X(2) x by (simp add: answer_text_def)
      with p(2) b(3) g have "type_line X k c = Inr (COMMAND_OK,
          ?c1\<lparr>c_io := (c_io ?c1)\<lparr>listeners := [], fd_in := (fd_in (c_io ?c1))(res_fd (c_conn c) := rest)\<rparr>,
              c_told := c_told ?c1 @ [told_of cmd s]\<rparr>)"
        by (simp add: type_line_def a(1) hear_def)
      then show ?thesis
        using b(1,2) assms(2)
        by (intro exI [of _ "(c_io ?c1)\<lparr>listeners := [], fd_in := (fd_in (c_io ?c1))(res_fd (c_conn c) := rest)\<rparr>"])
           (auto simp: x g(4) code_of_def after_answer_def tell_def asked_def client_ready_def emit_def
              simp del: stringify.simps intro!: exI [of _ b] exI [of _ r])
    qed
  next
    case False
    have asks: "asks_for X f args cmd c"
      using call_asks [OF _ _ _ _ a(2) assms(5)] assms(1,2) False by (auto simp: env_ok_def client_ready_def)
    obtain v where v: "call X f (args @ ['''']) (int (length args)) c = Inr (code_of cmd s, after_answer cmd s (c\<lparr>c_io := v\<rparr>))"
      "asked X (request_of cmd) rest c v"
      using asks_for_answered [OF X(1,2) _ asks assms(6) s] assms(2) by (auto simp: client_ready_def)
    moreover have "listeners v = []" using asked_facts(3) [OF v(2)] assms(2) by (simp add: client_ready_def)
    ultimately show ?thesis
      by (intro exI [of _ v]) (simp add: type_line_def a(1) hear_def after_answer_def)
  qed
qed

lemma line_refused:
  assumes "client_ready c" "\<forall>a \<in> set k. Utils.arg_ok (snd a)" "meant (c_disk c) k = Some cmd" "refused (c_logged c) cmd"
  shows "type_line X k c = Inr (fst (seen (c_logged c) cmd a), c)"
proof (rule line_command [OF assms(2,3), of X])
  fix f args
  assume "\<And>c. cmd_parse X (join_args k) c = call X f (args @ ['''']) (int (length args)) c" "issued (c_disk c) f args = Some cmd"
  with call_refused [of c f args cmd X] assms(1,4) show ?thesis
    by (simp add: type_line_def hear_def seen_def client_ready_def)
qed

end
