(* ===== verification/Config.thy ===== *)
theory Config
  imports Serialization
begin

text \<open>
  What the programs are started with: the options of \<open>server/server_config.c\<close> and
  \<open>client/client_config.c\<close> (\<open>getopt\<close> with one option that takes an argument), the server's
  configuration file, and the monitor's (\<open>read_config\<close> of \<open>monitor/main.c\<close>). No number of a file is
  checked: a port is converted to \<open>unsigned int\<close>, a number of threads to \<open>size_t\<close>.
\<close>

section \<open>Options\<close>

text \<open>
  \<open>getopt(argc, argv, "x:")\<close> of glibc, called until it returns -1: what it returned, in order. \<open>cs\<close>
  is what is left of the argument being read, \<open>as\<close> the arguments after it; arguments that are no
  options are passed over, and \<open>--\<close> ends the options.
\<close>

datatype getopt_event =
    Option string   \<comment> \<open>\<open>x\<close>, with \<open>optarg\<close>\<close>
  | Question        \<comment> \<open>\<open>?\<close>: an unknown option, or no argument\<close>

fun getopt_scan :: "char \<Rightarrow> string \<Rightarrow> string list \<Rightarrow> getopt_event list" where
  "getopt_scan x (c # cs) as =
     (if c \<noteq> x then Question # getopt_scan x cs as
      else if cs \<noteq> [] then Option cs # getopt_scan x [] as
      else (case as of [] \<Rightarrow> [Question] | v # as \<Rightarrow> Option v # getopt_scan x [] as))"
| "getopt_scan x [] [] = []"
| "getopt_scan x [] (a # as) =
     (if a = ''--'' then []
      else if 2 \<le> length a \<and> hd a = CHR ''-'' then getopt_scan x (tl a) as
      else getopt_scan x [] as)"

text \<open>\<open>process_arguments\<close> of the server: a question mark returns \<open>NULL\<close>.\<close>

fun server_options :: "string option \<Rightarrow> getopt_event list \<Rightarrow> string option" where
  "server_options config_file_opt [] = config_file_opt"
| "server_options config_file_opt (Option optarg # es) = server_options (Some optarg) es"
| "server_options config_file_opt (Question # es) = None"

definition process_arguments :: "string list \<Rightarrow> string option" where
  "process_arguments argv = server_options None (getopt_scan (CHR ''c'') [] argv)"

text \<open>\<open>process_arguments\<close> of the client: a question mark returns with the name as it is.\<close>

fun client_options :: "string option \<Rightarrow> getopt_event list \<Rightarrow> string option" where
  "client_options client_name [] = client_name"
| "client_options client_name (Option optarg # es) = client_options (Some optarg) es"
| "client_options client_name (Question # es) = client_name"

definition process_client_arguments :: "string list \<Rightarrow> string option" where
  "process_client_arguments argv = client_options None (getopt_scan (CHR ''n'') [] argv)"

definition no_option :: "string \<Rightarrow> bool" where
  "no_option a \<longleftrightarrow> length a < 2 \<or> hd a \<noteq> CHR ''-''"

lemma getopt_no_options: "list_all no_option as \<Longrightarrow> getopt_scan x [] (as @ bs) = getopt_scan x [] bs"
  by (induction as) (auto simp: no_option_def)

lemma getopt_all_no_options: "list_all no_option as \<Longrightarrow> getopt_scan x [] as = []"
  using getopt_no_options [of as x "[]"] by simp

section \<open>Files\<close>

record server_config_t =
  server_name :: string
  port :: nat
  db_file :: string
  min_threads :: nat
  max_threads :: nat

definition DEFAULT_CONFIG_FILE :: string where
  "DEFAULT_CONFIG_FILE = ''server/config/config.json''"

definition MONITOR_CONFIG_FILE :: string where
  "MONITOR_CONFIG_FILE = ''monitor/config/config.json''"

definition load_configuration ::
  "'j json_lib \<Rightarrow> disk \<Rightarrow> string \<Rightarrow> server_config_t \<Rightarrow> (int \<times> server_config_t) result" where
  "load_configuration J d path config =
     (case raw_data_from_file d path of
        Inl _ \<Rightarrow> Inr (-1, config)
      | Inr (contents, _) \<Rightarrow>
          bindE (cstr contents) (\<lambda>json.
          let main_object = json_parse J json in
          bindE (str_member J main_object ''server_name'') (\<lambda>name.
          bindE (str_member J main_object ''db'') (\<lambda>db.
          Inr (0, config\<lparr>server_name := name, port := nat (int_member J main_object ''port'' mod 2 ^ 32),
                          db_file := db,
                          min_threads := size_of_int (int_member J main_object ''min_threads''),
                          max_threads := size_of_int (int_member J main_object ''max_threads'')\<rparr>)))))"

text \<open>The monitor's file holds the pause between two looks, in microseconds; \<open>interval\<close> is the one before.\<close>

definition read_config :: "'j json_lib \<Rightarrow> disk \<Rightarrow> int \<Rightarrow> (int \<times> int) result" where
  "read_config J d interval =
     (case raw_data_from_file d MONITOR_CONFIG_FILE of
        Inl _ \<Rightarrow> Inr (-1, interval)
      | Inr (contents, _) \<Rightarrow>
          bindE (cstr contents) (\<lambda>json. Inr (0, int_member J (json_parse J json) ''refresh_interval'')))"

text \<open>The choice of \<open>main\<close>: the file of the options or the default one; without it the server aborts.\<close>

definition read_server_config :: "'j json_lib \<Rightarrow> disk \<Rightarrow> string list \<Rightarrow> server_config_t \<Rightarrow> server_config_t result" where
  "read_server_config J d argv config =
     bindE (load_configuration J d
       (case process_arguments argv of Some path \<Rightarrow> path | None \<Rightarrow> DEFAULT_CONFIG_FILE) config) (\<lambda>(code, config).
     if code \<noteq> 0 then Inl Aborted else Inr config)"

text \<open>A configuration file as an administrator writes it, with any numbers.\<close>

definition config_object :: "'j json_lib \<Rightarrow> string \<Rightarrow> int \<Rightarrow> string \<Rightarrow> int \<Rightarrow> int \<Rightarrow> 'j" where
  "config_object J name p db lo hi =
     (let j = json_object_add J (json_new_object J) ''server_name'' (json_new_string J name);
          j = json_object_add J j ''port'' (json_new_int J p);
          j = json_object_add J j ''db'' (json_new_string J db);
          j = json_object_add J j ''min_threads'' (json_new_int J lo)
      in json_object_add J j ''max_threads'' (json_new_int J hi))"

lemma negative_mod:
  assumes "- m \<le> x" "x < 0"
  shows "nat (x mod m) = nat m - nat (- x)"
proof -
  have "x mod m = (x + m) mod m" by simp
  also have "\<dots> = x + m" using assms by (intro mod_pos_pos_trivial) simp_all
  finally show ?thesis using assms by (simp add: nat_diff_distrib [of "- x" m, simplified])
qed

lemma config_object_built:
  "nul_free name \<Longrightarrow> nul_free db \<Longrightarrow> int32 p \<Longrightarrow> int32 lo \<Longrightarrow> int32 hi \<Longrightarrow>
    json_built J (config_object J name p db lo hi)"
  unfolding config_object_def Let_def by (intro json_built.intros)

lemma config_object_members:
  assumes "json_c_laws J" "nul_free name" "nul_free db" "int32 p" "int32 lo" "int32 hi"
  shows "str_member J (Some (config_object J name p db lo hi)) ''server_name'' = Inr name"
    "str_member J (Some (config_object J name p db lo hi)) ''db'' = Inr db"
    "int_member J (Some (config_object J name p db lo hi)) ''port'' = p"
    "int_member J (Some (config_object J name p db lo hi)) ''min_threads'' = lo"
    "int_member J (Some (config_object J name p db lo hi)) ''max_threads'' = hi"
  using assms by (simp_all add: config_object_def Let_def str_member_def int_member_def json)

lemma read_file_text:
  "files d path = Some s \<Longrightarrow> raw_data_from_file d path = Inr (s @ [ZERO], length s)"
  by (simp add: raw_data_from_file_def)

lemma load_configuration_text:
  assumes "json_c_laws J" "files d path = Some (json_to_string J (config_object J name p db lo hi))"
    "nul_free name" "nul_free db" "int32 p" "int32 lo" "int32 hi"
  shows "load_configuration J d path config =
    Inr (0, config\<lparr>server_name := name, port := nat (p mod 2 ^ 32), db_file := db,
      min_threads := size_of_int lo, max_threads := size_of_int hi\<rparr>)"
  using assms config_object_built [OF assms(3-7), of J] config_object_members [OF assms(1,3-7)]
  by (simp add: load_configuration_def read_file_text cstr_append json_text_nul_free json_roundtrip Let_def)

lemma read_server_config_text:
  assumes "json_c_laws J" "list_all no_option xs" "list_all no_option ys"
    "files d path = Some (json_to_string J (config_object J name (int p) db (int lo) (int hi)))"
    "nul_free name" "nul_free db" "p < 2 ^ 31" "lo < 2 ^ 31" "hi < 2 ^ 31"
  shows "read_server_config J d (xs @ [''-c'', path] @ ys) config =
    Inr (config\<lparr>server_name := name, port := p, db_file := db, min_threads := lo, max_threads := hi\<rparr>)"
proof -
  have "getopt_scan (CHR ''c'') [] (xs @ [''-c'', path] @ ys) = [Option path]"
    using getopt_all_no_options [OF assms(3)] by (simp add: getopt_no_options [OF assms(2)])
  then have "process_arguments (xs @ [''-c'', path] @ ys) = Some path"
    by (simp add: process_arguments_def)
  moreover have "int32 (int p)" "int32 (int lo)" "int32 (int hi)"
    using assms(7-9) by (simp_all add: int32_def)
  moreover have "int p mod 2 ^ 32 = int p" using assms(7) by simp
  ultimately show ?thesis
    using load_configuration_text [OF assms(1,4-6)] assms(8,9) by (simp add: read_server_config_def)
qed

section \<open>Properties\<close>



text \<open>
  A mistyped option makes the server forget the configuration file it was given and start with the
  default one; the client keeps the name it was given.
\<close>

theorem unknown_option_forgets_config:
  assumes "c \<noteq> CHR ''c''" "c \<noteq> CHR ''n''" "c \<noteq> CHR ''-''"
  shows "process_arguments [''-c'', path, [CHR ''-'', c]] = None \<and>
    process_client_arguments [''-n'', n, [CHR ''-'', c]] = Some n"
  using assms by (simp add: process_arguments_def process_client_arguments_def)

theorem unknown_option_forgets_config_witness:
  "process_arguments [''-c'', ''my.json'', [CHR ''-'', CHR ''v'']] = None \<and>
    process_client_arguments [''-n'', ''ana'', [CHR ''-'', CHR ''v'']] = Some ''ana''"
  by (rule unknown_option_forgets_config) simp_all

text \<open>
  A configuration without a name, or a file that is not JSON, crashes the server on a null pointer;
  a missing file leaves the configuration as it was, with the code -1.
\<close>

theorem bad_config_crashes:
  assumes "json_c_laws J" "files d path = Some json" "nul_free json"
    "json_get_ex J (json_parse J json) ''server_name'' = None"
  shows "load_configuration J d path config = Inl Null_deref"
  using assms by (simp add: load_configuration_def read_file_text cstr_append str_member_def json_get_absent Let_def)

theorem bad_config_crashes_witness:
  "load_configuration flat_json \<lparr>files = [''my.json'' \<mapsto> ''server_name=google''], can_create = (\<lambda>p. True), short_writes = []\<rparr>
      ''my.json'' \<lparr>server_name = [], port = 0, db_file = [], min_threads = 0, max_threads = 0\<rparr> = Inl Null_deref"
proof (rule bad_config_crashes [where json = "''server_name=google''"])
  show "json_get_ex flat_json (json_parse flat_json ''server_name=google'') ''server_name'' = None"
    by (simp add: flat_json_def)
qed simp_all

text \<open>
  Numbers out of range are taken as they come: a negative limit of threads is no limit, below
  \<open>2 ^ 64\<close>, and a negative port is a port above \<open>2 ^ 31\<close>.
\<close>

theorem negative_limits:
  assumes "json_c_laws J" "files d path = Some (json_to_string J (config_object J name p db lo hi))"
    "nul_free name" "nul_free db" "int32 p" "int32 lo" "int32 hi" "hi < 0" "p < 0"
  shows "\<exists>config'. load_configuration J d path config = Inr (0, config') \<and>
    max_threads config' = 2 ^ 64 - nat (- hi) \<and> port config' = 2 ^ 32 - nat (- p)"
proof -
  have "size_of_int hi = 2 ^ 64 - nat (- hi)" "nat (p mod 2 ^ 32) = 2 ^ 32 - nat (- p)"
    using negative_mod [of "2 ^ 64" hi] negative_mod [of "2 ^ 32" p] assms(5,7-9)
    by (simp_all add: size_of_int_def int32_def)
  then show ?thesis
    using load_configuration_text [OF assms(1-7)] by simp
qed

theorem negative_limits_witness:
  "\<exists>config'. load_configuration flat_json
      \<lparr>files = [''my.json'' \<mapsto> json_to_string flat_json (config_object flat_json ''google'' (-1) ''files.db'' 10 (-1))],
       can_create = (\<lambda>p. True), short_writes = []\<rparr> ''my.json''
      \<lparr>server_name = [], port = 0, db_file = [], min_threads = 0, max_threads = 0\<rparr> = Inr (0, config') \<and>
    max_threads config' = 2 ^ 64 - nat (- (- 1)) \<and> port config' = 2 ^ 32 - nat (- (- 1))"
  by (rule negative_limits [where name = "''google''" and db = "''files.db''" and lo = 10]) (simp_all add: int32_def)



end
