(* ===== verification/Server_Main.thy ===== *)
theory Server_Main
  imports Server Config
begin

text \<open>
  \<open>main\<close> and \<open>listen_connections\<close> of \<open>server/main.c\<close> outside the workers: from the options and the
  configuration file to the address the server listens on, and the loop of the master process,
  which accepts a connection and forks a worker for it. What the system answers to one turn of the
  loop is a record; the descriptors of a worker and what it shares with the master are copies.
\<close>

section \<open>Listening\<close>

definition comm_listen ::
  "transport \<Rightarrow> (nat \<Rightarrow> nat) \<Rightarrow> fifo_env \<Rightarrow> socket_env \<Rightarrow> bool \<Rightarrow> connection_t \<Rightarrow> comm_error_t \<Rightarrow>
   (connection_t \<times> comm_error_t) result" where
  "comm_listen T U E S can_make conn err =
     (case T of
        Fifo \<Rightarrow> bindE (comm_listen_fifo U E can_make conn err) (\<lambda>(c, e, _). Inr (c, e))
      | Socket \<Rightarrow> comm_listen_socket U S conn err)"

definition comm_accept ::
  "transport \<Rightarrow> (nat \<Rightarrow> nat) \<Rightarrow> comm_addr_t \<Rightarrow> fifo_env \<Rightarrow> socket_env \<Rightarrow> connection_t \<Rightarrow> comm_error_t \<Rightarrow>
   (connection_t \<times> comm_error_t) result" where
  "comm_accept T U fresh E S conn err =
     (case T of
        Fifo \<Rightarrow> bindE (comm_accept_fifo U fresh E conn err) (\<lambda>(c, e, _). Inr (c, e))
      | Socket \<Rightarrow> comm_accept_socket fresh S conn err)"

text \<open>
  The block for the URL, \<open>10 + strlen(server_name) + floorf(log10(port)) + 1 + 1\<close> bytes. The floor of
  the logarithm is one less than the number of digits; single precision may round it up to one more
  just below a power of ten, never down, and then there is a byte more. The logarithm of port 0 is
  minus infinity, and its conversion to a size is out of range.
\<close>

definition server_url_block :: "server_config_t \<Rightarrow> nat" where
  "server_url_block cfg = 10 + length (server_name cfg) + (length (show_nat (port cfg)) - 1) + 1 + 1"

definition server_address ::
  "transport \<Rightarrow> (nat \<Rightarrow> nat) \<Rightarrow> comm_addr_t \<Rightarrow> server_config_t \<Rightarrow> comm_addr_t result" where
  "server_address T U fresh cfg =
     (if port cfg = 0 then Inl Out_of_bounds
      else
        bindE (sprintf_into U (server_url_block cfg) (server_url T (server_name cfg) (port cfg))) (\<lambda>addr.
        case address_from_url T addr (Some fresh) of
          (_, None) \<Rightarrow> Inl Null_deref
        | (code, Some a) \<Rightarrow> if code \<noteq> ADDRESS_OK then Inl Aborted else Inr a))"

text \<open>What the server finds when it starts; \<open>ve_link\<close>, \<open>ve_conn\<close>, \<open>ve_addr\<close> are fresh blocks.\<close>

record 'db server_env =
  ve_disk :: disk
  ve_sql :: "'db sql_env"
  ve_link :: "'db sql_link"
  ve_conn :: connection_t
  ve_addr :: comm_addr_t
  ve_fifo :: fifo_env
  ve_socket :: socket_env
  ve_can_make :: bool
  ve_io :: io
  ve_ipc :: ipc
  ve_shm :: bool

text \<open>
  \<open>listen_connections\<close> up to its loop: the result of \<open>open_sql_conn\<close> is not looked at, an address
  that is not one or a \<open>comm_listen\<close> that fails abort the server.
\<close>

definition listen_start ::
  "('j, 'db) platform \<Rightarrow> 'db server_env \<Rightarrow> server_config_t \<Rightarrow> 'db process \<Rightarrow> 'db process result" where
  "listen_start P V cfg p =
     (let T = plat_transport P; U = plat_usable P;
          (_, _, l) = open_sql_conn (ve_sql V) False (ve_link V) in
      bindE (server_address T U (ve_addr V) cfg) (\<lambda>a.
      bindE (comm_listen T U (ve_fifo V) (ve_socket V) (ve_can_make V) ((ve_conn V)\<lparr>server_addr := a\<rparr>)
          (comm_error 0 [])) (\<lambda>(conn, err).
      if err_code err \<noteq> 0 then Inl Aborted
      else Inr (p\<lparr>p_worker := (p_worker p)\<lparr>w_link := Some l\<rparr>, p_conn := conn\<rparr>))))"

text \<open>\<open>main\<close>: the monitor's segment, the configuration, the first status; the code of \<open>init_monitor\<close> is not looked at.\<close>

definition fresh_process :: "'db server_env \<Rightarrow> 'db process" where
  "fresh_process V =
     \<lparr>p_worker = \<lparr>w_user = None, w_link = None, w_disk = ve_disk V, w_folders = [], w_io = ve_io V\<rparr>,
      p_conn = ve_conn V, p_pid = 0,
      p_shared = (if mapped (snd (init_monitor (ve_shm V) (ve_ipc V))) then Some [] else None)\<rparr>"

definition server_main ::
  "('j, 'db) platform \<Rightarrow> 'db server_env \<Rightarrow> string list \<Rightarrow> server_config_t \<Rightarrow>
   (server_config_t \<times> 'db process) result" where
  "server_main P V argv config =
     bindE (read_server_config (plat_json P) (ve_disk V) argv config) (\<lambda>cfg.
     bindE (listen_start P V cfg (post_status 0 0 STATUS_OK (fresh_process V))) (\<lambda>p.
     Inr (cfg, p)))"

section \<open>The loop of the master\<close>

text \<open>What the system does in one turn: \<open>te_child\<close> is what \<open>fork\<close> returns to the master.\<close>

record turn_env =
  te_fresh :: comm_addr_t
  te_fifo :: fifo_env
  te_socket :: socket_env
  te_child :: int
  te_mutex :: bool

text \<open>\<open>ma_sessions\<close>: the workers as they were started, oldest first.\<close>

record 'db master =
  ma_process :: "'db process"
  ma_listening :: bool
  ma_sessions :: "'db session list"

definition master_turn ::
  "('j, 'db) platform \<Rightarrow> nat \<Rightarrow> turn_env \<Rightarrow> 'db master \<Rightarrow> 'db master result" where
  "master_turn P n E m =
     (let p = post_status 0 0 STATUS_IDLE (ma_process m) in
      bindE (comm_accept (plat_transport P) (plat_usable P) (te_fresh E) (te_fifo E) (te_socket E)
          (p_conn p) (comm_error 0 [])) (\<lambda>(conn, err).
      let p = p\<lparr>p_conn := conn\<rparr> in
      if err_code err \<noteq> 0
      then Inr (m\<lparr>ma_process := post_status 0 0 STATUS_ERROR p, ma_listening := False\<rparr>)
      else
        let p = post_status 0 0 STATUS_OK p in
        if te_child E \<le> 0 then Inl Aborted
        else
          Inr (m\<lparr>ma_process := p,
                 ma_sessions := ma_sessions m @
                   (if te_mutex E then [start_worker (p\<lparr>p_pid := te_child E\<rparr>) n] else [])\<rparr>)))"

text \<open>After the loop the server returns from \<open>main\<close>.\<close>

fun master_run ::
  "('j, 'db) platform \<Rightarrow> nat \<Rightarrow> turn_env list \<Rightarrow> 'db master \<Rightarrow> 'db master result" where
  "master_run P n [] m = Inr m"
| "master_run P n (E # Es) m =
     (if ma_listening m then bindE (master_turn P n E m) (master_run P n Es) else Inr m)"

lemma master_run_stopped: "\<not> ma_listening m \<Longrightarrow> master_run P n Es m = Inr m"
  by (cases Es) simp_all

section \<open>A client that knocks\<close>

text \<open>The URL a client writes to the input FIFO \<open>file\<close>, and the address the server reads from it.\<close>

definition guest_url :: "string \<Rightarrow> turn_env \<Rightarrow> string" where
  "guest_url file E = takeWhile (\<lambda>c. c \<noteq> ZERO) (fe_bytes (te_fifo E) file)"

definition guest_addr :: "string \<Rightarrow> turn_env \<Rightarrow> comm_addr_t" where
  "guest_addr file E = the (snd (address_from_url_fifo (guest_url file E) (Some (te_fresh E))))"

text \<open>
  The client follows the handshake: it writes its URL and then, on the request FIFO, its URL again;
  the FIFOs of the pair are new and can be opened, and the system can fork.
\<close>

definition knocks :: "string \<Rightarrow> string \<Rightarrow> turn_env \<Rightarrow> bool" where
  "knocks file srv E \<longleftrightarrow>
     (let u = guest_url file E; cli = host (guest_addr file E); F = te_fifo E in
      length u < BUFFER_LENGTH \<and> fst (address_from_url_fifo u (Some (te_fresh E))) = ADDRESS_OK \<and>
      fe_opens F file \<noteq> None \<and> fe_bytes F file = u @ [ZERO] \<and> \<not> fe_exists F (pair_fifo cli srv) \<and>
      fe_opens F (pair_fifo srv cli) \<noteq> None \<and> fe_opens F (pair_fifo cli srv) \<noteq> None \<and>
      fe_bytes F (pair_fifo cli srv) = u @ [ZERO] \<and> 0 < te_child E \<and> te_mutex E)"

text \<open>What a worker knows of its client: its process, the address, the descriptors it writes to and reads from.\<close>

definition worker_of :: "'db session \<Rightarrow> int \<times> comm_addr_t \<times> int \<times> int" where
  "worker_of s = (let c = p_conn (s_process s) in (p_pid (s_process s), client_addr c, req_fd c, res_fd c))"

definition expected_worker :: "string \<Rightarrow> string \<Rightarrow> turn_env \<Rightarrow> int \<times> comm_addr_t \<times> int \<times> int" where
  "expected_worker file srv E =
     (let a = guest_addr file E in
      (te_child E, a, the (fe_opens (te_fifo E) (pair_fifo srv (host a))),
       the (fe_opens (te_fifo E) (pair_fifo (host a) srv))))"

lemma comm_accept_knock:
  assumes "allocator U" "knocks (connection_file conn) (host (server_addr conn)) E"
  shows "comm_accept Fifo U (te_fresh E) (te_fifo E) S conn err =
    Inr (conn\<lparr>client_addr := guest_addr (connection_file conn) E,
        req_fd := the (fe_opens (te_fifo E) (pair_fifo (host (server_addr conn)) (host (guest_addr (connection_file conn) E)))),
        res_fd := the (fe_opens (te_fifo E) (pair_fifo (host (guest_addr (connection_file conn) E)) (host (server_addr conn)))),
        conn_state := CONNECTION_STATE_OPEN\<rparr>,
      comm_error NO_COMM_ERROR ''Accept Sucessful'')"
proof -
  let ?u = "guest_url (connection_file conn) E" and ?a = "guest_addr (connection_file conn) E"
  let ?F = "te_fifo E" and ?srv = "host (server_addr conn)"
  have k: "length ?u < BUFFER_LENGTH" "fst (address_from_url_fifo ?u (Some (te_fresh E))) = ADDRESS_OK"
    "fe_opens ?F (connection_file conn) \<noteq> None" "fe_bytes ?F (connection_file conn) = ?u @ [ZERO]"
    "\<not> fe_exists ?F (pair_fifo (host ?a) ?srv)" "fe_opens ?F (pair_fifo ?srv (host ?a)) \<noteq> None"
    "fe_opens ?F (pair_fifo (host ?a) ?srv) \<noteq> None" "fe_bytes ?F (pair_fifo (host ?a) ?srv) = ?u @ [ZERO]"
    using assms(2) unfolding knocks_def Let_def by simp_all
  have nul: "nul_free ?u" by (auto simp: guest_url_def nul_free_def dest: set_takeWhileD)
  have "snd (address_from_url_fifo ?u (Some (te_fresh E))) \<noteq> None"
    by (simp add: address_from_url_fifo_def split: sum.splits prod.splits)
  then have a: "address_from_url_fifo ?u (Some (te_fresh E)) = (ADDRESS_OK, Some ?a)"
    using k(2) by (intro prod_eqI) (auto simp: guest_addr_def)
  obtain q r where q: "fe_opens ?F (pair_fifo ?srv (host ?a)) = Some q" "fe_opens ?F (pair_fifo (host ?a) ?srv) = Some r"
    using k(6,7) by blast
  show ?thesis
    using comm_accept_fifo_ok [OF assms(1) nul k(1) refl a k(3,4,5) q k(8)] q by (simp add: comm_accept_def)
qed

lemma master_turn_knock:
  assumes "platform_ok P" "plat_transport P = Fifo" "ma_listening m"
    "file = connection_file (p_conn (ma_process m))" "srv = host (server_addr (p_conn (ma_process m)))"
    "knocks file srv E"
  shows "\<exists>m' s. master_turn P n E m = Inr m' \<and> ma_listening m' \<and> ma_sessions m' = ma_sessions m @ [s] \<and>
    connection_file (p_conn (ma_process m')) = file \<and> host (server_addr (p_conn (ma_process m'))) = srv \<and>
    worker_of s = expected_worker file srv E \<and> s_pc s = At_test \<and> is_connection_open (p_conn (s_process s)) \<and>
    s_pending s = [] \<and> s_current s = 0 \<and> s_threads s = n"
proof -
  have U: "allocator (plat_usable P)" using assms(1) by (simp add: platform_ok_def)
  have t: "0 < te_child E" "te_mutex E" using assms(6) by (simp_all add: knocks_def Let_def)
  have k: "knocks (connection_file (p_conn (ma_process m))) (host (server_addr (p_conn (ma_process m)))) E"
    using assms(4-6) by simp
  show ?thesis
    unfolding master_turn_def Let_def assms(2) post_status_simps comm_accept_knock [OF U k]
    using t assms(3-5)
    by (simp add: NO_COMM_ERROR_def worker_of_def expected_worker_def start_worker_def
        is_connection_open_def Let_def)
qed

lemma master_run_knocks:
  assumes "platform_ok P" "plat_transport P = Fifo" "ma_listening m"
    "file = connection_file (p_conn (ma_process m))" "srv = host (server_addr (p_conn (ma_process m)))"
    "\<forall>E \<in> set Es. knocks file srv E"
  shows "\<exists>m' ss. master_run P n Es m = Inr m' \<and> ma_listening m' \<and> ma_sessions m' = ma_sessions m @ ss \<and>
    map worker_of ss = map (expected_worker file srv) Es \<and>
    (\<forall>s \<in> set ss. s_pc s = At_test \<and> is_connection_open (p_conn (s_process s)) \<and> s_pending s = [] \<and>
       s_current s = 0 \<and> s_threads s = n)"
  using assms(3-6)
proof (induction Es arbitrary: m)
  case Nil
  then show ?case by simp
next
  case (Cons E Es)
  then have "knocks file srv E" by simp
  from master_turn_knock [OF assms(1,2) Cons.prems(1-3) this, of n]
  obtain m1 s where m1: "master_turn P n E m = Inr m1" "ma_listening m1" "ma_sessions m1 = ma_sessions m @ [s]"
    "connection_file (p_conn (ma_process m1)) = file" "host (server_addr (p_conn (ma_process m1))) = srv"
    "worker_of s = expected_worker file srv E" "s_pc s = At_test" "is_connection_open (p_conn (s_process s))"
    "s_pending s = []" "s_current s = 0" "s_threads s = n" by blast
  from Cons.IH [OF m1(2) m1(4,5) [symmetric]] Cons.prems(4)
  obtain m' ss where m': "master_run P n Es m1 = Inr m'" "ma_listening m'" "ma_sessions m' = ma_sessions m1 @ ss"
    "map worker_of ss = map (expected_worker file srv) Es"
    "\<forall>s \<in> set ss. s_pc s = At_test \<and> is_connection_open (p_conn (s_process s)) \<and> s_pending s = [] \<and>
       s_current s = 0 \<and> s_threads s = n" by auto
  show ?case
    using m1 m' Cons.prems(1) by (intro exI [of _ m'] exI [of _ "s # ss"]) simp
qed

lemma host_name_nul_free: "host_name s \<Longrightarrow> nul_free s"
  by (auto simp: host_name_def list_all_iff goes_on_def nul_free_def)

lemma comm_listen_fifo_ok:
  assumes "allocator U" "fe_exists E (input_fifo (host (server_addr conn))) \<or> can_make"
  shows "comm_listen Fifo U E S can_make conn err =
    Inr (conn\<lparr>connection_file := input_fifo (host (server_addr conn)), conn_state := CONNECTION_STATE_IDLE,
              sense := COMMUNICATION_SERVER_CLIENT\<rparr>, comm_error NO_COMM_ERROR ''Listen Sucessful'')"
  using assms(2) by (auto simp: comm_listen_def comm_listen_fifo_def Let_def sprintf_into_fits [OF assms(1)] input_fifo_length)

lemma server_address_read:
  assumes "allocator U" "host_name (server_name cfg)" "0 < port cfg" "port cfg < 2 ^ 31"
  shows "\<exists>a. server_address T U fresh cfg = Inr a \<and> valid a \<and> host a = server_name cfg \<and>
    (T = Socket \<longrightarrow> extra_port a = Some (int (port cfg)))"
proof -
  have "int32 (int (port cfg))" using assms(4) by (simp add: int32_def)
  then have "length (server_url T (server_name cfg) (port cfg)) < server_url_block cfg"
    by (cases T) (simp_all add: server_url_def server_url_block_def show_int_def)
  with server_url_read [OF assms(2,4), of T fresh] assms(1,3) show ?thesis
    by (auto simp: server_address_def sprintf_into_fits)
qed

section \<open>Properties\<close>


definition sample_socket_env :: socket_env where
  "sample_socket_env = \<lparr>se_socket = None, se_host_known = False, se_connects = False, se_binds = False,
     se_listens = False, se_accept = None, se_bytes = []\<rparr>"




text \<open>
  C9: From the file to the workers, in the FIFO build: a server started with a configuration file listens
  under the configured name with an idle link to its database, and every client that knocks there gets
  a worker of its own, in the order of the knocks, on the two FIFOs of that client and with an empty
  table of the configured size, while the server goes on listening.
\<close>

theorem configured_server_serves:
  assumes "platform_ok P" "plat_transport P = Fifo" "list_all no_option xs" "list_all no_option ys"
    "files (ve_disk V) path =
       Some (json_to_string (plat_json P) (config_object (plat_json P) name (int pt) db (int lo) (int hi)))"
    "host_name name" "nul_free db" "0 < pt" "pt < 2 ^ 31" "lo < 2 ^ 31" "hi < 2 ^ 31"
    "se_pipes (ve_sql V)" "se_mutex (ve_sql V)" "se_forks (ve_sql V)" "se_database (ve_sql V) = Some d"
    "fe_exists (ve_fifo V) (input_fifo name) \<or> ve_can_make V" "\<forall>E \<in> set Es. knocks (input_fifo name) name E"
  shows "\<exists>cfg p m ss. server_main P V (xs @ [''-c'', path] @ ys) config = Inr (cfg, p) \<and>
    w_link (p_worker p) = Some (init_sqlite_server d) \<and> w_user (p_worker p) = None \<and>
    master_run P (min_threads cfg) Es \<lparr>ma_process = p, ma_listening = True, ma_sessions = []\<rparr> = Inr m \<and>
    ma_listening m \<and> ma_sessions m = ss \<and> map worker_of ss = map (expected_worker (input_fifo name) name) Es \<and>
    (\<forall>s \<in> set ss. s_pc s = At_test \<and> is_connection_open (p_conn (s_process s)) \<and> s_pending s = [] \<and>
       s_current s = 0 \<and> s_threads s = lo)"
proof -
  have U: "allocator (plat_usable P)" and J: "json_c_laws (plat_json P)" using assms(1) by (simp_all add: platform_ok_def)
  let ?cfg = "config\<lparr>server_name := name, port := pt, db_file := db, min_threads := lo, max_threads := hi\<rparr>"
  have cfg: "read_server_config (plat_json P) (ve_disk V) (xs @ [''-c'', path] @ ys) config = Inr ?cfg"
    using read_server_config_text [OF J assms(3-5) host_name_nul_free [OF assms(6)] assms(7,9-11)] .
  obtain a where a: "server_address Fifo (plat_usable P) (ve_addr V) ?cfg = Inr a" "host a = name"
    using server_address_read [OF U, of ?cfg Fifo "ve_addr V"] assms(6,8,9) by auto
  let ?conn = "(ve_conn V)\<lparr>server_addr := a, connection_file := input_fifo name, conn_state := CONNECTION_STATE_IDLE,
    sense := COMMUNICATION_SERVER_CLIENT\<rparr>"
  let ?fresh = "post_status 0 0 STATUS_OK (fresh_process V)"
  let ?p = "?fresh\<lparr>p_worker := (p_worker ?fresh)\<lparr>w_link := Some (init_sqlite_server d)\<rparr>, p_conn := ?conn\<rparr>"
  have l: "comm_listen Fifo (plat_usable P) (ve_fifo V) (ve_socket V) (ve_can_make V) ((ve_conn V)\<lparr>server_addr := a\<rparr>)
      (comm_error 0 []) = Inr (?conn, comm_error NO_COMM_ERROR ''Listen Sucessful'')"
    using comm_listen_fifo_ok [OF U, of "ve_fifo V" "(ve_conn V)\<lparr>server_addr := a\<rparr>"] a(2) assms(16) by simp
  have start: "listen_start P V ?cfg ?fresh = Inr ?p"
    unfolding listen_start_def Let_def conjunct1 [OF open_sql_conn_ok [OF assms(12-15)]] prod.case assms(2) a(1)
      bindE_simps l by (simp add: NO_COMM_ERROR_def)
  have main: "server_main P V (xs @ [''-c'', path] @ ys) config = Inr (?cfg, ?p)"
    by (simp only: server_main_def cfg bindE_simps start)
  have "\<exists>m ss. master_run P lo Es \<lparr>ma_process = ?p, ma_listening = True, ma_sessions = []\<rparr> = Inr m \<and> ma_listening m \<and>
      ma_sessions m = [] @ ss \<and> map worker_of ss = map (expected_worker (input_fifo name) name) Es \<and>
      (\<forall>s \<in> set ss. s_pc s = At_test \<and> is_connection_open (p_conn (s_process s)) \<and> s_pending s = [] \<and>
        s_current s = 0 \<and> s_threads s = lo)"
    using master_run_knocks [OF assms(1,2), of "\<lparr>ma_process = ?p, ma_listening = True, ma_sessions = []\<rparr>"
        "input_fifo name" name Es lo] a(2) assms(17) by simp
  then obtain m ss where m: "master_run P lo Es \<lparr>ma_process = ?p, ma_listening = True, ma_sessions = []\<rparr> = Inr m"
    "ma_listening m" "ma_sessions m = ss" "map worker_of ss = map (expected_worker (input_fifo name) name) Es"
    "\<forall>s \<in> set ss. s_pc s = At_test \<and> is_connection_open (p_conn (s_process s)) \<and> s_pending s = [] \<and>
        s_current s = 0 \<and> s_threads s = lo" by auto
  with main show ?thesis
    by (intro exI [of _ ?cfg] exI [of _ ?p] exI [of _ m] exI [of _ ss]) (simp add: fresh_process_def)
qed

definition sample_server_env :: "unit server_env" where
  "sample_server_env =
     \<lparr>ve_disk = sample_disk\<lparr>files := [''my.json'' \<mapsto>
          json_to_string flat_json (config_object flat_json ''google'' (int 7978) ''files.db'' (int 10) (int 100))]\<rparr>,
      ve_sql = \<lparr>se_pipes = True, se_mutex = True, se_forks = True, se_database = Some ()\<rparr>,
      ve_link = init_sqlite_server (), ve_conn = sample_conn, ve_addr = sample_addr, ve_fifo = sample_fifo_env [],
      ve_socket = sample_socket_env, ve_can_make = True, ve_io = sample_io,
      ve_ipc = \<lparr>shm_objects = {}, semaphores = {}, mapped = False\<rparr>, ve_shm = True\<rparr>"

definition sample_turn :: turn_env where
  "sample_turn = \<lparr>te_fresh = sample_addr, te_fifo = sample_fifo_env [], te_socket = sample_socket_env,
     te_child = 7, te_mutex = True\<rparr>"

lemma sample_turn_knocks: "knocks (input_fifo ''google'') ''google'' sample_turn"
  by (simp add: knocks_def sample_turn_def sample_fifo_env_def guest_url_def BUFFER_LENGTH_def
      address_from_url_fifo_def read_protocol_host_def goes_on_def Let_def)

theorem configured_server_serves_witness:
  "let P = sample_platform (\<lambda>(db :: unit) q. (db, [])); config = \<lparr>server_name = [], port = 0, db_file = [], min_threads = 0, max_threads = 0\<rparr>;
       name = ''google''; Es = [sample_turn]
   in \<exists>cfg p m ss. server_main P sample_server_env ([] @ [''-c'', ''my.json''] @ []) config = Inr (cfg, p) \<and>
    w_link (p_worker p) = Some (init_sqlite_server ()) \<and> w_user (p_worker p) = None \<and>
    master_run P (min_threads cfg) Es \<lparr>ma_process = p, ma_listening = True, ma_sessions = []\<rparr> = Inr m \<and>
    ma_listening m \<and> ma_sessions m = ss \<and> map worker_of ss = map (expected_worker (input_fifo name) name) Es \<and>
    (\<forall>s \<in> set ss. s_pc s = At_test \<and> is_connection_open (p_conn (s_process s)) \<and> s_pending s = [] \<and>
       s_current s = 0 \<and> s_threads s = 10)"
  unfolding Let_def
  by (rule configured_server_serves [where name = "''google''" and db = "''files.db''" and pt = 7978 and hi = 100])
     (use sample_turn_knocks in \<open>simp_all add: sample_server_env_def host_name_def goes_on_def\<close>)

text \<open>
  A port above \<open>2 ^ 31\<close>, which is what a negative number in the file becomes, is printed as a negative
  number: in the socket build one of eleven characters, one more than the block has room for.
\<close>

theorem high_port_overflows:
  assumes "2 ^ 31 \<le> port cfg" "port cfg \<le> 2 ^ 32 - 10 ^ 9"
  shows "server_address Socket exact_size fresh cfg = Inl Out_of_bounds"
proof -
  have "int (port cfg) + 2 ^ 31 = int (port cfg) - 2 ^ 31 + 2 ^ 32" by simp
  then have "(int (port cfg) + 2 ^ 31) mod 2 ^ 32 = (int (port cfg) - 2 ^ 31) mod 2 ^ 32"
    by (simp only: mod_add_self2)
  also have "\<dots> = int (port cfg) - 2 ^ 31" using assms by (intro mod_pos_pos_trivial) simp_all
  finally have i: "to_int32 (int (port cfg)) = - int (2 ^ 32 - port cfg)"
    using assms by (simp only: to_int32_def) simp
  have "length (show_nat (2 ^ 32 - port cfg)) = 10"
    using length_show_nat [of 9 "2 ^ 32 - port cfg"] assms by simp
  then have "length (show_int (to_int32 (int (port cfg)))) = 11"
    using assms unfolding i show_int_def minus_minus nat_int by simp
  moreover have "length (show_nat (port cfg)) = 10"
    using length_show_nat [of 9 "port cfg"] assms by simp
  ultimately show ?thesis
    using assms(1) by (simp add: server_address_def server_url_def server_url_block_def sprintf_into_exact)
qed

theorem high_port_overflows_witness:
  "server_address Socket exact_size sample_addr
     \<lparr>server_name = ''google'', port = 3000000000, db_file = ''./files.db'', min_threads = 10, max_threads = 100\<rparr> = Inl Out_of_bounds"
  by (rule high_port_overflows) simp_all

section \<open>A round of a worker\<close>

lemma worker_receive_frame:
  assumes "frame_ok b d" "fd_in (w_io (p_worker (s_process s))) (res_fd (p_conn (s_process s))) = b @ d @ b @ rest"
    "s_current s \<noteq> size_pred (s_threads s)"
  shows "worker_receive P E maxi self err s =
    (if plat_usable P (s_threads s * POINTER_SIZE) < (s_current s + 1) * POINTER_SIZE then Inl Out_of_bounds
     else
       let p = s_process s; v = w_io (p_worker p);
           p = p\<lparr>p_worker := (p_worker p)\<lparr>w_io := v\<lparr>fd_in := (fd_in v)(res_fd (p_conn p) := rest)\<rparr>\<rparr>\<rparr>
       in Inr (s\<lparr>s_process := post_status (p_pid p) 0 STATUS_OK p, s_pc := At_test,
                 s_pending := s_pending s @ [(self, d)], s_current := s_current s + 1\<rparr>))"
proof -
  have d: "nul_free d" using assms(1) by (simp add: frame_ok_def)
  obtain t where "comm_receive_data (plat_transport P) (p_conn (s_process s)) err (w_io (p_worker (s_process s))) =
      Inr (d @ ZERO # t, comm_error NO_COMM_ERROR ''Receive Data Sucessful'',
        (w_io (p_worker (s_process s)))\<lparr>fd_in := (fd_in (w_io (p_worker (s_process s))))(res_fd (p_conn (s_process s)) := rest)\<rparr>)"
    using comm_receive_frame [OF assms(1,2)] by blast
  with assms(3) show ?thesis
    by (simp add: worker_receive_def Let_def cstr_append [OF d] NO_COMM_ERROR_def)
qed

text \<open>
  A configuration with no threads: the first request writes past the end of a table of no pointers.
\<close>

theorem no_threads_overflows:
  assumes "plat_usable P = exact_size" "s_threads s = 0" "s_current s = 0" "frame_ok b d"
    "fd_in (w_io (p_worker (s_process s))) (res_fd (p_conn (s_process s))) = b @ d @ b @ rest"
  shows "worker_receive P E maxi self err s = Inl Out_of_bounds"
  using worker_receive_frame [OF assms(4,5), of P E maxi self err] assms(1-3)
  by (simp add: size_pred_def exact_size_def POINTER_SIZE_def)

text \<open>A worker with \<open>n\<close> places in its table and a request in its pipe, for the witnesses.\<close>

definition waiting_session :: "nat \<Rightarrow> message \<Rightarrow> string \<Rightarrow> unit session" where
  "waiting_session n m rest =
     start_worker (sample_process\<lparr>p_worker := sample_worker () None\<lparr>w_io := sample_io
       \<lparr>fd_in := \<lambda>_. sample_boundary @ stringify flat_json m @ sample_boundary @ rest\<rparr>\<rparr>\<rparr>) n"

theorem no_threads_overflows_witness:
  "worker_receive ((sample_platform (\<lambda>(db :: unit) q. (db, [])))\<lparr>plat_usable := exact_size\<rparr>) (sample_fifo_env []) 8 1 (comm_error 0 [])
    (waiting_session 0 (MInt 42) []) = Inl Out_of_bounds"
  by (rule no_threads_overflows [where b = sample_boundary and d = "stringify flat_json (MInt 42)" and rest = "[]"])
     (use frame_ok_int in \<open>simp_all add: waiting_session_def start_worker_def del: stringify.simps\<close>)

text \<open>
  The whole round of a worker: with a request in the pipe, room in the table and a handler that
  returns, it receives the request, handles it and is back at the test.
\<close>

lemma worker_round:
  assumes "allocator (plat_usable P)" "s_pc s = At_test" "\<not> is_connection_closed (p_conn (s_process s))"
    "s_pending s = []" "s_current s + 1 < s_threads s" "frame_ok b d"
    "fd_in (w_io (p_worker (s_process s))) (res_fd (p_conn (s_process s))) = b @ d @ b @ rest"
    "v = w_io (p_worker (s_process s))" "p0 = post_status (p_pid (s_process s)) 0 STATUS_IDLE (s_process s)"
    "p1 = post_status (p_pid p0) 0 STATUS_OK
       (p0\<lparr>p_worker := (p_worker p0)\<lparr>w_io := v\<lparr>fd_in := (fd_in v)(res_fd (p_conn p0) := rest)\<rparr>\<rparr>\<rparr>)"
    "server_responder P self e d p1 = Inr p2"
  shows "worker_reaches P E maxi s
    (s\<lparr>s_process := p2, s_pc := At_test, s_pending := [], s_current := s_current s + 1\<rparr>)"
proof -
  let ?s0 = "s\<lparr>s_process := p0, s_pc := Receiving\<rparr>"
  let ?s1 = "s\<lparr>s_process := p1, s_pc := At_test, s_pending := [(self, d)], s_current := s_current s + 1\<rparr>"
  have U: "(s_current s + 1) * POINTER_SIZE \<le> plat_usable P (s_threads s * POINTER_SIZE)"
    using allocatorD [OF assms(1), of "s_threads s * POINTER_SIZE"] assms(5) by (simp add: POINTER_SIZE_def)
  have "worker_step P E maxi s ?s0"
    using assms(2,3) by (intro step_test) (simp_all add: worker_test_def assms(9))
  moreover have "worker_step P E maxi ?s0 ?s1"
  proof (rule step_receive [where self = self])
    have ne: "s_current ?s0 \<noteq> size_pred (s_threads ?s0)" using assms(5) by (simp add: size_pred_def)
    have inp: "fd_in (w_io (p_worker (s_process ?s0))) (res_fd (p_conn (s_process ?s0))) = b @ d @ b @ rest"
      using assms(7) by (simp add: assms(9))
    show "worker_receive P E maxi self (comm_error 0 []) ?s0 = Inr ?s1"
      using worker_receive_frame [OF assms(6) inp ne, of P E maxi self "comm_error 0 []"] U assms(4,8)
      by (simp add: Let_def assms(9,10))
  qed simp
  moreover have "worker_step P E maxi ?s1
      (s\<lparr>s_process := p2, s_pc := At_test, s_pending := [], s_current := s_current s + 1\<rparr>)"
    by (rule step_thread [where i = 0 and fresh_err = e]) (simp_all add: run_thread_def assms(11))
  ultimately show ?thesis by (meson reaches_refl reaches_step)
qed

text \<open>
  A request for an integer that arrives while there is room in the table is received, handled and
  answered with one frame, and the worker is back at the test with the rest of the input.
\<close>

theorem integer_request_answered:
  assumes "platform_ok P" "rng_ok (io_rng (w_io (p_worker (s_process s))))" "int32 i"
    "p_shared (s_process s) \<noteq> None" "s_pc s = At_test" "\<not> is_connection_closed (p_conn (s_process s))"
    "s_pending s = []" "s_current s + 1 < s_threads s" "frame_ok b (stringify (plat_json P) (MInt i))"
    "fd_in (w_io (p_worker (s_process s))) (res_fd (p_conn (s_process s))) =
       b @ stringify (plat_json P) (MInt i) @ b @ rest"
  shows "\<exists>s' b'. worker_reaches P E maxi s s' \<and> boundary_shape b' \<and> s_pc s' = At_test \<and>
    fd_in (w_io (p_worker (s_process s'))) (res_fd (p_conn (s_process s))) = rest \<and>
    fd_out (w_io (p_worker (s_process s'))) (req_fd (p_conn (s_process s))) =
      fd_out (w_io (p_worker (s_process s))) (req_fd (p_conn (s_process s))) @
        frame_bytes b' (stringify (plat_json P) (MInt (to_int32 (i * 2))))"
proof -
  let ?v = "w_io (p_worker (s_process s))" and ?d = "stringify (plat_json P) (MInt i)"
  let ?a = "post_status (p_pid (s_process s)) 0 STATUS_IDLE (s_process s)"
  let ?b = "post_status (p_pid ?a) 0 STATUS_OK
       (?a\<lparr>p_worker := (p_worker ?a)\<lparr>w_io := ?v\<lparr>fd_in := (fd_in ?v)(res_fd (p_conn ?a) := rest)\<rparr>\<rparr>\<rparr>)"
  have U: "allocator (plat_usable P)" using assms(1) by (simp add: platform_ok_def)
  have "\<exists>h. p_shared ?b = Some h" using assms(4) by (auto simp: post_status_def)
  moreover have "rng_ok (io_rng (w_io (p_worker ?b)))" using assms(2) by simp
  ultimately obtain p' b' r where p': "server_responder P 0 (comm_error 0 []) ?d ?b = Inr p'" "boundary_shape b'"
    "w_io (p_worker p') = emit (req_fd (p_conn ?b))
      (frame_bytes b' (stringify (plat_json P) (MInt (to_int32 (i * 2))))) ((w_io (p_worker ?b))\<lparr>io_rng := r\<rparr>)"
    using responder_doubles [OF assms(1) _ assms(3), of ?b] by blast
  from worker_round [OF U assms(5-10) refl refl refl p'(1)]
  have "worker_reaches P E maxi s
    (s\<lparr>s_process := p', s_pc := At_test, s_pending := [], s_current := s_current s + 1\<rparr>)" .
  with p'(2,3) show ?thesis
    by (intro exI [of _ "s\<lparr>s_process := p', s_pc := At_test, s_pending := [], s_current := s_current s + 1\<rparr>"] exI [of _ b'])
       (simp add: emit_def)
qed

theorem integer_request_answered_witness:
  "let P = sample_platform (\<lambda>(db :: unit) q. (db, [])); s = waiting_session 2 (MInt 42) ''x''
   in \<exists>s' b'. worker_reaches P (sample_fifo_env []) 8 s s' \<and> boundary_shape b' \<and> s_pc s' = At_test \<and>
    fd_in (w_io (p_worker (s_process s'))) (res_fd (p_conn (s_process s))) = ''x'' \<and>
    fd_out (w_io (p_worker (s_process s'))) (req_fd (p_conn (s_process s))) =
      fd_out (w_io (p_worker (s_process s))) (req_fd (p_conn (s_process s))) @
        frame_bytes b' (stringify (plat_json P) (MInt (to_int32 (42 * 2))))"
  unfolding Let_def
  by (rule integer_request_answered [where b = sample_boundary])
     (use frame_ok_int in \<open>simp_all add: waiting_session_def start_worker_def sample_process_def sample_io_def sample_rng_def rng_ok_def
        int32_def sample_conn_def is_connection_closed_def post_status_def del: stringify.simps\<close>)

end
