(* ===== verification/Session_Store.thy ===== *)
theory Session_Store
  imports Server_Main Store_Service
begin

text \<open>
  A whole worker against the file store: the loop receives request texts and starts a thread for each, the
  threads run in any order (\<open>worker_step\<close> of \<open>Server\<close>). Whatever the order, the requests that have been
  handled are one sequence of commands on the store, the answers on the wire are the store's answers to
  that sequence, and every text that was received is handled once or still waits.
\<close>

section \<open>Runs of a worker\<close>

datatype event = Received string | Handled command

fun received :: "event list \<Rightarrow> string list" where
  "received [] = []"
| "received (Received t # es) = t # received es"
| "received (Handled c # es) = received es"

fun handled :: "event list \<Rightarrow> command list" where
  "handled [] = []"
| "handled (Received t # es) = handled es"
| "handled (Handled c # es) = c # handled es"

lemma received_append: "received (es @ fs) = received es @ received fs"
  by (induction es rule: received.induct) simp_all

lemma handled_append: "handled (es @ fs) = handled es @ handled fs"
  by (induction es rule: handled.induct) simp_all

text \<open>The steps of \<open>worker_step\<close>, labelled, where a thread runs on the text of a command that fits.\<close>

inductive session_step ::
  "('j, 'db) platform \<Rightarrow> ('db \<Rightarrow> tables) \<Rightarrow> fifo_env \<Rightarrow> nat \<Rightarrow> 'db session \<Rightarrow> event list \<Rightarrow> 'db session \<Rightarrow> bool"
  for P T E n where
  session_test: "s_pc s = At_test \<Longrightarrow> worker_test P E s = Inr s' \<Longrightarrow> session_step P T E n s [] s'"
| session_receive: "s_pc s = Receiving \<Longrightarrow> worker_receive P E n self err s = Inr s' \<Longrightarrow>
    session_step P T E n s (map (\<lambda>x. Received (snd x)) (drop (length (s_pending s)) (s_pending s'))) s'"
| session_thread: "s_pc s \<noteq> Ended \<Longrightarrow> i < length (s_pending s) \<Longrightarrow>
    snd (s_pending s ! i) = stringify (plat_json P) (request_of c) \<Longrightarrow> message_ok (request_of c) \<Longrightarrow>
    fits P T (p_worker (s_process s)) c \<Longrightarrow> run_thread P e i s = Inr s' \<Longrightarrow> session_step P T E n s [Handled c] s'"

inductive session_run ::
  "('j, 'db) platform \<Rightarrow> ('db \<Rightarrow> tables) \<Rightarrow> fifo_env \<Rightarrow> nat \<Rightarrow> 'db session \<Rightarrow> event list \<Rightarrow> 'db session \<Rightarrow> bool"
  for P T E n s where
  session_refl: "session_run P T E n s [] s"
| session_more: "session_run P T E n s es s' \<Longrightarrow> session_step P T E n s' fs s'' \<Longrightarrow> session_run P T E n s (es @ fs) s''"

lemma session_step_worker: "session_step P T E n s es s' \<Longrightarrow> worker_step P E n s s'"
  by (induction rule: session_step.induct) (auto intro: worker_step.intros)

lemma session_run_reaches: "session_run P T E n s es s' \<Longrightarrow> worker_reaches P E n s s'"
  by (induction rule: session_run.induct) (auto intro: worker_reaches.intros session_step_worker)

section \<open>What the loop leaves of the store\<close>

definition session_store :: "('db \<Rightarrow> tables) \<Rightarrow> 'db session \<Rightarrow> store" where
  "session_store T s = store_of T (p_worker (s_process s))"

lemma end_worker_worker: "end_worker P E s = Inr s' \<Longrightarrow> p_worker (s_process s') = p_worker (s_process s)"
  by (auto simp: end_worker_def bindE_Inr_iff Let_def)

lemma worker_test_worker: "worker_test P E s = Inr s' \<Longrightarrow> p_worker (s_process s') = p_worker (s_process s)"
  by (auto simp: worker_test_def end_worker_worker split: if_splits)

lemma io_call_worker: "io_call f w = Inr (e, w') \<Longrightarrow> \<exists>v. w' = w\<lparr>w_io := v\<rparr>"
  by (auto simp: io_call_def bindE_Inr_iff)

lemma worker_receive_worker:
  assumes "worker_receive P E n self err s = Inr s'"
  shows "\<exists>v. p_worker (s_process s') = (p_worker (s_process s))\<lparr>w_io := v\<rparr>"
  using assms
  by (auto simp: worker_receive_def Let_def bindE_Inr_iff dest!: io_call_worker end_worker_worker split: if_splits)

lemma ready_rng: "process_ready P T p \<Longrightarrow> rng_ok (io_rng (w_io (p_worker p))) \<and> platform_ok P"
  by (simp add: process_ready_def service_ready_def worker_ready_def)

lemma process_ready_io:
  assumes "process_ready P T p" "p_worker q = (p_worker p)\<lparr>w_io := v\<rparr>" "rng_ok (io_rng v)"
  shows "process_ready P T q" "store_of T (p_worker q) = store_of T (p_worker p)"
  using assms by (simp_all add: process_ready_def service_ready_def worker_ready_def)

section \<open>The invariant\<close>

definition request_text :: "('j, 'db) platform \<Rightarrow> command \<Rightarrow> string" where
  "request_text P c = stringify (plat_json P) (request_of c)"

definition written :: "('j, 'db) platform \<Rightarrow> int \<Rightarrow> string \<Rightarrow> (string \<times> nat) list \<Rightarrow> io \<Rightarrow> bool" where
  "written P q old as v \<longleftrightarrow> (\<exists>bs. length bs = length as \<and> list_all boundary_shape bs \<and>
     fd_out v q = old @ answer_frames (plat_json P) bs as)"

definition session_inv ::
  "('j, 'db) platform \<Rightarrow> ('db \<Rightarrow> tables) \<Rightarrow> 'db process \<Rightarrow> event list \<Rightarrow> 'db session \<Rightarrow> bool" where
  "session_inv P T p es s \<longleftrightarrow> process_ready P T (s_process s) \<and>
     (\<exists>as. trace (serve (plat_can_fork P)) (store_of T (p_worker p)) (handled es) as (session_store T s) \<and>
       (s_pc s \<noteq> Ended \<longrightarrow> written P (req_fd (p_conn p)) (fd_out (w_io (p_worker p)) (req_fd (p_conn p))) as (session_io s))) \<and>
     (s_pc s \<noteq> Ended \<longrightarrow> req_fd (p_conn (s_process s)) = req_fd (p_conn p) \<and>
       mset (received es) = mset (map (request_text P) (handled es)) + mset (map snd (s_pending s)))"

lemma answer_frames_snoc:
  "length bs = length as \<Longrightarrow> answer_frames J (bs @ [b]) (as @ [a]) =
   answer_frames J bs as @ frame_bytes b (stringify J (MData (fst a) (snd a)))"
  by (simp add: answer_frames_def)

lemma written_snoc:
  assumes "written P q old as v" "replied P conn (fst a) (snd a) v v'" "req_fd conn = q"
  shows "written P q old (as @ [a]) v'"
proof -
  obtain bs where bs: "length bs = length as" "list_all boundary_shape bs" "fd_out v q = old @ answer_frames (plat_json P) bs as"
    using assms(1) unfolding written_def by blast
  obtain b where "boundary_shape b" "fd_out v' q = fd_out v q @ frame_bytes b (stringify (plat_json P) (MData (fst a) (snd a)))"
    using assms(2,3) by (auto simp: replied_def emit_def)
  with bs show ?thesis
    unfolding written_def by (intro exI [of _ "bs @ [b]"]) (simp add: answer_frames_snoc)
qed

lemma mset_remove_nth: "i < length xs \<Longrightarrow> mset xs = add_mset (xs ! i) (mset (take i xs @ drop (Suc i) xs))"
  by (metis add_mset_add_single append_take_drop_id Cons_nth_drop_Suc mset.simps(2) mset_append union_mset_add_mset_right)

lemma trace_append:
  "trace step s cs as s' \<Longrightarrow> trace step s' ds bs s'' \<Longrightarrow> trace step s (cs @ ds) (as @ bs) s''"
  by (induction rule: trace.induct) (auto intro: trace.intros)

lemma answer_frames_append:
  "length bs = length as \<Longrightarrow> answer_frames J (bs @ bs') (as @ as') = answer_frames J bs as @ answer_frames J bs' as'"
  by (simp add: answer_frames_def)

lemma written_nil: "written P q (fd_out v q) [] v"
  by (simp add: written_def answer_frames_def)

lemma written_append:
  assumes "written P q old as v" "written P q (fd_out v q) as' v'"
  shows "written P q old (as @ as') v'"
proof -
  obtain bs bs' where "length bs = length as" "list_all boundary_shape bs" "fd_out v q = old @ answer_frames (plat_json P) bs as"
    "length bs' = length as'" "list_all boundary_shape bs'" "fd_out v' q = fd_out v q @ answer_frames (plat_json P) bs' as'"
    using assms unfolding written_def by blast
  then show ?thesis
    unfolding written_def by (intro exI [of _ "bs @ bs'"]) (simp add: answer_frames_append)
qed

text \<open>
  What a step does: it handles the commands of its events on the store, and while the worker runs, writes
  their answers, and moves the texts of the events in and out of the table.
\<close>

definition step_effect ::
  "('j, 'db) platform \<Rightarrow> ('db \<Rightarrow> tables) \<Rightarrow> event list \<Rightarrow> 'db session \<Rightarrow> 'db session \<Rightarrow> bool" where
  "step_effect P T es s s' \<longleftrightarrow> process_ready P T (s_process s') \<and>
     (\<exists>as. trace (serve (plat_can_fork P)) (session_store T s) (handled es) as (session_store T s') \<and>
       (s_pc s' \<noteq> Ended \<longrightarrow> s_pc s \<noteq> Ended \<and> req_fd (p_conn (s_process s')) = req_fd (p_conn (s_process s)) \<and>
          written P (req_fd (p_conn (s_process s))) (fd_out (session_io s) (req_fd (p_conn (s_process s)))) as (session_io s') \<and>
          mset (map snd (s_pending s)) + mset (received es) =
            mset (map (request_text P) (handled es)) + mset (map snd (s_pending s'))))"

lemma step_effect_loop:
  assumes "process_ready P T (s_process s)" "s_pc s \<noteq> Ended" "p_worker (s_process s') = (p_worker (s_process s))\<lparr>w_io := v\<rparr>"
    "rng_ok (io_rng v)"
    "s_pc s' \<noteq> Ended \<Longrightarrow> fd_out v = fd_out (session_io s) \<and> req_fd (p_conn (s_process s')) = req_fd (p_conn (s_process s)) \<and>
       mset (map snd (s_pending s')) = mset (map snd (s_pending s)) + mset ts"
  shows "step_effect P T (map Received ts) s s'"
proof -
  have l: "received (map Received ts) = ts" "handled (map Received ts) = []" by (induction ts) simp_all
  have st: "process_ready P T (s_process s')" "session_store T s' = session_store T s"
    using process_ready_io [OF assms(1,3,4)] assms(1) by (simp_all add: session_store_def)
  have io: "session_io s' = v" using assms(3) by (simp add: session_io_def)
  show ?thesis
    unfolding step_effect_def l
    by (rule conjI [OF st(1)], rule exI [of _ "[]"])
       (use assms(2,5) st(2) io in \<open>auto simp: written_def answer_frames_def intro: trace.intros\<close>)
qed

lemma step_effect_end:
  assumes "process_ready P T (s_process s)" "end_worker P E s = Inr s'"
  shows "step_effect P T [] s s'"
  using assms end_worker_worker [OF assms(2)] end_worker_fields [OF assms(2)]
  unfolding step_effect_def session_store_def process_ready_def by (auto intro: trace.intros)

lemma session_step_effect:
  assumes "process_ready P T (s_process s)" "session_step P T E n s es s'"
  shows "step_effect P T es s s'"
  using assms(2)
proof cases
  case session_test
  from session_test(3) show ?thesis
  proof (cases rule: worker_test_cases)
    case 1
    from step_effect_end [OF assms(1) 1] session_test(1) show ?thesis by simp
  next
    case 2
    have "process_ready P T (s_process s')" "session_store T s' = session_store T s"
      using worker_test_worker [OF session_test(3)] assms(1) by (simp_all add: process_ready_def session_store_def)
    with 2 session_test(1,2) show ?thesis
      unfolding step_effect_def by (auto simp: written_nil intro!: exI [of _ "[]"] trace.intros)
  qed
next
  case (session_receive self err)
  have ready: "platform_ok P" "rng_ok (io_rng (session_io s))"
    using ready_rng [OF assms(1)] by (simp_all add: session_io_def)
  obtain v where v: "p_worker (s_process s') = (p_worker (s_process s))\<lparr>w_io := v\<rparr>"
    using worker_receive_worker [OF session_receive(3)] by blast
  then have io: "session_io s' = v" by (simp add: session_io_def)
  have l: "map (\<lambda>x. Received (snd x)) xs = map Received (map snd xs)" for xs :: "(int \<times> string) list" by simp
  from session_receive(3) ready show ?thesis
  proof (cases rule: worker_receive_cases)
    case maxed
    then obtain u where u: "fd_out u = fd_out (session_io s)" "io_rng u = io_rng (session_io s)"
      "at_most_one_frame P (p_conn (s_process s)) u (session_io s')" by blast
    then have "rng_ok (io_rng v)" using io ready(2) by (auto simp: at_most_one_frame_def emit_def)
    then show ?thesis
      unfolding session_receive(1) l using maxed(1) session_receive(2) v
      by (intro step_effect_loop [where v = v, OF assms(1)]) simp_all
  next
    case thread
    then obtain x where x: "s_pending s' = s_pending s @ [x]" by blast
    show ?thesis
      unfolding session_receive(1) l using thread session_receive(2) v io ready(2) x
      by (intro step_effect_loop [where v = v, OF assms(1)]) simp_all
  qed
next
  case (session_thread i c e)
  let ?p = "s_process s" and ?x = "s_pending s ! i"
  have fit: "request_fits P T ?p (fst ?x, e, c)" using session_thread(5,6) by (simp add: request_fits_def command_of_def)
  obtain p' a where p': "call_request P (fst ?x, e, c) ?p = Some p'" "answer_written P ?p a p'"
    "serve (plat_can_fork P) (store_of T (p_worker ?p)) c a (store_of T (p_worker p'))" "process_ready P T p'"
    using requests.call_served [OF assms(1) fit] by (auto simp: command_of_def)
  then have "server_responder P (fst ?x) e (snd ?x) ?p = Inr p'"
    using session_thread(4) by (auto simp: call_request_def command_of_def split: sum.splits)
  with session_thread(3,7) have s': "s' = s\<lparr>s_process := p', s_pending := take i (s_pending s) @ drop (Suc i) (s_pending s)\<rparr>"
    by (cases ?x) (simp add: run_thread_def)
  have conn: "p_conn p' = p_conn ?p" and rep: "replied P (p_conn ?p) (fst a) (snd a) (session_io s) (session_io s')"
    using p'(2) by (simp_all add: answer_written_def answer_sent_def session_io_def s')
  have "trace (serve (plat_can_fork P)) (session_store T s) [c] [a] (session_store T s')"
    using p'(3) by (auto simp: session_store_def s' intro: trace.intros)
  moreover have "written P (req_fd (p_conn ?p)) (fd_out (session_io s) (req_fd (p_conn ?p))) [a] (session_io s')"
    using written_snoc [OF written_nil rep refl] by simp
  moreover have "mset (map snd (s_pending s)) = add_mset (request_text P c) (mset (map snd (take i (s_pending s) @ drop (Suc i) (s_pending s))))"
    using mset_remove_nth [of i "map snd (s_pending s)"] session_thread(3,4) by (simp add: request_text_def take_map drop_map)
  ultimately show ?thesis
    using p'(4) conn session_thread(2) unfolding session_thread(1) step_effect_def
    by (intro conjI exI [of _ "[a]"]) (auto simp: s')
qed

lemma session_inv_step:
  assumes "session_inv P T p es s" "session_step P T E n s fs s'"
  shows "session_inv P T p (es @ fs) s'"
proof -
  have ready: "process_ready P T (s_process s)" using assms(1) by (simp add: session_inv_def)
  obtain as where as: "trace (serve (plat_can_fork P)) (store_of T (p_worker p)) (handled es) as (session_store T s)"
    "s_pc s \<noteq> Ended \<Longrightarrow> written P (req_fd (p_conn p)) (fd_out (w_io (p_worker p)) (req_fd (p_conn p))) as (session_io s)"
    "s_pc s \<noteq> Ended \<Longrightarrow> req_fd (p_conn (s_process s)) = req_fd (p_conn p) \<and>
       mset (received es) = mset (map (request_text P) (handled es)) + mset (map snd (s_pending s))"
    using assms(1) unfolding session_inv_def by blast
  obtain bs where bs: "process_ready P T (s_process s')"
    "trace (serve (plat_can_fork P)) (session_store T s) (handled fs) bs (session_store T s')"
    "s_pc s' \<noteq> Ended \<Longrightarrow> s_pc s \<noteq> Ended \<and> req_fd (p_conn (s_process s')) = req_fd (p_conn (s_process s)) \<and>
       written P (req_fd (p_conn (s_process s))) (fd_out (session_io s) (req_fd (p_conn (s_process s)))) bs (session_io s') \<and>
       mset (map snd (s_pending s)) + mset (received fs) = mset (map (request_text P) (handled fs)) + mset (map snd (s_pending s'))"
    using session_step_effect [OF ready assms(2)] unfolding step_effect_def by blast
  have "written P (req_fd (p_conn p)) (fd_out (w_io (p_worker p)) (req_fd (p_conn p))) (as @ bs) (session_io s')"
    if "s_pc s' \<noteq> Ended"
    using written_append [OF as(2)] as(3) bs(3) [OF that] by metis
  moreover have "mset (received (es @ fs)) = mset (map (request_text P) (handled (es @ fs))) + mset (map snd (s_pending s'))"
    if "s_pc s' \<noteq> Ended"
    using as(3) bs(3) [OF that] by (simp add: received_append handled_append)
  ultimately show ?thesis
    using bs(1,3) as(3) trace_append [OF as(1) bs(2)] unfolding session_inv_def handled_append by (intro conjI exI [of _ "as @ bs"]) auto
qed

section \<open>Properties\<close>

text \<open>
  A worker is a sequential file store, whatever the order in which its threads run: the requests handled
  so far are one sequence of commands that leads the store from its first state to its present one; while
  the worker runs, every text received has been handled once or still waits, and what went out is
  the store's answers to that sequence, one whole frame each, in that order.
\<close>

theorem threads_serialise_on_store:
  assumes "process_ready P T p" "session_run P T E n (start_worker p k) es s"
  shows "\<exists>as. trace (serve (plat_can_fork P)) (store_of T (p_worker p)) (handled es) as (session_store T s) \<and>
    (s_pc s \<noteq> Ended \<longrightarrow>
      mset (received es) = mset (map (request_text P) (handled es)) + mset (map snd (s_pending s)) \<and>
      (\<exists>bs. length bs = length as \<and> list_all boundary_shape bs \<and>
        fd_out (session_io s) (req_fd (p_conn p)) =
          fd_out (w_io (p_worker p)) (req_fd (p_conn p)) @ answer_frames (plat_json P) bs as))"
proof -
  have "session_inv P T p [] (start_worker p k)"
    using assms(1) trace_nil [of "serve (plat_can_fork P)" "store_of T (p_worker p)"]
    by (auto simp: session_inv_def start_worker_def session_store_def session_io_def written_def answer_frames_def
        process_ready_def intro!: exI [of _ "[]"])
  with assms(2) have "session_inv P T p es s"
    by (induction rule: session_run.induct) (auto intro: session_inv_step)
  then show ?thesis unfolding session_inv_def written_def by blast
qed

text \<open>
  One turn of the loop with a request in the pipe, and its thread: \<open>err\<close> is the block of the process,
  \<open>self\<close> and \<open>e\<close> the number and the block of the thread.
\<close>

definition answer_round ::
  "('j, 'db) platform \<Rightarrow> fifo_env \<Rightarrow> nat \<Rightarrow> int \<Rightarrow> comm_error_t \<Rightarrow> comm_error_t \<Rightarrow> 'db session \<Rightarrow> 'db session result" where
  "answer_round P E n self err e s =
     bindE (worker_test P E s) (\<lambda>s. bindE (worker_receive P E n self err s) (run_thread P e 0))"

lemma session_round:
  assumes "allocator (plat_usable P)" "s_pc s = At_test" "\<not> is_connection_closed (p_conn (s_process s))"
    "s_pending s = []" "s_current s + 1 < s_threads s" "frame_ok b (request_text P c)"
    "fd_in (w_io (p_worker (s_process s))) (res_fd (p_conn (s_process s))) = b @ request_text P c @ b @ rest"
    "v = w_io (p_worker (s_process s))" "q = post_status (p_pid (s_process s)) 0 STATUS_IDLE (s_process s)"
    "r = post_status (p_pid q) 0 STATUS_OK
       (q\<lparr>p_worker := (p_worker q)\<lparr>w_io := v\<lparr>fd_in := (fd_in v)(res_fd (p_conn q) := rest)\<rparr>\<rparr>\<rparr>)"
    "message_ok (request_of c)" "fits P T (p_worker r) c" "server_responder P self e (request_text P c) r = Inr r'"
  shows "session_run P T E n s [Received (request_text P c), Handled c]
    (s\<lparr>s_process := r', s_pc := At_test, s_pending := [], s_current := s_current s + 1\<rparr>) \<and>
    answer_round P E n self err e s =
      Inr (s\<lparr>s_process := r', s_pc := At_test, s_pending := [], s_current := s_current s + 1\<rparr>)"
proof -
  let ?d = "request_text P c"
  let ?s0 = "s\<lparr>s_process := q, s_pc := Receiving\<rparr>"
  let ?s1 = "s\<lparr>s_process := r, s_pc := At_test, s_pending := [(self, ?d)], s_current := s_current s + 1\<rparr>"
  let ?s2 = "s\<lparr>s_process := r', s_pc := At_test, s_pending := [], s_current := s_current s + 1\<rparr>"
  have U: "(s_current s + 1) * POINTER_SIZE \<le> plat_usable P (s_threads s * POINTER_SIZE)"
    using allocatorD [OF assms(1), of "s_threads s * POINTER_SIZE"] assms(5) by (simp add: POINTER_SIZE_def)
  have test: "worker_test P E s = Inr ?s0" using assms(3) by (simp add: worker_test_def assms(9))
  have one: "session_step P T E n s [] ?s0" by (rule session_test [OF assms(2) test])
  have ne: "s_current ?s0 \<noteq> size_pred (s_threads ?s0)" using assms(5) by (simp add: size_pred_def)
  have inp: "fd_in (w_io (p_worker (s_process ?s0))) (res_fd (p_conn (s_process ?s0))) = b @ ?d @ b @ rest"
    using assms(7) by (simp add: assms(9))
  have receive: "worker_receive P E n self err ?s0 = Inr ?s1"
    using worker_receive_frame [OF assms(6) inp ne, of P E n self err] U assms(4,8)
    by (simp add: Let_def assms(9,10))
  from session_receive [of ?s0, OF _ this] have two: "session_step P T E n ?s0 [Received ?d] ?s1"
    using assms(4) by simp
  have thread: "run_thread P e 0 ?s1 = Inr ?s2" using assms(13) by (simp add: run_thread_def)
  have three: "session_step P T E n ?s1 [Handled c] ?s2"
    by (rule session_thread [where i = 0, OF _ _ _ assms(11) _ thread]) (use assms(12) in \<open>simp_all add: request_text_def\<close>)
  have "answer_round P E n self err e s = Inr ?s2" by (simp only: answer_round_def test receive thread bindE_simps)
  with session_more [OF session_more [OF session_more [OF session_refl one] two] three] show ?thesis by simp
qed

lemma fits_io: "fits P T (w\<lparr>w_io := v\<rparr>) c = fits P T w c"
  by (simp add: fits_def Let_def split: option.split)

text \<open>The bytes a worker can read, set.\<close>

definition with_input :: "string \<Rightarrow> 'db session \<Rightarrow> 'db session" where
  "with_input t s = (let p = s_process s; v = w_io (p_worker p)
     in s\<lparr>s_process := p\<lparr>p_worker := (p_worker p)\<lparr>w_io := v\<lparr>fd_in := (fd_in v)(res_fd (p_conn p) := t)\<rparr>\<rparr>\<rparr>\<rparr>)"

lemma with_input_fields [simp]:
  "s_pc (with_input t s) = s_pc s" "s_pending (with_input t s) = s_pending s" "s_current (with_input t s) = s_current s"
  "s_threads (with_input t s) = s_threads s" "p_conn (s_process (with_input t s)) = p_conn (s_process s)"
  "with_input t (with_input u s) = with_input t s" "with_input (fd_in (session_io s) (res_fd (p_conn (s_process s)))) s = s"
  "session_io (with_input t s) = (session_io s)\<lparr>fd_in := (fd_in (session_io s))(res_fd (p_conn (s_process s)) := t)\<rparr>"
  by (simp_all add: with_input_def Let_def session_io_def)

lemma with_input_ready:
  assumes "process_ready P T (s_process s)"
  shows "process_ready P T (s_process (with_input t s))" "session_store T (with_input t s) = session_store T s"
    "fits P T (p_worker (s_process (with_input t s))) c = fits P T (p_worker (s_process s)) c"
proof -
  let ?v = "(w_io (p_worker (s_process s)))\<lparr>fd_in := (fd_in (w_io (p_worker (s_process s))))(res_fd (p_conn (s_process s)) := t)\<rparr>"
  have w: "p_worker (s_process (with_input t s)) = (p_worker (s_process s))\<lparr>w_io := ?v\<rparr>"
    by (simp add: with_input_def Let_def)
  have "rng_ok (io_rng ?v)" using ready_rng [OF assms] by simp
  from process_ready_io [OF assms w this]
  show "process_ready P T (s_process (with_input t s))" "session_store T (with_input t s) = session_store T s"
    by (simp_all add: session_store_def)
  show "fits P T (p_worker (s_process (with_input t s))) c = fits P T (p_worker (s_process s)) c"
    unfolding w by (rule fits_io)
qed

lemma post_status_worker: "post_status pid k st (p\<lparr>p_worker := w\<rparr>) = (post_status pid k st p)\<lparr>p_worker := w\<rparr>"
  by (simp add: post_status_def split: option.split)

text \<open>
  The answer to a request does not depend on the boundary the request came with: one new state serves
  for all of them.
\<close>

lemma answer_any_boundary:
  assumes "process_ready P T (s_process s)" "s_pc s = At_test" "\<not> is_connection_closed (p_conn (s_process s))"
    "s_pending s = []" "s_current s + 1 < s_threads s"
    "message_ok (request_of c)" "fits P T (p_worker (s_process s)) c"
  shows "\<exists>s' a b'. (\<forall>b. frame_ok b (request_text P c) \<longrightarrow>
      answer_round P E n self err e (with_input (b @ request_text P c @ b @ rest) s) = Inr s' \<and>
      session_run P T E n (with_input (b @ request_text P c @ b @ rest) s) [Received (request_text P c), Handled c] s') \<and>
    process_ready P T (s_process s') \<and> p_conn (s_process s') = p_conn (s_process s) \<and> s_pending s' = [] \<and>
    s_current s' = s_current s + 1 \<and> s_threads s' = s_threads s \<and>
    serve (plat_can_fork P) (session_store T s) c a (session_store T s') \<and> s_pc s' = At_test \<and> boundary_shape b' \<and>
    fd_in (session_io s') (res_fd (p_conn (s_process s'))) = rest \<and>
    fd_out (session_io s') (req_fd (p_conn (s_process s))) = fd_out (session_io s) (req_fd (p_conn (s_process s))) @
      frame_bytes b' (stringify (plat_json P) (MData (fst a) (snd a)))"
proof -
  let ?s = "with_input rest s"
  let ?p = "s_process ?s"
  let ?r = "post_status (p_pid ?p) 0 STATUS_OK (post_status (p_pid ?p) 0 STATUS_IDLE ?p)"
  have U: "allocator (plat_usable P)" using ready_rng [OF assms(1)] by (simp add: platform_ok_def)
  have r: "process_ready P T ?r" "store_of T (p_worker ?r) = session_store T s"
    using with_input_ready [OF assms(1), of rest] by (simp_all add: process_ready_def session_store_def)
  have rf: "request_fits P T ?r (self, e, c)"
    using with_input_ready(3) [OF assms(1)] assms(6,7) by (simp add: request_fits_def command_of_def)
  obtain p' a where p': "call_request P (self, e, c) ?r = Some p'" "answer_written P ?r a p'"
    "serve (plat_can_fork P) (session_store T s) c a (store_of T (p_worker p'))" "process_ready P T p'"
    using requests.call_served [OF r(1) rf] unfolding r(2) by (auto simp: command_of_def)
  then have h: "server_responder P self e (request_text P c) ?r = Inr p'"
    by (auto simp: call_request_def command_of_def request_text_def split: sum.splits)
  obtain b' where b': "boundary_shape b'" "fd_out (w_io (p_worker p')) (req_fd (p_conn ?p)) =
      fd_out (session_io s) (req_fd (p_conn ?p)) @ frame_bytes b' (stringify (plat_json P) (MData (fst a) (snd a)))"
    "fd_in (w_io (p_worker p')) (res_fd (p_conn ?p)) = rest" "p_conn p' = p_conn ?p"
    using p'(2) by (auto simp: answer_written_def answer_sent_def replied_def emit_def session_io_def with_input_def Let_def)
  let ?s' = "s\<lparr>s_process := p', s_pc := At_test, s_pending := [], s_current := s_current s + 1\<rparr>"
  have "session_run P T E n (with_input (b @ request_text P c @ b @ rest) s) [Received (request_text P c), Handled c] ?s' \<and>
      answer_round P E n self err e (with_input (b @ request_text P c @ b @ rest) s) = Inr ?s'"
    if "frame_ok b (request_text P c)" for b
    using session_round [where s = "with_input (b @ request_text P c @ b @ rest) s" and r = ?r and c = c and P = P and T = T
        and rest = rest and b = b and E = E and n = n and r' = p' and self = self and err = err and e = e,
        OF U _ _ _ _ that _ refl refl _ assms(6) _ h] assms(2-5) with_input_ready(3) [OF assms(1)] assms(7)
    by (simp add: with_input_def Let_def post_status_worker)
  with p'(3,4) b' show ?thesis
    by (intro exI [of _ ?s'] exI [of _ a] exI [of _ b']) (simp add: session_store_def session_io_def)
qed

lemma session_answers:
  assumes "process_ready P T (s_process s)" "s_pc s = At_test" "\<not> is_connection_closed (p_conn (s_process s))"
    "s_pending s = []" "s_current s + 1 < s_threads s" "frame_ok b (request_text P c)"
    "fd_in (session_io s) (res_fd (p_conn (s_process s))) = b @ request_text P c @ b @ rest"
    "message_ok (request_of c)" "fits P T (p_worker (s_process s)) c"
  shows "\<exists>s' a b'. session_run P T E n s [Received (request_text P c), Handled c] s' \<and> worker_reaches P E n s s' \<and>
    serve (plat_can_fork P) (session_store T s) c a (session_store T s') \<and> s_pc s' = At_test \<and> boundary_shape b' \<and>
    fd_in (session_io s') (res_fd (p_conn (s_process s'))) = rest \<and>
    fd_out (session_io s') (req_fd (p_conn (s_process s))) = fd_out (session_io s) (req_fd (p_conn (s_process s))) @
      frame_bytes b' (stringify (plat_json P) (MData (fst a) (snd a)))"
proof -
  have "with_input (b @ request_text P c @ b @ rest) s = s" using assms(7) with_input_fields(7) [of s] by simp
  with answer_any_boundary [OF assms(1-5,8,9), where rest = rest and E = E and n = n] assms(6) show ?thesis
    using session_run_reaches by metis
qed

text \<open>
  A request for a command that arrives while there is room in the table is received, handled as the
  store says, and answered with one whole frame, and the worker is back at its test.
\<close>

theorem command_request_answered:
  assumes "process_ready P T (s_process s)" "s_pc s = At_test" "\<not> is_connection_closed (p_conn (s_process s))"
    "s_pending s = []" "s_current s + 1 < s_threads s" "frame_ok b (request_text P c)"
    "fd_in (session_io s) (res_fd (p_conn (s_process s))) = b @ request_text P c @ b @ rest"
    "message_ok (request_of c)" "fits P T (p_worker (s_process s)) c"
  shows "\<exists>s' a b'. session_run P T E n s [Received (request_text P c), Handled c] s' \<and> worker_reaches P E n s s' \<and>
    serve (plat_can_fork P) (session_store T s) c a (session_store T s') \<and> s_pc s' = At_test \<and> boundary_shape b' \<and>
    fd_in (session_io s') (res_fd (p_conn (s_process s'))) = rest \<and>
    fd_out (session_io s') (req_fd (p_conn (s_process s))) = fd_out (session_io s) (req_fd (p_conn (s_process s))) @
      frame_bytes b' (stringify (plat_json P) (MData (fst a) (snd a)))"
  using assms by (rule session_answers)

text \<open>A worker with the text of a logout in its pipe.\<close>

definition logout_session :: "tables session" where
  "logout_session = start_worker ((sample_process_of sample_tables (Some sample_user))\<lparr>p_worker :=
     (sample_worker sample_tables (Some sample_user))\<lparr>w_io := sample_io\<lparr>fd_in :=
       (\<lambda>fd. if fd = 5 then sample_boundary @ stringify flat_json MLogout @ sample_boundary @ ''x'' else [])\<rparr>\<rparr>\<rparr>) 2"

lemma logout_session_simps:
  "s_pc logout_session = At_test" "s_pending logout_session = []" "s_current logout_session = 0" "s_threads logout_session = 2"
  "p_conn (s_process logout_session) = sample_conn"
  "p_worker (s_process logout_session) = (sample_worker sample_tables (Some sample_user))\<lparr>w_io := sample_io\<lparr>fd_in :=
       (\<lambda>fd. if fd = 5 then sample_boundary @ stringify flat_json MLogout @ sample_boundary @ ''x'' else [])\<rparr>\<rparr>"
  by (simp_all add: logout_session_def start_worker_def sample_process_of_def del: stringify.simps)

lemma logout_session_ready: "process_ready (sample_platform tables_engine) (\<lambda>t. t) (s_process logout_session)"
  by (rule process_ready_io(1) [OF process_ready_sample [of "Some sample_user"]])
     (auto simp: logout_session_simps sample_process_of_def sample_io_def sample_rng_def rng_ok_def simp del: stringify.simps)

lemma logout_frame: "frame_ok sample_boundary (request_text (sample_platform tables_engine) Logout)"
  using frame_ok_logout by (simp add: request_text_def del: stringify.simps)

lemma logout_fits: "fits (sample_platform tables_engine) (\<lambda>t. t) (p_worker (s_process logout_session)) Logout"
  by (rule fits_Logout)

lemma logout_run:
  "\<exists>s'. session_run (sample_platform tables_engine) (\<lambda>t. t) (sample_fifo_env []) 8 logout_session
    [Received (request_text (sample_platform tables_engine) Logout), Handled Logout] s'"
  using session_answers [OF logout_session_ready _ _ _ _ logout_frame _ _ logout_fits, of "''x''" "sample_fifo_env []" 8]
  by (auto simp: logout_session_simps session_io_def request_text_def sample_conn_def is_connection_closed_def simp del: stringify.simps)

theorem command_request_answered_witness:
  "let P = sample_platform tables_engine; T = (\<lambda>t :: tables. t); s = logout_session
   in \<exists>s' a b'. session_run P T (sample_fifo_env []) 8 s [Received (request_text P Logout), Handled Logout] s' \<and>
    worker_reaches P (sample_fifo_env []) 8 s s' \<and>
    serve (plat_can_fork P) (session_store T s) Logout a (session_store T s') \<and> s_pc s' = At_test \<and> boundary_shape b' \<and>
    fd_in (session_io s') (res_fd (p_conn (s_process s'))) = ''x'' \<and>
    fd_out (session_io s') (req_fd (p_conn (s_process s))) = fd_out (session_io s) (req_fd (p_conn (s_process s))) @
      frame_bytes b' (stringify (plat_json P) (MData (fst a) (snd a)))"
  unfolding Let_def
  by (rule command_request_answered [OF logout_session_ready _ _ _ _ logout_frame _ _ logout_fits])
     (simp_all add: logout_session_simps session_io_def request_text_def sample_conn_def is_connection_closed_def del: stringify.simps)

theorem threads_serialise_on_store_witness:
  "\<exists>(p :: tables process) (s :: tables session) as. let P = sample_platform tables_engine; T = (\<lambda>t :: tables. t);
       es = [Received (request_text P Logout), Handled Logout]
   in trace (serve (plat_can_fork P)) (store_of T (p_worker p)) (handled es) as (session_store T s) \<and>
    (s_pc s \<noteq> Ended \<longrightarrow>
      mset (received es) = mset (map (request_text P) (handled es)) + mset (map snd (s_pending s)) \<and>
      (\<exists>bs. length bs = length as \<and> list_all boundary_shape bs \<and>
        fd_out (session_io s) (req_fd (p_conn p)) =
          fd_out (w_io (p_worker p)) (req_fd (p_conn p)) @ answer_frames (plat_json P) bs as))"
proof -
  let ?p = "(sample_process_of sample_tables (Some sample_user))\<lparr>p_worker := p_worker (s_process logout_session)\<rparr>"
  have start: "logout_session = start_worker ?p 2"
    by (simp add: logout_session_def start_worker_def sample_process_of_def post_status_def del: stringify.simps)
  have ready: "process_ready (sample_platform tables_engine) (\<lambda>t. t) ?p"
    using logout_session_ready by (simp add: process_ready_def)
  obtain s' where "session_run (sample_platform tables_engine) (\<lambda>t. t) (sample_fifo_env []) 8 (start_worker ?p 2)
      [Received (request_text (sample_platform tables_engine) Logout), Handled Logout] s'"
    using logout_run unfolding start [symmetric] by blast
  note serial = threads_serialise_on_store [OF ready this]
  show ?thesis
    unfolding Let_def by (rule exI [of _ ?p], rule exI [of _ s'], rule serial)
qed

end
