(* ===== verification/Client_Store.thy ===== *)
theory Client_Store
  imports Client_Lines Session_Store
begin

text \<open>
  From the keyboard to the store: a user types lines, the client of \<open>Client_Commands\<close> reads each of them,
  writes a request or refuses the line itself, the worker of \<open>Server\<close> receives what was written and answers,
  and the client tells the user what it reads. The bytes one side writes are the bytes the other reads.
  What the user sees is the file store of \<open>File_Store\<close>, one command after the other.
\<close>

section \<open>Client and worker\<close>

text \<open>The bytes a client can read, set; what a worker does with the bytes the client has written.\<close>

definition client_hears :: "string \<Rightarrow> client \<Rightarrow> client" where
  "client_hears t c = c\<lparr>c_io := (c_io c)\<lparr>fd_in := (fd_in (c_io c))(res_fd (c_conn c) := t)\<rparr>\<rparr>"

definition worker_turn ::
  "('j, 'db) platform \<Rightarrow> fifo_env \<Rightarrow> nat \<Rightarrow> string \<Rightarrow> 'db session \<Rightarrow> string \<Rightarrow> 'db session \<Rightarrow> bool" where
  "worker_turn P E n req s out s' \<longleftrightarrow>
     (if req = [] then s' = s \<and> out = []
      else (\<exists>self err e. answer_round P E n self err e (with_input req s) = Inr s') \<and>
        fd_out (session_io s') (req_fd (p_conn (s_process s))) = fd_out (session_io s) (req_fd (p_conn (s_process s))) @ out)"

text \<open>
  A line typed to a client that is connected to a worker, both waiting. What the client writes is what the
  worker receives, what the worker writes is what the client reads.
\<close>

definition turn ::
  "'j client_env \<Rightarrow> ('j, 'db) platform \<Rightarrow> fifo_env \<Rightarrow> nat \<Rightarrow>
   client \<times> 'db session \<Rightarrow> typed \<Rightarrow> int \<Rightarrow> client \<times> 'db session \<Rightarrow> bool" where
  "turn X P E n x k code x' \<longleftrightarrow> (\<exists>req out.
     type_line X k (client_hears out (fst x)) = Inr (code, fst x') \<and>
     fd_out (c_io (fst x')) (req_fd (c_conn (fst x))) = fd_out (c_io (fst x)) (req_fd (c_conn (fst x))) @ req \<and>
     worker_turn P E n req (snd x) out (snd x'))"

text \<open>Both wait, nothing is under way, and they agree on whether the user is logged in.\<close>

definition together :: "'j client_env \<Rightarrow> ('j, 'db) platform \<Rightarrow> ('db \<Rightarrow> tables) \<Rightarrow> client \<times> 'db session \<Rightarrow> bool" where
  "together X P T x \<longleftrightarrow> (let c = fst x; s = snd x in
     env_ok X \<and> ce_json X = plat_json P \<and> client_ready c \<and> fd_in (c_io c) (res_fd (c_conn c)) = [] \<and>
     process_ready P T (s_process s) \<and> s_pc s = At_test \<and> \<not> is_connection_closed (p_conn (s_process s)) \<and> s_pending s = [] \<and>
     fd_in (session_io s) (res_fd (p_conn (s_process s))) = [] \<and>
     (c_logged c \<longleftrightarrow> st_user (session_store T s) \<noteq> None))"

text \<open>
  A line with a command whose request and answers go through the buffers on the way: the frames, the
  queries, the decoder of a file; and there is room for one more thread.
\<close>

definition line_fits :: "'j client_env \<Rightarrow> ('j, 'db) platform \<Rightarrow> ('db \<Rightarrow> tables) \<Rightarrow> client \<times> 'db session \<Rightarrow> typed \<Rightarrow> bool" where
  "line_fits X P T x k \<longleftrightarrow> (\<forall>a \<in> set k. Utils.arg_ok (snd a)) \<and> (case meant (c_disk (fst x)) k of
       None \<Rightarrow> False
     | Some cmd \<Rightarrow> refused (c_logged (fst x)) cmd \<or>
         s_current (snd x) + 1 < s_threads (snd x) \<and> message_ok (request_of cmd) \<and> fits_frame (plat_json P) (request_of cmd) \<and>
         fits P T (p_worker (s_process (snd x))) cmd \<and>
         (\<forall>a st'. serve (plat_can_fork P) (session_store T (snd x)) cmd a st' \<longrightarrow>
            fits_frame (plat_json P) (MData (fst a) (snd a)) \<and>
            (\<forall>y. cmd = Get y \<longrightarrow> decoder_room (ce_usable X) (fst a))))"

lemma client_hears_fields [simp]:
  "c_conn (client_hears t c) = c_conn c" "c_logged (client_hears t c) = c_logged c" "c_disk (client_hears t c) = c_disk c"
  "c_told (client_hears t c) = c_told c" "fd_out (c_io (client_hears t c)) = fd_out (c_io c)"
  "listeners (c_io (client_hears t c)) = listeners (c_io c)" "io_rng (c_io (client_hears t c)) = io_rng (c_io c)"
  "fd_in (c_io (client_hears t c)) (res_fd (c_conn c)) = t" "client_ready (client_hears t c) = client_ready c"
  "fd_in (c_io c) (res_fd (c_conn c)) = [] \<Longrightarrow> client_hears [] c = c"
  by (simp_all add: client_hears_def client_ready_def fun_upd_idem)

lemma serve_answers:
  assumes "serve F st k a st'" "\<not> refused (st_user st \<noteq> None) k" "\<And>y. k = Get y \<Longrightarrow> decoder_room (ce_usable X) (fst a)"
  shows "answers X k (fst a)" "logged_after k (fst a) (st_user st \<noteq> None) \<longleftrightarrow> st_user st' \<noteq> None"
  using assms
  by (induction rule: serve.induct) (auto simp: answers_def refused_def NOT_IN_DB_def LOGIN_FAILED_def)

lemma refused_serves:
  assumes "refused (st_user st \<noteq> None) k"
  obtains a where "serve F st k a st"
proof (cases "st_user st")
  case None
  with assms have "\<not> is_login k" by (simp add: refused_def)
  with that not_logged [of st k F] None show thesis by blast
next
  case (Some u)
  with assms have "is_login k" by (simp add: refused_def)
  then obtain c where "k = Login c" by (cases k) auto
  with that already_logged [of st u F c] Some show thesis by blast
qed

lemma user_stepI: "serve F st k a st' \<Longrightarrow> user_step F st k (seen (st_user st \<noteq> None) k a) st'"
  unfolding user_step_def by blast

section \<open>One turn\<close>

text \<open>What a line that fits does: to the client and the worker, and to the store.\<close>

definition turn_serves ::
  "('j, 'db) platform \<Rightarrow> ('db \<Rightarrow> tables) \<Rightarrow> client \<times> 'db session \<Rightarrow> typed \<Rightarrow> int \<Rightarrow> client \<times> 'db session \<Rightarrow> bool" where
  "turn_serves P T x k code x' \<longleftrightarrow> c_disk (fst x') = c_disk (fst x) \<and>
     s_threads (snd x') = s_threads (snd x) \<and> s_current (snd x') \<le> s_current (snd x) + 1 \<and> (\<exists>cmd ts. meant (c_disk (fst x)) k = Some cmd \<and>
     user_step (plat_can_fork P) (session_store T (snd x)) cmd (code, ts) (session_store T (snd x')) \<and>
     c_told (fst x') = c_told (fst x) @ ts)"

lemma refused_turn:
  assumes "together X P T x" "\<forall>a \<in> set k. Utils.arg_ok (snd a)" "meant (c_disk (fst x)) k = Some cmd"
    "refused (c_logged (fst x)) cmd"
  shows "\<exists>code. turn_serves P T x k code x \<and> turn X P E n x k code x \<and> (\<forall>code' x'. turn X P E n x k code' x' \<longrightarrow> code' = code \<and> x' = x)"
proof -
  have c: "client_ready (fst x)" "fd_in (c_io (fst x)) (res_fd (c_conn (fst x))) = []"
    "c_logged (fst x) = (st_user (session_store T (snd x)) \<noteq> None)"
    using assms(1) by (simp_all add: together_def Let_def)
  obtain a where a: "serve (plat_can_fork P) (session_store T (snd x)) cmd a (session_store T (snd x))"
    by (rule refused_serves [OF assms(4) [unfolded c(3)]])
  let ?code = "fst (seen (c_logged (fst x)) cmd a)"
  have line: "type_line X k (client_hears out (fst x)) = Inr (?code, client_hears out (fst x))" for out
    using line_refused [of "client_hears out (fst x)" k cmd X a] assms(2-4) c(1) by simp
  have "seen (c_logged (fst x)) cmd a = (?code, [])" using assms(4) by (simp add: seen_def)
  then have "turn_serves P T x k ?code x"
    using user_stepI [OF a] assms(3) c(3) unfolding turn_serves_def by auto
  moreover have "turn X P E n x k ?code x"
    unfolding turn_def by (rule exI [of _ "[]"], rule exI [of _ "[]"]) (use line [of "[]"] c(2) in \<open>simp add: worker_turn_def\<close>)
  moreover have "code' = ?code \<and> x' = x" if turn: "turn X P E n x k code' x'" for code' x'
  proof -
    obtain req out where t: "type_line X k (client_hears out (fst x)) = Inr (code', fst x')"
      "fd_out (c_io (fst x')) (req_fd (c_conn (fst x))) = fd_out (c_io (fst x)) (req_fd (c_conn (fst x))) @ req"
      "worker_turn P E n req (snd x) out (snd x')"
      using turn unfolding turn_def by blast
    have f: "code' = ?code" "fst x' = client_hears out (fst x)" using t(1) line [of out] by simp_all
    then have "req = []" using t(2) by simp
    then have "snd x' = snd x" "out = []" using t(3) by (simp_all add: worker_turn_def)
    with f c(2) show ?thesis by (simp add: prod_eq_iff)
  qed
  ultimately show ?thesis by blast
qed

text \<open>A line that is not refused and fits.\<close>

definition sent_fits ::
  "'j client_env \<Rightarrow> ('j, 'db) platform \<Rightarrow> ('db \<Rightarrow> tables) \<Rightarrow> client \<times> 'db session \<Rightarrow> typed \<Rightarrow> command \<Rightarrow> bool" where
  "sent_fits X P T x k cmd \<longleftrightarrow> together X P T x \<and> (\<forall>a \<in> set k. Utils.arg_ok (snd a)) \<and> meant (c_disk (fst x)) k = Some cmd \<and>
     \<not> refused (c_logged (fst x)) cmd \<and> s_current (snd x) + 1 < s_threads (snd x) \<and> message_ok (request_of cmd) \<and>
     fits_frame (plat_json P) (request_of cmd) \<and> fits P T (p_worker (s_process (snd x))) cmd \<and>
     (\<forall>a st'. serve (plat_can_fork P) (session_store T (snd x)) cmd a st' \<longrightarrow>
        fits_frame (plat_json P) (MData (fst a) (snd a)) \<and> (\<forall>y. cmd = Get y \<longrightarrow> decoder_room (ce_usable X) (fst a)))"

lemma sent_fitsD:
  assumes "sent_fits X P T x k cmd"
  shows "env_ok X" "ce_json X = plat_json P" "client_ready (fst x)" "\<not> is_connection_closed (p_conn (s_process (snd x)))"
    "c_logged (fst x) = (st_user (session_store T (snd x)) \<noteq> None)" "\<forall>a \<in> set k. Utils.arg_ok (snd a)"
    "meant (c_disk (fst x)) k = Some cmd" "\<not> refused (c_logged (fst x)) cmd"
  using assms unfolding sent_fits_def together_def Let_def by blast+

lemma sent_fits_store: "sent_fits X P T x k cmd \<Longrightarrow> \<not> refused (st_user (session_store T (snd x)) \<noteq> None) cmd"
  using sent_fitsD(5,8) [of X P T x k cmd] by simp

text \<open>A worker that has answered \<open>a\<close> to a command, in a frame with the boundary \<open>b\<close>, and waits again.\<close>

definition worker_answered ::
  "('j, 'db) platform \<Rightarrow> ('db \<Rightarrow> tables) \<Rightarrow> command \<Rightarrow> string \<times> nat \<Rightarrow> string \<Rightarrow> 'db session \<Rightarrow> 'db session \<Rightarrow> bool" where
  "worker_answered P T cmd a b s s' \<longleftrightarrow>
     serve (plat_can_fork P) (session_store T s) cmd a (session_store T s') \<and> boundary_shape b \<and>
     fd_out (session_io s') (req_fd (p_conn (s_process s))) = fd_out (session_io s) (req_fd (p_conn (s_process s))) @
       frame_bytes b (stringify (plat_json P) (MData (fst a) (snd a))) \<and>
     process_ready P T (s_process s') \<and> p_conn (s_process s') = p_conn (s_process s) \<and> s_pc s' = At_test \<and> s_pending s' = [] \<and>
     fd_in (session_io s') (res_fd (p_conn (s_process s'))) = [] \<and>
     s_threads s' = s_threads s \<and> s_current s' = s_current s + 1"

lemma worker_answers:
  assumes "sent_fits X P T x k cmd"
  obtains s' a b' where "\<And>b. boundary_shape b \<Longrightarrow>
      answer_round P E n self err e (with_input (frame_bytes b (stringify (plat_json P) (request_of cmd))) (snd x)) = Inr s'"
    "worker_answered P T cmd a b' (snd x) s'"
proof -
  let ?s = "snd x"
  have s: "process_ready P T (s_process ?s)" "s_pc ?s = At_test" "\<not> is_connection_closed (p_conn (s_process ?s))" "s_pending ?s = []"
    "s_current ?s + 1 < s_threads ?s" "message_ok (request_of cmd)" "fits P T (p_worker (s_process ?s)) cmd"
    using assms by (simp_all add: sent_fits_def together_def Let_def)
  have "frame_ok b (request_text P cmd)" if "boundary_shape b" for b
    using assms that by (simp add: sent_fits_def fits_frame_def request_text_def)
  with answer_any_boundary [OF s, where rest = "[]" and E = E and n = n and self = self and err = err and e = e] that show thesis
    unfolding request_text_def frame_bytes_def append_Nil2 worker_answered_def by blast
qed

text \<open>The client and the worker after the answer \<open>a\<close>.\<close>

definition turn_done ::
  "'j client_env \<Rightarrow> ('j, 'db) platform \<Rightarrow> ('db \<Rightarrow> tables) \<Rightarrow> client \<times> 'db session \<Rightarrow> typed \<Rightarrow> int \<Rightarrow> client \<times> 'db session \<Rightarrow> bool" where
  "turn_done X P T x k code x' \<longleftrightarrow> turn_serves P T x k code x' \<and> together X P T x'"

lemma client_answered:
  assumes "sent_fits X P T x k cmd" "worker_answered P T cmd a b' (snd x) s'"
    "out = frame_bytes b' (stringify (plat_json P) (MData (fst a) (snd a)))"
  obtains c' where "type_line X k (client_hears out (fst x)) = Inr (code_of cmd (fst a), c')"
    "turn_done X P T x k (code_of cmd (fst a)) (c', s')"
    "\<exists>b. boundary_shape b \<and> fd_out (c_io c') (req_fd (c_conn (fst x))) =
       fd_out (c_io (fst x)) (req_fd (c_conn (fst x))) @ frame_bytes b (stringify (plat_json P) (request_of cmd))"
proof -
  let ?c = "fst x" and ?s = "snd x"
  let ?d = "client_hears out ?c"
  note t = sent_fitsD [OF assms(1)] and w = assms(2) [unfolded worker_answered_def]
  have serve: "serve (plat_can_fork P) (session_store T ?s) cmd a (session_store T s')" using w by blast
  have f: "fits_frame (plat_json P) (MData (fst a) (snd a))" "\<And>y. cmd = Get y \<Longrightarrow> decoder_room (ce_usable X) (fst a)"
    using assms(1) serve unfolding sent_fits_def by blast+
  note ans = serve_answers [OF serve sent_fits_store [OF assms(1)] f(2)]
  have "answer_waits X (MData (fst a) (snd a)) [] ?d"
    unfolding answer_waits_def t(2) using f(1) w assms(3) by (intro exI [of _ b']) (simp add: fits_frame_def del: stringify.simps)
  then obtain v where v: "type_line X k ?d = Inr (code_of cmd (fst a), after_answer cmd (fst a) (?d\<lparr>c_io := v\<rparr>))"
    "asked X (request_of cmd) [] ?d v"
    using line_answered [OF t(1), of ?d k cmd "fst a" "snd a" "[]"] t ans(1) by auto
  let ?c' = "after_answer cmd (fst a) (?d\<lparr>c_io := v\<rparr>)"
  note asked = asked_facts [OF v(2)]
  have c': "client_ready ?c'" "fd_in (c_io ?c') (res_fd (c_conn ?c')) = []" "c_disk ?c' = c_disk ?c"
    "c_logged ?c' = (st_user (session_store T s') \<noteq> None)" "c_told ?c' = c_told ?c @ [told_of cmd (fst a)]"
    using asked t(3,5) ans(2) by (simp_all add: after_answer_def client_ready_def)
  have "seen (c_logged ?c) cmd a = (code_of cmd (fst a), [told_of cmd (fst a)])" using t(8) by (simp add: seen_def)
  then have "turn_serves P T x k (code_of cmd (fst a)) (?c', s')"
    using user_stepI [OF serve] t(5,7) c'(3,5) w unfolding turn_serves_def by auto
  moreover have "together X P T (?c', s')"
    using t(1,2,4) c' w unfolding together_def Let_def fst_conv snd_conv by (elim conjE, intro conjI) simp_all
  moreover obtain b where "boundary_shape b" "fd_out (c_io ?c') (req_fd (c_conn ?c)) =
       fd_out (c_io ?c) (req_fd (c_conn ?c)) @ frame_bytes b (stringify (plat_json P) (request_of cmd))"
    using asked(1) t(2) by (auto simp: after_answer_def)
  ultimately show thesis using that [OF v(1)] unfolding turn_done_def by blast
qed

lemma frame_not_empty: "boundary_shape b \<Longrightarrow> frame_bytes b t \<noteq> []"
  by (auto simp: frame_bytes_def boundary_shape_def BOUNDARY_PREFIX_def)

lemma sent_turn:
  assumes "sent_fits X P T x k cmd" "turn X P E n x k code x'"
  shows "turn_done X P T x k code x'"
proof -
  let ?c = "fst x" and ?s = "snd x"
  obtain req out where t: "type_line X k (client_hears out ?c) = Inr (code, fst x')"
    "fd_out (c_io (fst x')) (req_fd (c_conn ?c)) = fd_out (c_io ?c) (req_fd (c_conn ?c)) @ req" "worker_turn P E n req ?s out (snd x')"
    using assms(2) unfolding turn_def by blast
  note X = sent_fitsD [OF assms(1)]
  have "wrote X cmd (client_hears out ?c) (fst x')" by (rule line_writes [OF X(1) _ X(6) _ _ t(1)]) (use X in simp_all)
  then obtain b where b: "boundary_shape b" "req = frame_bytes b (stringify (plat_json P) (request_of cmd))"
    using X(2) t(2) by (auto simp: wrote_def)
  then have "req \<noteq> []" by (simp add: frame_not_empty)
  with t(3) obtain self err e where w: "answer_round P E n self err e (with_input req ?s) = Inr (snd x')"
    "fd_out (session_io (snd x')) (req_fd (p_conn (s_process ?s))) = fd_out (session_io ?s) (req_fd (p_conn (s_process ?s))) @ out"
    by (auto simp: worker_turn_def)
  show ?thesis
  proof (rule worker_answers [OF assms(1), of E n self err e])
    fix s' a b'
    assume s': "\<And>b. boundary_shape b \<Longrightarrow>
        answer_round P E n self err e (with_input (frame_bytes b (stringify (plat_json P) (request_of cmd))) ?s) = Inr s'"
      "worker_answered P T cmd a b' ?s s'"
    then have x': "snd x' = s'" "out = frame_bytes b' (stringify (plat_json P) (MData (fst a) (snd a)))"
      using s'(1) [OF b(1)] w b(2) by (simp_all add: worker_answered_def del: stringify.simps)
    show ?thesis
      by (rule client_answered [OF assms(1) s'(2) x'(2)]) (use t(1) x'(1) in \<open>cases x'; simp\<close>)
  qed
qed

lemma sent_progress:
  assumes "sent_fits X P T x k cmd"
  shows "\<exists>code x'. turn X P E n x k code x'"
proof (rule worker_answers [OF assms, of E n 0 "comm_error 0 []" "comm_error 0 []"])
  let ?c = "fst x" and ?s = "snd x"
  fix s' a b'
  assume s': "\<And>b. boundary_shape b \<Longrightarrow> answer_round P E n 0 (comm_error 0 []) (comm_error 0 [])
        (with_input (frame_bytes b (stringify (plat_json P) (request_of cmd))) ?s) = Inr s'"
    "worker_answered P T cmd a b' ?s s'"
  let ?out = "frame_bytes b' (stringify (plat_json P) (MData (fst a) (snd a)))"
  show ?thesis
  proof (rule client_answered [OF assms s'(2) refl])
    fix c'
    assume c': "type_line X k (client_hears ?out ?c) = Inr (code_of cmd (fst a), c')"
      "\<exists>b. boundary_shape b \<and> fd_out (c_io c') (req_fd (c_conn ?c)) =
         fd_out (c_io ?c) (req_fd (c_conn ?c)) @ frame_bytes b (stringify (plat_json P) (request_of cmd))"
    then obtain b where b: "boundary_shape b" "fd_out (c_io c') (req_fd (c_conn ?c)) =
         fd_out (c_io ?c) (req_fd (c_conn ?c)) @ frame_bytes b (stringify (plat_json P) (request_of cmd))" by blast
    have "worker_turn P E n (frame_bytes b (stringify (plat_json P) (request_of cmd))) ?s ?out s'"
      unfolding worker_turn_def using s'(1) [OF b(1)] s'(2) frame_not_empty [OF b(1)]
      by (auto simp: worker_answered_def)
    with c'(1) b(2) have "turn X P E n x k (code_of cmd (fst a)) (c', s')"
      unfolding turn_def fst_conv snd_conv by blast
    then show ?thesis by blast
  qed
qed

section \<open>Sessions\<close>

definition fit_turn ::
  "'j client_env \<Rightarrow> ('j, 'db) platform \<Rightarrow> ('db \<Rightarrow> tables) \<Rightarrow> fifo_env \<Rightarrow> nat \<Rightarrow>
   client \<times> 'db session \<Rightarrow> typed \<Rightarrow> int \<Rightarrow> client \<times> 'db session \<Rightarrow> bool" where
  "fit_turn X P T E n x k code x' \<longleftrightarrow> line_fits X P T x k \<and> turn X P E n x k code x'"

lemma line_fits_cases:
  assumes "together X P T x" "line_fits X P T x k"
  obtains (refused) cmd where "\<forall>a \<in> set k. Utils.arg_ok (snd a)" "meant (c_disk (fst x)) k = Some cmd" "refused (c_logged (fst x)) cmd"
  | (sent) cmd where "sent_fits X P T x k cmd"
proof -
  obtain cmd where cmd: "meant (c_disk (fst x)) k = Some cmd"
    using assms(2) unfolding line_fits_def by (cases "meant (c_disk (fst x)) k") simp_all
  show thesis
  proof (cases "refused (c_logged (fst x)) cmd")
    case True
    with refused cmd assms(2) show thesis unfolding line_fits_def by blast
  next
    case False
    with assms cmd have "sent_fits X P T x k cmd" unfolding line_fits_def sent_fits_def by (simp only: option.case) blast
    then show thesis by (rule sent)
  qed
qed

lemma fit_turn_done: "together X P T x \<Longrightarrow> fit_turn X P T E n x k code x' \<Longrightarrow> turn_done X P T x k code x'"
  unfolding fit_turn_def
proof (elim conjE)
  assume t: "together X P T x" "line_fits X P T x k" "turn X P E n x k code x'"
  from t(1,2) show ?thesis
  proof (cases rule: line_fits_cases)
    case (refused cmd)
    from refused_turn [OF t(1) refused, of E n] t(1,3) show ?thesis unfolding turn_done_def by blast
  next
    case (sent cmd)
    from sent t(3) show ?thesis by (rule sent_turn)
  qed
qed

lemma fit_turn_progress:
  assumes "together X P T x" "line_fits X P T x k"
  shows "\<exists>code x'. turn X P E n x k code x'"
  using assms
proof (cases rule: line_fits_cases)
  case (refused cmd)
  from refused_turn [OF assms(1) refused] show ?thesis by blast
next
  case (sent cmd)
  then show ?thesis by (rule sent_progress)
qed

definition session_serves ::
  "('j, 'db) platform \<Rightarrow> ('db \<Rightarrow> tables) \<Rightarrow> client \<times> 'db session \<Rightarrow> typed list \<Rightarrow> command list \<Rightarrow>
   (int \<times> told list) list \<Rightarrow> client \<times> 'db session \<Rightarrow> bool" where
  "session_serves P T x ks cmds outs x' \<longleftrightarrow> map (meant (c_disk (fst x))) ks = map Some cmds \<and>
     trace (user_step (plat_can_fork P)) (session_store T (snd x)) cmds outs (session_store T (snd x')) \<and>
     c_told (fst x') = c_told (fst x) @ concat (map snd outs) \<and>
     s_threads (snd x') = s_threads (snd x) \<and> s_current (snd x') \<le> s_current (snd x) + length ks"

lemma session_simulation:
  "trace (fit_turn X P T E n) x ks codes x' \<Longrightarrow> together X P T x \<Longrightarrow>
   \<exists>cmds outs. session_serves P T x ks cmds outs x' \<and> codes = map fst outs \<and> together X P T x'"
proof (induction rule: trace.induct)
  case (trace_nil x)
  then show ?case by (auto simp: session_serves_def intro: trace.trace_nil)
next
  case (trace_cons x k code x1 ks codes x')
  have turn: "turn_serves P T x k code x1" "together X P T x1"
    using fit_turn_done [OF trace_cons.prems trace_cons.hyps(1)] by (simp_all add: turn_done_def)
  obtain cmds outs where ih: "session_serves P T x1 ks cmds outs x'" "codes = map fst outs" "together X P T x'"
    using trace_cons.IH turn(2) by blast
  obtain cmd ts where one: "c_disk (fst x1) = c_disk (fst x)" "meant (c_disk (fst x)) k = Some cmd"
    "user_step (plat_can_fork P) (session_store T (snd x)) cmd (code, ts) (session_store T (snd x1))"
    "c_told (fst x1) = c_told (fst x) @ ts" "s_threads (snd x1) = s_threads (snd x)" "s_current (snd x1) \<le> s_current (snd x) + 1"
    using turn(1) unfolding turn_serves_def by blast
  have "session_serves P T x (k # ks) (cmd # cmds) ((code, ts) # outs) x'"
    using ih(1) one trace.trace_cons [where step = "user_step (plat_can_fork P)", OF one(3)] by (simp add: session_serves_def)
  with ih(2,3) show ?case by (intro exI [of _ "cmd # cmds"] exI [of _ "(code, ts) # outs"]) simp
qed

text \<open>A user's session on the store: what it leaves of a file.\<close>

lemma user_trace_keeps:
  "trace (user_step F) st ks outs st' \<Longrightarrow> keeps_file u al d st \<Longrightarrow> Logout \<notin> set ks \<Longrightarrow> lower al \<notin> {''path'', ''alias''} \<Longrightarrow>
   keeps_file u al d st'"
proof (induction rule: trace.induct)
  case (trace_cons st k out st1 ks outs st')
  then obtain a where "serve F st k a st1" by (auto simp: user_step_def)
  then have "keeps_file u al d st1" using keeps_file_step trace_cons.prems by fastforce
  with trace_cons show ?case by simp
qed

lemma user_get_kept:
  assumes "user_step F st (Get \<lparr>get_path = al\<rparr>) out st'" "keeps_file u al d st" "nul_free d"
  shows "out = (COMMAND_OK, [Told_file d])"
proof -
  obtain a where a: "serve F st (Get \<lparr>get_path = al\<rparr>) a st'" "out = seen (st_user st \<noteq> None) (Get \<lparr>get_path = al\<rparr>) a"
    using assms(1) unfolding user_step_def by blast
  have "a = (raw_text d, length d)" using get_kept_file [OF a(1)] assms(2) by simp
  moreover have "takeWhile (\<lambda>c. c \<noteq> ZERO) d = d" using assms(3) by (auto simp: nul_free_def takeWhile_eq_all_conv)
  ultimately show ?thesis
    using a(2) assms(2) by (simp add: seen_def refused_def keeps_file_def code_of_def)
qed

lemma user_post_keeps:
  assumes "user_step F st (Post (post_of al d)) out st'" "st_user st = Some u" "files_found (st_tables st) al (fs_home u) = []"
    "lower al \<notin> {''path'', ''alias''}"
  shows "keeps_file u al d st'" "out = (COMMAND_OK, [Told_string ''File OK''])"
proof -
  obtain a where a: "serve F st (Post (post_of al d)) a st'" "out = seen (st_user st \<noteq> None) (Post (post_of al d)) a"
    using assms(1) unfolding user_step_def by blast
  have "keeps_file u (post_dest (post_of al d)) d st' \<and> a = (''File OK'', 7)"
    by (rule post_keeps_file [OF a(1) assms(2)]) (use assms(3,4) in \<open>simp_all add: post_of_def\<close>)
  then show "keeps_file u al d st'" "out = (COMMAND_OK, [Told_string ''File OK''])"
    using a(2) assms(2) by (simp_all add: seen_def refused_def code_of_def post_of_def)
qed

section \<open>Properties\<close>


lemma typed_post_get:
  assumes "together X P T x" "trace (fit_turn X P T E n) x (k # ks @ [k']) codes x'"
    "meant (c_disk (fst x)) k = Some (Post (post_of al d))" "meant (c_disk (fst x)) k' = Some (Get \<lparr>get_path = al\<rparr>)"
    "Some Logout \<notin> meant (c_disk (fst x)) ` set ks" "st_user (session_store T (snd x)) = Some u"
    "files_found (st_tables (session_store T (snd x))) al (fs_home u) = []" "lower al \<notin> {''path'', ''alias''}" "nul_free d"
  shows "\<exists>cs ts. codes = COMMAND_OK # cs @ [COMMAND_OK] \<and>
    c_told (fst x') = c_told (fst x) @ Told_string ''File OK'' # ts @ [Told_file d]"
proof -
  let ?F = "plat_can_fork P" and ?st = "session_store T (snd x)" and ?st' = "session_store T (snd x')"
  obtain cmds outs where s: "session_serves P T x (k # ks @ [k']) cmds outs x'" "codes = map fst outs"
    using session_simulation [OF assms(2,1)] by blast
  then obtain cs where cs: "cmds = Post (post_of al d) # cs @ [Get \<lparr>get_path = al\<rparr>]" "map (meant (c_disk (fst x))) ks = map Some cs"
    using assms(3,4) by (auto simp: session_serves_def map_eq_append_conv Cons_eq_map_conv append_eq_map_conv)
  have lo: "Logout \<notin> set cs"
  proof
    assume "Logout \<in> set cs"
    then have "Some Logout \<in> set (map Some cs)" by simp
    with assms(5) show False unfolding cs(2) [symmetric] by simp
  qed
  have "trace (user_step ?F) ?st (Post (post_of al d) # (cs @ [Get \<lparr>get_path = al\<rparr>])) outs ?st'"
    using s(1) cs(1) by (simp add: session_serves_def)
  then obtain o1 st1 os where t: "user_step ?F ?st (Post (post_of al d)) o1 st1" "outs = o1 # os"
    "trace (user_step ?F) st1 (cs @ [Get \<lparr>get_path = al\<rparr>]) os ?st'" by (auto elim!: trace_cons_elim)
  obtain ms o2 st2 where t2: "os = ms @ [o2]" "trace (user_step ?F) st1 cs ms st2" "user_step ?F st2 (Get \<lparr>get_path = al\<rparr>) o2 ?st'"
    using trace_snoc [OF t(3)] by blast
  note p = user_post_keeps [OF t(1) assms(6-8)]
  have "keeps_file u al d st2" by (rule user_trace_keeps [OF t2(2) p(1) lo assms(8)])
  then have "o2 = (COMMAND_OK, [Told_file d])" by (rule user_get_kept [OF t2(3) _ assms(9)])
  with s t(2) t2(1) p(2) show ?thesis
    by (intro exI [of _ "map fst ms"] exI [of _ "concat (map snd ms)"]) (simp add: session_serves_def)
qed



section \<open>A concrete session\<close>

definition sample_joint :: "fs_user_t option \<Rightarrow> client \<times> tables session" where
  "sample_joint u = ((sample_user_of [] (u \<noteq> None))\<lparr>c_disk := \<lparr>files = [''f'' \<mapsto> ''hi''], can_create = (\<lambda>_. True), short_writes = []\<rparr>\<rparr>,
     start_worker (sample_process_of sample_tables u) 8)"

definition post_line :: typed where "post_line = [(1, ''post''), (1, ''x''), (0, ''f'')]"
definition get_line :: typed where "get_line = [(1, ''get''), (0, ''x'')]"
definition login_line :: typed where "login_line = [(1, ''login''), (1, ''ana''), (0, ''x'')]"

lemma together_sample: "together sample_env (sample_platform tables_engine) (\<lambda>t. t) (sample_joint u)"
  using process_ready_sample [of u]
  by (auto simp: together_def sample_joint_def env_ok_def client_ready_def start_worker_def session_store_def session_io_def
      process_ready_def sample_process_of_def granule_size_def sample_conn_def is_connection_closed_def is_connection_open_def
      sample_user_of_def sample_io_def sample_rng_def rng_ok_def)

lemma store_sample:
  "session_store (\<lambda>t. t) (snd (sample_joint u)) = \<lparr>st_user = u, st_tables = sample_tables, st_files = (\<lambda>_. None), st_folders = []\<rparr>"
  by (simp add: sample_joint_def session_store_def start_worker_def store_of_def sample_process_of_def init_sqlite_server_def sample_disk_def)

lemma sample_joint_simps:
  "c_logged (fst (sample_joint u)) = (u \<noteq> None)" "files (c_disk (fst (sample_joint u))) = [''f'' \<mapsto> ''hi'']"
  "s_threads (snd (sample_joint u)) = 8" "s_current (snd (sample_joint u)) = 0"
  "p_worker (s_process (snd (sample_joint u))) = sample_worker sample_tables u"
  by (simp_all add: sample_joint_def start_worker_def sample_process_of_def)

lemma lines_meant:
  "files D ''f'' = Some ''hi'' \<Longrightarrow> meant D post_line = Some (Post (post_of ''x'' ''hi''))"
  "meant D get_line = Some (Get \<lparr>get_path = ''x''\<rparr>)" "meant D login_line = Some (Login (ana_login ''x''))"
  by (simp_all add: meant_def post_line_def get_line_def login_line_def initialize_commands_def new_command_def login_of_def ana_login_def)

lemma lines_arg_ok:
  "\<forall>a \<in> set post_line. Utils.arg_ok (snd a)" "\<forall>a \<in> set get_line. Utils.arg_ok (snd a)" "\<forall>a \<in> set login_line. Utils.arg_ok (snd a)"
  by (simp_all add: post_line_def get_line_def login_line_def Utils.arg_ok_def)

lemma fits_more:
  "fits_frame flat_json (MLogin (ana_login ''x''))" "fits_frame flat_json (MData NOT_IN_DB 17)"
  "fits_frame flat_json (MData ''FILE EXISTS'' 11)"
  by (rule fits_frame_eval, code_simp)+

lemma login_line_fits: "line_fits sample_env (sample_platform tables_engine) (\<lambda>t. t) (sample_joint None) login_line"
  using fits_ana fits_more(1) fits_sample(5,6) lines_arg_ok(3)
  by (auto simp: line_fits_def lines_meant sample_joint_simps store_sample refused_def ana_login_def
      simp del: stringify.simps elim!: serve_login_elim)

lemma room_not_in_db: "decoder_room granule_size NOT_IN_DB"
  by (simp add: decoder_room_def granule_size_def NOT_IN_DB_def)

lemma get_line_fits: "line_fits sample_env (sample_platform tables_engine) (\<lambda>t. t) (sample_joint (Some sample_user)) get_line"
proof -
  have e: "files_found sample_tables ''x'' ''/fs/ana'' = []" by code_simp
  have f: "fits (sample_platform tables_engine) (\<lambda>t. t) (sample_worker sample_tables (Some sample_user)) (Get \<lparr>get_path = ''x''\<rparr>)"
    using lookup_fits_sample by (simp add: fits_of_store granule_size_def sample_user_def init_sqlite_server_def)
  have "fits_frame flat_json (MData (fst a) (snd a)) \<and> decoder_room granule_size (fst a)"
    if "serve True \<lparr>st_user = Some sample_user, st_tables = sample_tables, st_files = (\<lambda>_. None), st_folders = []\<rparr>
      (Get \<lparr>get_path = ''x''\<rparr>) a st'" for a st'
    using that by (rule serve_get_elim) (use e fits_more(2) room_not_in_db in \<open>auto simp: NOT_IN_DB_def sample_user_def\<close>)
  then show ?thesis
    using f fits_sample(2) lines_arg_ok(2)
    by (simp add: line_fits_def lines_meant sample_joint_simps store_sample refused_def del: stringify.simps)
qed



lemma fits_post_sample: "fits (sample_platform tables_engine) (\<lambda>t. t) (sample_worker sample_tables (Some sample_user)) (Post (post_of ''x'' ''hi''))"
proof -
  have "post_of ''x'' ''hi'' = sample_post" using raw_hi by (simp add: post_of_def sample_post_def numeral_2_eq_2)
  then show ?thesis using sample_post_fits by (simp add: request_fits_def sample_process_of_def)
qed

lemma post_line_fits: "line_fits sample_env (sample_platform tables_engine) (\<lambda>t. t) (sample_joint (Some sample_user)) post_line"
proof -
  have "fits_frame flat_json (MData (fst a) (snd a))"
    if "serve True \<lparr>st_user = Some sample_user, st_tables = sample_tables, st_files = (\<lambda>_. None), st_folders = []\<rparr>
      (Post (post_of ''x'' ''hi'')) a st'" for a st'
    using that by (rule serve_post_elim) (use fits_sample(3) fits_more(3) in auto)
  then show ?thesis
    using fits_post_sample fits_sample(1) lines_arg_ok(1) nul_free_raw_text [of "''hi''"]
    by (simp add: line_fits_def lines_meant sample_joint_simps store_sample refused_def post_of_def
        del: stringify.simps)
qed

lemma room_hi: "decoder_room granule_size (raw_text ''hi'')"
  by (simp add: decoder_room_def granule_size_def)

text \<open>A session that has posted the file, or shares its store with one that has, may get it.\<close>

lemma posted_sample:
  assumes "turn_done sample_env (sample_platform tables_engine) (\<lambda>t. t) (sample_joint (Some sample_user)) post_line code x"
  shows "keeps_file sample_user ''x'' ''hi'' (session_store (\<lambda>t. t) (snd x))"
    "st_tables (session_store (\<lambda>t. t) (snd x)) = add_alias ''/fs/ana'' ''x'' sample_tables"
    "s_threads (snd x) = 8" "s_current (snd x) \<le> 1" "together sample_env (sample_platform tables_engine) (\<lambda>t. t) x"
proof -
  let ?st = "\<lparr>st_user = Some sample_user, st_tables = sample_tables, st_files = (\<lambda>_. None), st_folders = []\<rparr>"
  let ?st1 = "session_store (\<lambda>t. t) (snd x)"
  have e: "files_found sample_tables ''x'' ''/fs/ana'' = []" "lower ''x'' \<notin> {''path'', ''alias''}" by code_simp+
  show d: "s_threads (snd x) = 8" "s_current (snd x) \<le> 1" "together sample_env (sample_platform tables_engine) (\<lambda>t. t) x"
    using assms by (auto simp: turn_done_def turn_serves_def sample_joint_simps)
  have "\<exists>ts. user_step True ?st (Post (post_of ''x'' ''hi'')) (code, ts) ?st1"
    using assms by (auto simp: turn_done_def turn_serves_def sample_joint_simps store_sample lines_meant)
  then obtain ts where ts: "user_step True ?st (Post (post_of ''x'' ''hi'')) (code, ts) ?st1" by blast
  show "keeps_file sample_user ''x'' ''hi'' ?st1"
    by (rule user_post_keeps(1) [OF ts]) (use e in \<open>simp_all add: sample_user_def\<close>)
  show "st_tables ?st1 = add_alias ''/fs/ana'' ''x'' sample_tables"
    using ts e(1) by (auto simp: user_step_def post_of_def sample_user_def elim!: serve_post_elim)
qed

lemma get_kept_fits:
  assumes "together sample_env (sample_platform tables_engine) (\<lambda>t. t) x" "s_current (snd x) + 1 < s_threads (snd x)"
    "keeps_file sample_user ''x'' ''hi'' (session_store (\<lambda>t. t) (snd x))"
    "st_tables (session_store (\<lambda>t. t) (snd x)) = add_alias ''/fs/ana'' ''x'' sample_tables"
  shows "line_fits sample_env (sample_platform tables_engine) (\<lambda>t. t) x get_line"
proof -
  have e: "rows_ok (path_rows (files_found (add_alias ''/fs/ana'' ''x'' sample_tables) ''x'' ''/fs/ana''))" by code_simp
  have f: "fits (sample_platform tables_engine) (\<lambda>t. t) (p_worker (s_process (snd x))) (Get \<lparr>get_path = ''x''\<rparr>)"
    using assms(3,4) lookup_fits_sample e
    by (simp add: fits_of_store keeps_file_def session_store_def granule_size_def sample_user_def lookup_fits_def)
  have "fits_frame flat_json (MData (fst a) (snd a)) \<and> decoder_room granule_size (fst a)"
    if "serve True (session_store (\<lambda>t. t) (snd x)) (Get \<lparr>get_path = ''x''\<rparr>) a st'" for a st'
    using get_kept_file [OF that] assms(3) fits_sample(4) room_hi by simp
  moreover have "\<not> refused (c_logged (fst x)) (Get \<lparr>get_path = ''x''\<rparr>)"
    using assms(1,3) by (simp add: refused_def together_def Let_def keeps_file_def)
  ultimately show ?thesis
    using f assms(2) fits_sample(2) lines_arg_ok(2)
    by (simp add: line_fits_def lines_meant del: stringify.simps)
qed


end
