(* ===== verification/Many_Workers.thy ===== *)
theory Many_Workers
  imports Client_Store
begin

text \<open>
  Several workers at once. Each connection has a worker process of its own, with its session, its streams and
  its threads; the child that runs SQLite and the disk are shared by all. As long as a request is not cut
  by a request of another worker, the server is one store with several sessions. The calls of the code
  do not keep requests apart: \<open>process_post_cmd\<close> looks up an alias and inserts it in two queries, and two
  workers between them record it twice.
\<close>

section \<open>Workers that share a database and a disk\<close>

text \<open>Worker \<open>t\<close> with what it shares with \<open>s\<close> as \<open>s\<close> has left it.\<close>

definition share_worker :: "'db worker \<Rightarrow> 'db worker \<Rightarrow> 'db worker" where
  "share_worker w v = v\<lparr>w_link := w_link w, w_disk := w_disk w, w_folders := w_folders w\<rparr>"

definition share :: "'db session \<Rightarrow> 'db session \<Rightarrow> 'db session" where
  "share s t = t\<lparr>s_process := (s_process t)\<lparr>p_worker := share_worker (p_worker (s_process s)) (p_worker (s_process t))\<rparr>\<rparr>"

definition share_store :: "store \<Rightarrow> store \<Rightarrow> store" where
  "share_store s t = t\<lparr>st_tables := st_tables s, st_files := st_files s, st_folders := st_folders s\<rparr>"

text \<open>One worker makes a step of its loop or runs one of its threads; the others see what it has done.\<close>

inductive workers_step ::
  "('j, 'db) platform \<Rightarrow> ('db \<Rightarrow> tables) \<Rightarrow> fifo_env \<Rightarrow> nat \<Rightarrow> 'db session list \<Rightarrow> (nat \<times> event) list \<Rightarrow> 'db session list \<Rightarrow> bool"
  for P T E n where
  one_worker: "i < length ss \<Longrightarrow> session_step P T E n (ss ! i) es s' \<Longrightarrow>
    workers_step P T E n ss (map (Pair i) es) (map (share s') (ss[i := s']))"

inductive workers_run ::
  "('j, 'db) platform \<Rightarrow> ('db \<Rightarrow> tables) \<Rightarrow> fifo_env \<Rightarrow> nat \<Rightarrow> 'db session list \<Rightarrow> (nat \<times> event) list \<Rightarrow> 'db session list \<Rightarrow> bool"
  for P T E n ss where
  workers_refl: "workers_run P T E n ss [] ss"
| workers_more: "workers_run P T E n ss es ss' \<Longrightarrow> workers_step P T E n ss' fs ss'' \<Longrightarrow> workers_run P T E n ss (es @ fs) ss''"

text \<open>The store with a session per worker: a command is a step of the session that gives it.\<close>

definition many_serve :: "bool \<Rightarrow> store list \<Rightarrow> nat \<times> command \<Rightarrow> string \<times> nat \<Rightarrow> store list \<Rightarrow> bool" where
  "many_serve F S k a S' \<longleftrightarrow> fst k < length S \<and>
     (\<exists>s'. serve F (S ! fst k) (snd k) a s' \<and> S' = map (share_store s') (S[fst k := s']))"

fun commands :: "(nat \<times> event) list \<Rightarrow> (nat \<times> command) list" where
  "commands [] = []"
| "commands ((i, Received t) # es) = commands es"
| "commands ((i, Handled c) # es) = (i, c) # commands es"

definition of_worker :: "nat \<Rightarrow> (nat \<times> event) list \<Rightarrow> event list" where
  "of_worker i es = map snd (filter (\<lambda>e. fst e = i) es)"

definition answers_of :: "nat \<Rightarrow> (nat \<times> command) list \<Rightarrow> (string \<times> nat) list \<Rightarrow> (string \<times> nat) list" where
  "answers_of i ks as = map snd (filter (\<lambda>x. fst (fst x) = i) (zip ks as))"

lemma commands_append: "commands (es @ fs) = commands es @ commands fs"
  by (induction es rule: commands.induct) simp_all

lemma commands_of_one: "commands (map (Pair i) es) = map (Pair i) (handled es)"
  by (induction es rule: handled.induct) simp_all

lemma of_worker_append: "of_worker i (es @ fs) = of_worker i es @ of_worker i fs"
  by (simp add: of_worker_def)

lemma of_worker_one: "of_worker j (map (Pair i) es) = (if i = j then es else [])"
  by (induction es) (simp_all add: of_worker_def split: if_splits)

lemma answers_of_append:
  "length ks = length as \<Longrightarrow> answers_of i (ks @ ks') (as @ as') = answers_of i ks as @ answers_of i ks' as'"
  by (simp add: answers_of_def)

lemma answers_of_one: "length cs = length as \<Longrightarrow> answers_of j (map (Pair i) cs) as = (if i = j then as else [])"
  by (induction cs as rule: list_induct2) (simp_all add: answers_of_def split: if_splits)

lemma share_simps [simp]:
  "s_pc (share s t) = s_pc t" "s_pending (share s t) = s_pending t" "s_current (share s t) = s_current t"
  "s_threads (share s t) = s_threads t" "session_io (share s t) = session_io t" "p_conn (s_process (share s t)) = p_conn (s_process t)"
  "share s s = s" "share s (share u t) = share s t" "share (share s u) t = share s t"
  by (simp_all add: share_def share_worker_def session_io_def)

lemma share_store_simps [simp]:
  "share_store s s = s" "share_store s (share_store u t) = share_store s t" "share_store (share_store s u) t = share_store s t"
  "st_user (share_store s t) = st_user t" "st_tables (share_store s t) = st_tables s" "st_files (share_store s t) = st_files s"
  by (simp_all add: share_store_def)

lemma session_store_share: "session_store T (share s t) = share_store (session_store T s) (session_store T t)"
  by (simp add: session_store_def store_of_def share_store_def share_def share_worker_def)

lemma share_ready:
  assumes "process_ready P T (s_process s)" "process_ready P T (s_process t)"
  shows "process_ready P T (s_process (share s t))"
  using assms
  by (simp add: process_ready_def service_ready_def worker_ready_def share_def share_worker_def on_disk_def store_of_def)

section \<open>Requests of several workers are one sequence\<close>

definition workers_ready :: "('j, 'db) platform \<Rightarrow> ('db \<Rightarrow> tables) \<Rightarrow> 'db session list \<Rightarrow> bool" where
  "workers_ready P T ss \<longleftrightarrow> (\<forall>s \<in> set ss. process_ready P T (s_process s)) \<and> (\<forall>s \<in> set ss. \<forall>t \<in> set ss. share s t = t)"

lemma many_trace:
  assumes "trace (serve F) s cs as s'" "i < length S" "S ! i = s" "map (share_store s) S = S"
  shows "trace (many_serve F) S (map (Pair i) cs) as (map (share_store s') (S[i := s']))"
  using assms
proof (induction arbitrary: S rule: trace.induct)
  case (trace_nil s)
  then have "S[i := s] = S" by auto
  with trace_nil(3) show ?case by (auto intro: trace.trace_nil)
next
  case (trace_cons s c a s1 cs as s')
  let ?S = "map (share_store s1) (S[i := s1])"
  have S: "i < length ?S" "?S ! i = s1" "map (share_store s1) ?S = ?S" using trace_cons.prems(1) by simp_all
  have "many_serve F S (i, c) a ?S"
    using trace_cons.hyps(1) trace_cons.prems by (auto simp: many_serve_def)
  moreover have "map (share_store s') (?S[i := s']) = map (share_store s') (S[i := s'])"
    using trace_cons.prems(1) by (intro nth_equalityI) (simp_all add: nth_list_update)
  ultimately show ?case using trace_cons.IH [OF S] by (auto intro: trace.trace_cons)
qed

definition workers_inv ::
  "('j, 'db) platform \<Rightarrow> ('db \<Rightarrow> tables) \<Rightarrow> 'db session list \<Rightarrow> (nat \<times> event) list \<Rightarrow> 'db session list \<Rightarrow> bool" where
  "workers_inv P T ss es ss' \<longleftrightarrow> workers_ready P T ss' \<and> length ss' = length ss \<and>
     (\<exists>as. trace (many_serve (plat_can_fork P)) (map (session_store T) ss) (commands es) as (map (session_store T) ss') \<and>
       (\<forall>i < length ss. s_pc (ss' ! i) \<noteq> Ended \<longrightarrow>
          req_fd (p_conn (s_process (ss' ! i))) = req_fd (p_conn (s_process (ss ! i))) \<and>
          written P (req_fd (p_conn (s_process (ss ! i)))) (fd_out (session_io (ss ! i)) (req_fd (p_conn (s_process (ss ! i)))))
            (answers_of i (commands es) as) (session_io (ss' ! i)) \<and>
          mset (map snd (s_pending (ss ! i))) + mset (received (of_worker i es)) =
            mset (map (request_text P) (handled (of_worker i es))) + mset (map snd (s_pending (ss' ! i)))))"

lemma workers_inv_refl: "workers_ready P T ss \<Longrightarrow> workers_inv P T ss [] ss"
  by (auto simp: workers_inv_def of_worker_def answers_of_def written_nil intro!: exI [of _ "[]"] trace.trace_nil)

lemma shared_store:
  assumes "workers_ready P T ss" "i < length ss"
  shows "map (share_store (session_store T (ss ! i))) (map (session_store T) ss) = map (session_store T) ss"
proof -
  have "share (ss ! i) t = t" if "t \<in> set ss" for t using assms that by (simp add: workers_ready_def)
  then have "share_store (session_store T (ss ! i)) (session_store T t) = session_store T t" if "t \<in> set ss" for t
    using session_store_share [of T "ss ! i" t] that by simp
  then show ?thesis by simp
qed

lemma workers_ready_step:
  assumes "workers_ready P T ss" "i < length ss" "process_ready P T (s_process s')"
  shows "workers_ready P T (map (share s') (ss[i := s']))"
proof -
  have "process_ready P T (s_process t)" if "t \<in> set (ss[i := s'])" for t
    using assms set_update_subset_insert [of ss i s'] that by (auto simp: workers_ready_def)
  then show ?thesis
    using share_ready [OF assms(3)] by (auto simp: workers_ready_def)
qed

lemma workers_inv_step:
  assumes "workers_inv P T ss es ss'" "workers_step P T E n ss' fs ss''"
  shows "workers_inv P T ss (es @ fs) ss''"
  using assms(2)
proof cases
  case (one_worker i gs s')
  let ?F = "plat_can_fork P" and ?S = "map (session_store T) ss'"
  obtain as where as: "workers_ready P T ss'" "length ss' = length ss"
    "trace (many_serve ?F) (map (session_store T) ss) (commands es) as ?S"
    "\<And>i. i < length ss \<Longrightarrow> s_pc (ss' ! i) \<noteq> Ended \<Longrightarrow>
          req_fd (p_conn (s_process (ss' ! i))) = req_fd (p_conn (s_process (ss ! i))) \<and>
          written P (req_fd (p_conn (s_process (ss ! i)))) (fd_out (session_io (ss ! i)) (req_fd (p_conn (s_process (ss ! i)))))
            (answers_of i (commands es) as) (session_io (ss' ! i)) \<and>
          mset (map snd (s_pending (ss ! i))) + mset (received (of_worker i es)) =
            mset (map (request_text P) (handled (of_worker i es))) + mset (map snd (s_pending (ss' ! i)))"
    using assms(1) unfolding workers_inv_def by blast
  have i: "i < length ss'" "i < length ss" using one_worker(3) as(2) by simp_all
  have "process_ready P T (s_process (ss' ! i))" using as(1) i(1) by (simp add: workers_ready_def)
  from session_step_effect [OF this one_worker(4)] obtain bs where bs: "process_ready P T (s_process s')"
    "trace (serve ?F) (session_store T (ss' ! i)) (handled gs) bs (session_store T s')"
    "s_pc s' \<noteq> Ended \<Longrightarrow> s_pc (ss' ! i) \<noteq> Ended \<and> req_fd (p_conn (s_process s')) = req_fd (p_conn (s_process (ss' ! i))) \<and>
       written P (req_fd (p_conn (s_process (ss' ! i)))) (fd_out (session_io (ss' ! i)) (req_fd (p_conn (s_process (ss' ! i))))) bs
         (session_io s') \<and>
       mset (map snd (s_pending (ss' ! i))) + mset (received gs) = mset (map (request_text P) (handled gs)) + mset (map snd (s_pending s'))"
    unfolding step_effect_def by blast
  have len: "length (commands es) = length as" "length (handled gs) = length bs"
    using trace_length [OF as(3)] trace_length [OF bs(2)] by simp_all
  have S: "i < length ?S" "?S ! i = session_store T (ss' ! i)" using i(1) by simp_all
  have "map (share_store (session_store T s')) (?S[i := session_store T s']) = map (session_store T) ss''"
    by (rule nth_equalityI) (use i(1) in \<open>simp_all add: one_worker(2) session_store_share nth_list_update\<close>)
  with many_trace [OF bs(2) S shared_store [OF as(1) i(1)]]
  have run: "trace (many_serve ?F) (map (session_store T) ss) (commands (es @ fs)) (as @ bs) (map (session_store T) ss'')"
    using trace_append [OF as(3)] unfolding one_worker(1) commands_append commands_of_one by simp
  have each: "req_fd (p_conn (s_process (ss'' ! j))) = req_fd (p_conn (s_process (ss ! j))) \<and>
      written P (req_fd (p_conn (s_process (ss ! j)))) (fd_out (session_io (ss ! j)) (req_fd (p_conn (s_process (ss ! j)))))
        (answers_of j (commands (es @ fs)) (as @ bs)) (session_io (ss'' ! j)) \<and>
      mset (map snd (s_pending (ss ! j))) + mset (received (of_worker j (es @ fs))) =
        mset (map (request_text P) (handled (of_worker j (es @ fs)))) + mset (map snd (s_pending (ss'' ! j)))"
    if j: "j < length ss" "s_pc (ss'' ! j) \<noteq> Ended" for j
  proof (cases "j = i")
    case True
    have s': "ss'' ! i = s'" using i(1) by (simp add: one_worker(2))
    with True j bs(3) have b: "s_pc (ss' ! i) \<noteq> Ended" "req_fd (p_conn (s_process s')) = req_fd (p_conn (s_process (ss' ! i)))"
      "written P (req_fd (p_conn (s_process (ss' ! i)))) (fd_out (session_io (ss' ! i)) (req_fd (p_conn (s_process (ss' ! i))))) bs
         (session_io s')"
      "mset (map snd (s_pending (ss' ! i))) + mset (received gs) = mset (map (request_text P) (handled gs)) + mset (map snd (s_pending s'))"
      by simp_all
    note a = as(4) [OF i(2) b(1)]
    show ?thesis
      using a b written_append [of P _ _ "answers_of i (commands es) as" "session_io (ss' ! i)" bs "session_io s'"]
      unfolding True s' one_worker(1) commands_append of_worker_append of_worker_one commands_of_one answers_of_append [OF len(1)]
        answers_of_one [OF len(2)] received_append handled_append
      by (simp add: ac_simps)
  next
    case False
    have s': "ss'' ! j = share s' (ss' ! j)" using False j(1) as(2) by (simp add: one_worker(2))
    then have "s_pc (ss' ! j) \<noteq> Ended" using j(2) by simp
    from as(4) [OF j(1) this] show ?thesis
      using False
      unfolding s' one_worker(1) commands_append of_worker_append of_worker_one commands_of_one answers_of_append [OF len(1)]
        answers_of_one [OF len(2)] received_append handled_append by simp
  qed
  have "length ss'' = length ss" using as(2) by (simp add: one_worker(2))
  with workers_ready_step [OF as(1) i(1) bs(1)] run each show ?thesis
    unfolding workers_inv_def one_worker(2) [symmetric] by blast
qed

lemma workers_run_inv: "workers_run P T E n ss es ss' \<Longrightarrow> workers_ready P T ss \<Longrightarrow> workers_inv P T ss es ss'"
  by (induction rule: workers_run.induct) (auto intro: workers_inv_refl workers_inv_step)

section \<open>A file of one worker in the session of another\<close>

text \<open>The file an alias stands for under a home, for whoever has this home.\<close>

definition has_file :: "string \<Rightarrow> string \<Rightarrow> string \<Rightarrow> store \<Rightarrow> bool" where
  "has_file home al d s \<longleftrightarrow> files_found (st_tables s) al home = [(home @ ''/'' @ al, al)] \<and>
     st_files s (''.'' @ home @ ''/'' @ al) = Some d"

lemma keeps_file_has: "keeps_file u al d s \<longleftrightarrow> st_user s = Some u \<and> has_file (fs_home u) al d s"
  by (auto simp: keeps_file_def has_file_def)

definition other_post :: "string \<Rightarrow> command \<Rightarrow> bool" where
  "other_post al c \<longleftrightarrow> (\<forall>x. c = Post x \<longrightarrow> post_dest x \<noteq> al \<and> CHR ''/'' \<notin> set (post_dest x))"

lemma path_alias: "h @ CHR ''/'' # a = h' @ CHR ''/'' # b \<Longrightarrow> CHR ''/'' \<notin> set a \<Longrightarrow> CHR ''/'' \<notin> set b \<Longrightarrow> a = b"
  by (auto simp: append_eq_append_conv2 append_eq_Cons_conv Cons_eq_append_conv)

lemma has_file_step:
  assumes "serve F s c a s'" "has_file home al d s" "other_post al c" "CHR ''/'' \<notin> set al" "lower al \<notin> {''path'', ''alias''}"
  shows "has_file home al d s'"
proof (cases "\<exists>x. c = Post x")
  case False
  then have "tb_files (st_tables s') = tb_files (st_tables s)" "st_files s' = st_files s" using serve_files [OF assms(1)] by auto
  then show ?thesis
    using assms(2) files_found_same [of "st_tables s'" "st_tables s"] by (simp add: has_file_def)
next
  case True
  then obtain x where x: "c = Post x" by blast
  then have o1: "post_dest x \<noteq> al" "CHR ''/'' \<notin> set (post_dest x)" using assms(3) by (simp_all add: other_post_def)
  have "serve F s (Post x) a s'" using assms(1) x by simp
  then show ?thesis
  proof (rule serve_post_elim)
    fix v e
    assume p: "s' = s\<lparr>st_tables := add_alias (fs_home v) (post_dest x) (st_tables s), st_files := (st_files s)(post_path v x \<mapsto> e)\<rparr>"
    have "post_path v x \<noteq> ''.'' @ home @ ''/'' @ al"
      using path_alias [of "fs_home v" "post_dest x" home al] o1 assms(4) by (auto simp: post_path_def)
    then show ?thesis
      using assms(2) p files_found_other [OF assms(5) o1(1)] by (simp add: has_file_def)
  qed (use assms(2) in simp_all)
qed

lemma has_file_share: "has_file home al d (share_store s t) = has_file home al d s"
  by (simp add: has_file_def)

lemma many_keeps:
  "trace (many_serve F) S ks as S' \<Longrightarrow> \<forall>s \<in> set S. has_file home al d s \<Longrightarrow> \<forall>k \<in> set ks. other_post al (snd k) \<Longrightarrow>
   CHR ''/'' \<notin> set al \<Longrightarrow> lower al \<notin> {''path'', ''alias''} \<Longrightarrow> \<forall>s \<in> set S'. has_file home al d s"
proof (induction rule: trace.induct)
  case (trace_cons S k a S1 ks as S')
  then obtain s' where s': "fst k < length S" "serve F (S ! fst k) (snd k) a s'" "S1 = map (share_store s') (S[fst k := s'])"
    by (auto simp: many_serve_def)
  have "has_file home al d s'"
    by (rule has_file_step [OF s'(2)]) (use trace_cons.prems s'(1) in simp_all)
  then have "\<forall>s \<in> set S1. has_file home al d s" by (auto simp: s'(3) has_file_share)
  with trace_cons show ?case by simp
qed

lemma many_post_get:
  assumes "trace (many_serve F) S ((i, Post c) # ks @ [(j, Get \<lparr>get_path = post_dest c\<rparr>)]) as S'"
    "st_user (S ! i) = Some u" "st_user (S' ! j) = Some v" "fs_home v = fs_home u"
    "files_found (st_tables (S ! i)) (post_dest c) (fs_home u) = []"
    "lower (post_dest c) \<notin> {''path'', ''alias''}" "CHR ''/'' \<notin> set (post_dest c)" "post_data c = raw_text d"
    "\<forall>k \<in> set ks. other_post (post_dest c) (snd k)"
  shows "\<exists>bs. as = (''File OK'', 7) # bs @ [(raw_text d, length d)] \<and> length bs = length ks"
proof -
  let ?g = "Get \<lparr>get_path = post_dest c\<rparr>"
  obtain a1 S1 os where t: "many_serve F S (i, Post c) a1 S1" "as = a1 # os" "trace (many_serve F) S1 (ks @ [(j, ?g)]) os S'"
    using assms(1) by (auto elim!: trace_cons_elim)
  obtain ms a2 S2 where t2: "os = ms @ [a2]" "trace (many_serve F) S1 ks ms S2" "many_serve F S2 (j, ?g) a2 S'"
    using trace_snoc [OF t(3)] by blast
  obtain s1 where s1: "serve F (S ! i) (Post c) a1 s1" "S1 = map (share_store s1) (S[i := s1])"
    using t(1) by (auto simp: many_serve_def)
  note k = post_keeps_file [OF s1(1) assms(2,5,6,8)]
  then have "\<forall>s \<in> set S1. has_file (fs_home u) (post_dest c) d s" by (auto simp: s1(2) has_file_share keeps_file_has)
  with many_keeps [OF t2(2)] assms(6,7,9) have S2: "\<forall>s \<in> set S2. has_file (fs_home u) (post_dest c) d s" by blast
  obtain s2 where s2: "j < length S2" "serve F (S2 ! j) ?g a2 s2" "S' = map (share_store s2) (S2[j := s2])"
    using t2(3) by (auto simp: many_serve_def)
  have "st_user s2 = Some v" using assms(3) s2(1,3) by simp
  moreover have "s2 = S2 ! j" using s2(2) by (auto elim!: serve_get_elim)
  ultimately have "keeps_file v (post_dest c) d (S2 ! j)" using S2 s2(1) assms(4) by (simp add: keeps_file_has)
  then have "a2 = (raw_text d, length d)" using get_kept_file [OF s2(2)] by simp
  with k t(2) t2(1) trace_length [OF t2(2)] show ?thesis by simp
qed

section \<open>Two posts of one alias\<close>

lemma add_alias_tables: "tb_files (add_alias h a t) = tb_files t @ [(h @ ''/'' @ a, a)]"
  by (simp add: add_alias_def)

lemma files_found_snoc:
  assumes "lower al \<notin> {''path'', ''alias''}"
  shows "files_found (add_alias home al t) al home = files_found t al home @ [(home @ ''/'' @ al, al)]"
  using assms by (simp add: files_found_def add_alias_def file_word_own under_home_prefix)

lemma second_post_told:
  assumes "trace (many_serve F) [s1, s2] ks as S'" "ks = [(0, Post p1), (1, Post p2)] \<or> ks = [(1, Post p2), (0, Post p1)]"
    "st_user s1 = Some u" "st_user s2 = Some v" "fs_home v = fs_home u" "post_dest p2 = post_dest p1"
    "lower (post_dest p1) \<notin> {''path'', ''alias''}"
  shows "as ! 1 = (''FILE EXISTS'', 11)"
proof -
  have two: "a2 = (''FILE EXISTS'', 11)"
    if p: "many_serve F S (i, Post c) a1 S1" "many_serve F S1 (j, Post c') a2 S2" "st_user (S ! i) = Some w" "st_user (S ! j) = Some w'"
      "fs_home w = fs_home u" "fs_home w' = fs_home u" "post_dest c = post_dest p1" "post_dest c' = post_dest p1" "i \<noteq> j"
    for S S1 S2 i j c c' a1 a2 w w'
  proof -
    obtain s where s: "i < length S" "serve F (S ! i) (Post c) a1 s" "S1 = map (share_store s) (S[i := s])"
      using p(1) by (auto simp: many_serve_def)
    have "files_found (st_tables s) (post_dest p1) (fs_home u) \<noteq> []"
      using s(2) by (rule serve_post_elim) (use p(3,5,7) files_found_snoc [OF assms(7)] in \<open>auto\<close>)
    moreover obtain s' where "j < length S1" "serve F (S1 ! j) (Post c') a2 s'"
      using p(2) by (auto simp: many_serve_def)
    moreover have "j < length S \<Longrightarrow> S1 ! j = share_store s (S ! j)" using p(9) by (simp add: s(3))
    ultimately show ?thesis using p(4,6,8) s(3) by (auto elim!: serve_post_elim)
  qed
  from assms(2) show ?thesis
  proof
    assume ks: "ks = [(0, Post p1), (1, Post p2)]"
    with assms(1) obtain a1 S1 a2 S2 where "as = [a1, a2]" "many_serve F [s1, s2] (0, Post p1) a1 S1" "many_serve F S1 (1, Post p2) a2 S2"
      by (auto elim!: trace_cons_elim trace_nil_elim)
    with two [of "[s1, s2]" 0 p1 a1 S1 1 p2 a2 S2 u v] assms(3-6) show ?thesis by simp
  next
    assume ks: "ks = [(1, Post p2), (0, Post p1)]"
    with assms(1) obtain a1 S1 a2 S2 where "as = [a1, a2]" "many_serve F [s1, s2] (1, Post p2) a1 S1" "many_serve F S1 (0, Post p1) a2 S2"
      by (auto elim!: trace_cons_elim trace_nil_elim)
    with two [of "[s1, s2]" 1 p2 a1 S1 0 p1 a2 S2 v u] assms(3-6) show ?thesis by simp
  qed
qed

text \<open>A worker that may post a file no one has, and goes on from the lookup to the insertion.\<close>

definition may_post ::
  "('j, 'db) platform \<Rightarrow> ('db \<Rightarrow> tables) \<Rightarrow> 'db worker \<Rightarrow> fs_user_t \<Rightarrow> command_post_t \<Rightarrow> string \<Rightarrow> bool" where
  "may_post P T w u p d \<longleftrightarrow> w_user w = Some u \<and> worker_ready w \<and>
     lookup_fits (st_tables (store_of T w)) (post_dest p) (fs_home u) \<and>
     files_found (st_tables (store_of T w)) (post_dest p) (fs_home u) = [] \<and>
     query_ok (alias_query (post_dest p) (fs_home u)) \<and> post_fits P u p d \<and> can_create (w_disk w) (post_path u p)"

lemma lookup_half:
  assumes "platform_ok P" "sql_tables (plat_exec P) T" "may_post P T w u p d"
  shows "\<exists>l. post_lookup P conn p e w = Inr (Inr (u, w\<lparr>w_link := Some l\<rparr>)) \<and> link_idle l \<and> T (link_db l) = st_tables (store_of T w)"
proof -
  obtain l where l: "w_link w = Some l" "link_idle l" using assms(3) by (auto simp: may_post_def worker_ready_def)
  have m: "w_user w = Some u" "lookup_fits (T (link_db l)) (post_dest p) (fs_home u)" "files_found (T (link_db l)) (post_dest p) (fs_home u) = []"
    using assms(3) l(1) by (simp_all add: may_post_def)
  obtain db' rows where db: "db_answers P l (file_query (post_dest p) (fs_home u)) db' rows" "T db' = T (link_db l)"
    "same_rows rows (path_rows (files_found (T (link_db l)) (post_dest p) (fs_home u)))"
    by (rule file_answers [OF assms(2) l(2) m(2)])
  then have "rows = []" using rows_Nil_iff(1) m(3) by blast
  with post_lookup_free [OF assms(1) m(1) l(1)] db(1,2) l show ?thesis
    by (intro exI [of _ "l\<lparr>link_db := db'\<rparr>"]) simp
qed

lemma store_half:
  assumes "platform_ok P" "sql_tables (plat_exec P) T" "rng_ok (io_rng (w_io w))" "w_link w = Some l" "link_idle l"
    "lookup_fits t (post_dest p) (fs_home u)" "query_ok (alias_query (post_dest p) (fs_home u))" "post_fits P u p d"
    "can_create (w_disk w) (post_path u p)"
  shows "\<exists>w' r. post_store P conn p u w = Inr (r, w') \<and> replied P conn ''File OK'' 7 (w_io w) (w_io w') \<and> w_user w' = w_user w \<and>
    can_create (w_disk w') = can_create (w_disk w) \<and> worker_ready w' \<and>
    st_tables (store_of T w') = add_alias (fs_home u) (post_dest p) (T (link_db l)) \<and>
    files (w_disk w') = (files (w_disk w))(post_path u p \<mapsto> d)"
proof -
  have pl: "plain (post_dest p)" "plain_text (fs_home u)" using assms(6) by (simp_all add: lookup_fits_def)
  obtain db2 where ins: "db_answers P l (alias_query (post_dest p) (fs_home u)) db2 []"
    "T db2 = add_alias (fs_home u) (post_dest p) (T (link_db l))"
    by (rule alias_answers [OF assms(2,5) pl assms(7)])
  obtain v ks where v: "post_store P conn p u w = Inr (error_after_send P (comm_error ERR_OK ''OK''),
        w\<lparr>w_link := Some (l\<lparr>link_db := db2\<rparr>),
          w_disk := (w_disk w)\<lparr>files := (files (w_disk w))(post_path u p \<mapsto> d), short_writes := ks\<rparr>, w_io := v\<rparr>)" (is "_ = Inr (_, ?w)")
    "replied P conn ''File OK'' 7 (w_io w) v"
    using post_store_stores [OF assms(1,3,4) ins(1) assms(8,9), of conn] by blast
  then show ?thesis
    using ins(2) assms(5) replied_rng [OF v(2)] by (intro exI [of _ ?w]) (simp add: worker_ready_def)
qed

section \<open>Properties\<close>


lemma file_reaches_worker:
  assumes "workers_ready P T ss" "workers_run P T E n ss es ss'"
    "commands es = (i, Post c) # ks @ [(j, Get \<lparr>get_path = post_dest c\<rparr>)]" "i < length ss" "j < length ss"
    "st_user (session_store T (ss ! i)) = Some u" "st_user (session_store T (ss' ! j)) = Some v" "fs_home v = fs_home u"
    "files_found (st_tables (session_store T (ss ! i))) (post_dest c) (fs_home u) = []"
    "lower (post_dest c) \<notin> {''path'', ''alias''}" "CHR ''/'' \<notin> set (post_dest c)" "post_data c = raw_text d"
    "\<forall>k \<in> set ks. other_post (post_dest c) (snd k)" "s_pc (ss' ! j) \<noteq> Ended"
  shows "\<exists>as bs. length bs = length as + 1 \<and> list_all boundary_shape bs \<and>
    fd_out (session_io (ss' ! j)) (req_fd (p_conn (s_process (ss ! j)))) =
      fd_out (session_io (ss ! j)) (req_fd (p_conn (s_process (ss ! j)))) @
        answer_frames (plat_json P) bs (as @ [(raw_text d, length d)])"
proof -
  have inv: "workers_inv P T ss es ss'" by (rule workers_run_inv [OF assms(2,1)])
  then obtain as where as: "trace (many_serve (plat_can_fork P)) (map (session_store T) ss) (commands es) as (map (session_store T) ss')"
    "written P (req_fd (p_conn (s_process (ss ! j)))) (fd_out (session_io (ss ! j)) (req_fd (p_conn (s_process (ss ! j)))))
       (answers_of j (commands es) as) (session_io (ss' ! j))" "length ss' = length ss"
    using assms(5,14) unfolding workers_inv_def by blast
  obtain bs where bs: "as = (''File OK'', 7) # bs @ [(raw_text d, length d)]" "length bs = length ks"
    using many_post_get [of "plat_can_fork P" "map (session_store T) ss" i c ks j as "map (session_store T) ss'" u v d]
      as(1,3) assms(3-13) by auto
  have "answers_of j (commands es) as = answers_of j ((i, Post c) # ks) ((''File OK'', 7) # bs) @ [(raw_text d, length d)]"
    using bs answers_of_append [of "(i, Post c) # ks" "(''File OK'', 7) # bs" j "[(j, Get \<lparr>get_path = post_dest c\<rparr>)]" "[(raw_text d, length d)]"]
    by (simp add: assms(3)) (simp add: answers_of_def)
  with as(2) show ?thesis
    unfolding written_def by (metis length_append_singleton Suc_eq_plus1)
qed

text \<open>
  A file crosses the workers. One worker stores a file; the others handle what they like, logins and
  logouts included, but no post of this alias; then a worker whose user has the same home is asked for
  the alias, and the last frame it writes holds the contents.
\<close>

theorem file_crosses_workers:
  assumes "workers_ready P T ss" "workers_run P T E n ss es ss'"
    "commands es = (i, Post c) # ks @ [(j, Get \<lparr>get_path = post_dest c\<rparr>)]" "i < length ss" "j < length ss"
    "st_user (session_store T (ss ! i)) = Some u" "st_user (session_store T (ss' ! j)) = Some v" "fs_home v = fs_home u"
    "files_found (st_tables (session_store T (ss ! i))) (post_dest c) (fs_home u) = []"
    "lower (post_dest c) \<notin> {''path'', ''alias''}" "CHR ''/'' \<notin> set (post_dest c)" "post_data c = raw_text d"
    "\<forall>k \<in> set ks. other_post (post_dest c) (snd k)" "s_pc (ss' ! j) \<noteq> Ended"
  shows "\<exists>as bs. length bs = length as + 1 \<and> list_all boundary_shape bs \<and>
    fd_out (session_io (ss' ! j)) (req_fd (p_conn (s_process (ss ! j)))) =
      fd_out (session_io (ss ! j)) (req_fd (p_conn (s_process (ss ! j)))) @
        answer_frames (plat_json P) bs (as @ [(raw_text d, length d)])"
  using assms by (rule file_reaches_worker)

text \<open>
  C7: two posts of one alias may both succeed. \<open>process_post_cmd\<close> looks the alias up and inserts it in two
  queries; when two workers of one home have both looked before either inserts, both users are told
  \<open>File OK\<close>, the alias is recorded twice, and of two contents the second is left on the disk. No order of
  the two requests, one after the other, has these answers.
\<close>

theorem racing_posts_lose_file:
  assumes "platform_ok P" "sql_tables (plat_exec P) T" "may_post P T w1 u p1 d1" "may_post P T w2 v p2 d2"
    "share_worker w1 w2 = w2" "fs_home v = fs_home u" "post_dest p2 = post_dest p1" "lower (post_dest p1) \<notin> {''path'', ''alias''}"
  shows "\<exists>a1 a2 b1 b2 r1 r2 al. post_lookup P conn1 p1 e1 w1 = Inr (Inr (u, a1)) \<and>
    post_lookup P conn2 p2 e2 (share_worker a1 w2) = Inr (Inr (v, a2)) \<and>
    post_store P conn1 p1 u (share_worker a2 a1) = Inr (r1, b1) \<and> replied P conn1 ''File OK'' 7 (w_io w1) (w_io b1) \<and>
    post_store P conn2 p2 v (share_worker b1 a2) = Inr (r2, b2) \<and> replied P conn2 ''File OK'' 7 (w_io w2) (w_io b2) \<and>
    files_found (st_tables (store_of T b2)) (post_dest p1) (fs_home u) = [al, al] \<and>
    st_files (store_of T b2) (''.'' @ fst al) = Some d2 \<and>
    (\<forall>F ks as S'. trace (many_serve F) [store_of T w1, store_of T w2] ks as S' \<and>
       (ks = [(0, Post p1), (1, Post p2)] \<or> ks = [(1, Post p2), (0, Post p1)]) \<longrightarrow> as ! 1 = (''FILE EXISTS'', 11))"
proof -
  let ?t = "st_tables (store_of T w1)" and ?dest = "post_dest p1" and ?home = "fs_home u"
  have w1: "worker_ready w1" "w_user w1 = Some u" "lookup_fits ?t ?dest ?home" "files_found ?t ?dest ?home = []"
    "query_ok (alias_query ?dest ?home)" "post_fits P u p1 d1" "can_create (w_disk w1) (post_path u p1)"
    using assms(3) by (simp_all add: may_post_def)
  have w2: "worker_ready w2" "w_user w2 = Some v" "post_fits P v p2 d2" "can_create (w_disk w2) (post_path v p2)"
    using assms(4) by (simp_all add: may_post_def)
  have same: "w_link w2 = w_link w1" "w_disk w2 = w_disk w1" "w_folders w2 = w_folders w1"
    using arg_cong [OF assms(5), of w_link] arg_cong [OF assms(5), of w_disk] arg_cong [OF assms(5), of w_folders]
    by (simp_all add: share_worker_def)
  obtain l1 where l1: "post_lookup P conn1 p1 e1 w1 = Inr (Inr (u, w1\<lparr>w_link := Some l1\<rparr>))" "link_idle l1" "T (link_db l1) = ?t"
    using lookup_half [OF assms(1-3)] by blast
  have s2: "share_worker (w1\<lparr>w_link := Some l1\<rparr>) w2 = w2\<lparr>w_link := Some l1\<rparr>"
    using same by (simp add: share_worker_def)
  have "may_post P T (w2\<lparr>w_link := Some l1\<rparr>) v p2 d2"
    using w1(3-5) w2 l1(2,3) assms(6,7) by (simp add: may_post_def worker_ready_def)
  from lookup_half [OF assms(1,2) this] obtain l2 where
    l2: "post_lookup P conn2 p2 e2 (w2\<lparr>w_link := Some l1\<rparr>) = Inr (Inr (v, w2\<lparr>w_link := Some l2\<rparr>))" "link_idle l2" "T (link_db l2) = ?t"
    using l1(3) by auto
  have s1: "share_worker (w2\<lparr>w_link := Some l2\<rparr>) (w1\<lparr>w_link := Some l1\<rparr>) = w1\<lparr>w_link := Some l2\<rparr>"
    using same by (simp add: share_worker_def)
  obtain b1 r1 where b1: "post_store P conn1 p1 u (w1\<lparr>w_link := Some l2\<rparr>) = Inr (r1, b1)"
    "replied P conn1 ''File OK'' 7 (w_io w1) (w_io b1)" "worker_ready b1"
    "can_create (w_disk b1) = can_create (w_disk w1)" "st_tables (store_of T b1) = add_alias ?home ?dest ?t"
    using store_half [OF assms(1,2), of "w1\<lparr>w_link := Some l2\<rparr>" l2 ?t p1 u d1 conn1] w1 l2(2,3)
    by (auto simp: worker_ready_def)
  then obtain l3 where l3: "w_link b1 = Some l3" "link_idle l3" by (auto simp: worker_ready_def)
  let ?w = "share_worker b1 (w2\<lparr>w_link := Some l2\<rparr>)"
  have w: "w_io ?w = w_io w2" "w_link ?w = Some l3" "w_disk ?w = w_disk b1" using l3(1) by (simp_all add: share_worker_def)
  have "T (link_db l3) = add_alias ?home ?dest ?t" using b1(5) l3(1) by simp
  then obtain b2 r2 where b2: "post_store P conn2 p2 v ?w = Inr (r2, b2)" "replied P conn2 ''File OK'' 7 (w_io w2) (w_io b2)"
    "st_tables (store_of T b2) = add_alias ?home ?dest (add_alias ?home ?dest ?t)"
    "files (w_disk b2) = (files (w_disk b1))(post_path v p2 \<mapsto> d2)"
    using store_half [OF assms(1,2), of ?w l3 ?t p2 v d2 conn2] w w2(1,3,4) w1(3,5) l3(2) b1(4) same(2) assms(6,7)
    by (auto simp: worker_ready_def)
  let ?al = "(?home @ ''/'' @ ?dest, ?dest)"
  have found: "files_found (st_tables (store_of T b2)) ?dest ?home = [?al, ?al]"
    using w1(4) by (simp add: b2(3) files_found_snoc [OF assms(8)])
  have kept: "st_files (store_of T b2) (''.'' @ fst ?al) = Some d2"
    using b2(4) assms(6,7) by (simp add: post_path_def)
  have order: "\<forall>F ks as S'. trace (many_serve F) [store_of T w1, store_of T w2] ks as S' \<and>
      (ks = [(0, Post p1), (1, Post p2)] \<or> ks = [(1, Post p2), (0, Post p1)]) \<longrightarrow> as ! 1 = (''FILE EXISTS'', 11)"
    using second_post_told [OF _ _ _ _ assms(6-8)] w1(2) w2(2) store_of_simps(1) [of T] by metis
  show ?thesis
    by (rule exI [of _ "w1\<lparr>w_link := Some l1\<rparr>"], rule exI [of _ "w2\<lparr>w_link := Some l2\<rparr>"], rule exI [of _ b1], rule exI [of _ b2],
        rule exI [of _ r1], rule exI [of _ r2], rule exI [of _ ?al], unfold s1 s2)
       (intro conjI; fact l1(1) l2(1) b1(1,2) b2(1,2) found kept order)
qed

section \<open>Concrete workers\<close>

lemma lift_run:
  assumes "session_run P T E n s es s'" "workers_ready P T ss" "i < length ss" "ss ! i = s"
  shows "workers_run P T E n ss (map (Pair i) es) (map (share s') (ss[i := s']))"
  using assms
proof (induction rule: session_run.induct)
  case session_refl
  have "share s t = t" if "t \<in> set ss" for t using session_refl that by (auto simp: workers_ready_def)
  then have "map (share s) ss = ss" by (simp add: map_idI)
  moreover have "ss[i := s] = ss" using session_refl by auto
  ultimately show ?case by (auto intro: workers_refl)
next
  case (session_more es s' fs s'')
  let ?ss = "map (share s') (ss[i := s'])"
  have "workers_step P T E n ?ss (map (Pair i) fs) (map (share s'') (?ss[i := s'']))"
    using session_more by (intro one_worker) simp_all
  moreover have "map (share s'') (?ss[i := s'']) = map (share s'') (ss[i := s''])"
    using session_more.prems(2) by (intro nth_equalityI) (simp_all add: nth_list_update)
  ultimately show ?case using workers_more [OF session_more.IH [OF session_more.prems]] by simp
qed

lemma workers_run_append:
  assumes "workers_run P T E n ss es ss1" "workers_run P T E n ss1 fs ss2"
  shows "workers_run P T E n ss (es @ fs) ss2"
  using assms(2)
proof (induction rule: workers_run.induct)
  case workers_refl
  with assms(1) show ?case by simp
next
  case (workers_more fs ss2 gs ss3)
  then show ?case using workers_run.workers_more [OF workers_more.IH workers_more.hyps(2)] by simp
qed

lemma session_run_ready: "session_run P T E n s es s' \<Longrightarrow> process_ready P T (s_process s) \<Longrightarrow> process_ready P T (s_process s')"
  by (induction rule: session_run.induct) (auto dest: session_step_effect simp: step_effect_def)

definition idle_worker :: "tables session" where
  "idle_worker = start_worker (sample_process_of sample_tables (Some sample_user)) 4"

lemma idle_worker_simps:
  "s_pc idle_worker = At_test" "s_pending idle_worker = []" "s_current idle_worker = 0" "s_threads idle_worker = 4"
  "p_conn (s_process idle_worker) = sample_conn" "p_worker (s_process idle_worker) = sample_worker sample_tables (Some sample_user)"
  "process_ready (sample_platform tables_engine) (\<lambda>t. t) (s_process idle_worker)"
  using process_ready_sample [of "Some sample_user"]
  by (simp_all add: idle_worker_def start_worker_def sample_process_of_def process_ready_def)

lemma idle_store:
  "session_store (\<lambda>t. t) idle_worker = \<lparr>st_user = Some sample_user, st_tables = sample_tables, st_files = (\<lambda>_. None), st_folders = []\<rparr>"
  by (simp add: session_store_def idle_worker_simps store_of_def init_sqlite_server_def sample_disk_def)

lemma share_with_input: "share (with_input i s) (with_input j t) = with_input j (share s t)"
  by (simp add: share_def share_worker_def with_input_def Let_def)

text \<open>Two workers of one user, with a post in the pipe of one and a get in the pipe of the other.\<close>

definition framed :: "command \<Rightarrow> string" where
  "framed c = sample_boundary @ request_text (sample_platform tables_engine) c @ sample_boundary @ []"

definition two_workers :: "tables session list" where
  "two_workers = [with_input (framed (Post (post_of ''x'' ''hi''))) idle_worker, with_input (framed (Get \<lparr>get_path = ''x''\<rparr>)) idle_worker]"

lemma two_workers_ready: "workers_ready (sample_platform tables_engine) (\<lambda>t. t) two_workers"
  using with_input_ready(1) [OF idle_worker_simps(7)] by (simp add: workers_ready_def two_workers_def share_with_input)

lemma request_frames:
  "frame_ok sample_boundary (request_text (sample_platform tables_engine) (Post (post_of ''x'' ''hi'')))"
  "frame_ok sample_boundary (request_text (sample_platform tables_engine) (Get \<lparr>get_path = ''x''\<rparr>))"
  using fits_sample(1,2) sample_boundary_shape
  by (simp_all add: fits_frame_def request_text_def del: stringify.simps)

lemma two_workers_run:
  "\<exists>es ss'. workers_run (sample_platform tables_engine) (\<lambda>t. t) (sample_fifo_env []) 8 two_workers es ss' \<and>
     commands es = [(0, Post (post_of ''x'' ''hi'')), (1, Get \<lparr>get_path = ''x''\<rparr>)] \<and>
     st_user (session_store (\<lambda>t. t) (ss' ! 1)) = Some sample_user \<and> s_pc (ss' ! 1) = At_test"
proof -
  let ?P = "sample_platform tables_engine" and ?T = "\<lambda>t :: tables. t" and ?E = "sample_fifo_env []"
  let ?post = "Post (post_of ''x'' ''hi'')" and ?get = "Get \<lparr>get_path = ''x''\<rparr>"
  let ?s0 = "with_input (framed ?post) idle_worker" and ?s1 = "with_input (framed ?get) idle_worker"
  note idle = idle_worker_simps and ready = with_input_ready [OF idle_worker_simps(7)]
  have e: "files_found sample_tables ''x'' ''/fs/ana'' = []"
    "rows_ok (path_rows (files_found (add_alias ''/fs/ana'' ''x'' sample_tables) ''x'' ''/fs/ana''))" by code_simp+
  have open_conn: "\<not> is_connection_closed (p_conn (s_process idle_worker))"
    by (simp add: idle sample_conn_def is_connection_closed_def)
  have "message_ok (request_of ?post)" using nul_free_raw_text [of "''hi''"] by (simp add: post_of_def)
  moreover have "fits ?P ?T (p_worker (s_process ?s0)) ?post" using fits_post_sample by (simp only: ready(3) idle(6))
  moreover have "fd_in (session_io ?s0) (res_fd (p_conn (s_process ?s0))) = framed ?post" by simp
  ultimately obtain t0 a where t0: "session_run ?P ?T ?E 8 ?s0 [Received (request_text ?P ?post), Handled ?post] t0"
    "serve True (session_store ?T ?s0) ?post a (session_store ?T t0)" "s_pc t0 = At_test"
    using session_answers [OF ready(1), where b = sample_boundary and c = ?post and rest = "[]" and E = ?E and n = 8] open_conn request_frames(1)
    unfolding framed_def by (auto simp: idle simp del: stringify.simps)
  have st0: "st_tables (session_store ?T t0) = add_alias ''/fs/ana'' ''x'' sample_tables"
    using t0(2) e(1) unfolding ready(2) idle_store by (auto simp: post_of_def sample_user_def elim!: serve_post_elim)
  have r0: "process_ready ?P ?T (s_process t0)"
    using session_run_ready [OF t0(1)] ready(1) by blast
  let ?t = "share t0 ?s1"
  have rt: "process_ready ?P ?T (s_process ?t)" by (rule share_ready [OF r0 ready(1)])
  have stt: "session_store ?T ?t = share_store (session_store ?T t0) (session_store ?T idle_worker)"
    by (simp add: session_store_share ready(2))
  have "fits ?P ?T (p_worker (s_process ?t)) ?get"
    using stt st0 lookup_fits_sample e(2)
    by (simp add: fits_of_store session_store_def [symmetric] idle_store granule_size_def sample_user_def lookup_fits_def)
  moreover have "fd_in (session_io ?t) (res_fd (p_conn (s_process ?t))) = framed ?get" by simp
  ultimately obtain t1 b where t1: "session_run ?P ?T ?E 8 ?t [Received (request_text ?P ?get), Handled ?get] t1"
    "serve True (session_store ?T ?t) ?get b (session_store ?T t1)" "s_pc t1 = At_test"
    using session_answers [OF rt, where b = sample_boundary and c = ?get and rest = "[]" and E = ?E and n = 8] open_conn request_frames(2)
    unfolding framed_def by (auto simp: idle simp del: stringify.simps)
  let ?ss = "map (share t0) (two_workers[0 := t0])"
  have one: "workers_run ?P ?T ?E 8 two_workers (map (Pair 0) [Received (request_text ?P ?post), Handled ?post]) ?ss"
    by (rule lift_run [OF t0(1) two_workers_ready]) (simp_all add: two_workers_def)
  have "workers_ready ?P ?T ?ss"
    by (rule workers_ready_step [OF two_workers_ready _ r0]) (simp add: two_workers_def)
  moreover have "?ss ! 1 = ?t" by (simp add: two_workers_def)
  ultimately have two: "workers_run ?P ?T ?E 8 ?ss (map (Pair 1) [Received (request_text ?P ?get), Handled ?get]) (map (share t1) (?ss[1 := t1]))"
    by (intro lift_run [OF t1(1)]) (simp_all add: two_workers_def)
  have "st_user (session_store ?T t1) = Some sample_user"
    using serve_session [OF t1(2)] by (simp add: stt idle_store)
  moreover have "map (share t1) (?ss[1 := t1]) ! 1 = t1" by (simp add: two_workers_def)
  ultimately show ?thesis
    using workers_run_append [OF one two] t1(3)
    by (intro exI [of _ "map (Pair 0) [Received (request_text ?P ?post), Handled ?post] @ map (Pair 1) [Received (request_text ?P ?get), Handled ?get]"]
        exI [of _ "map (share t1) (?ss[1 := t1])"]) simp
qed


theorem file_crosses_workers_witness:
  "\<exists>(ss' :: tables session list) as bs. length bs = length as + 1 \<and> list_all boundary_shape bs \<and>
    fd_out (session_io (ss' ! 1)) (req_fd (p_conn (s_process (two_workers ! 1)))) =
      fd_out (session_io (two_workers ! 1)) (req_fd (p_conn (s_process (two_workers ! 1)))) @
        answer_frames (plat_json (sample_platform tables_engine)) bs (as @ [(raw_text ''hi'', length ''hi'')])"
proof -
  obtain es ss' where run: "workers_run (sample_platform tables_engine) (\<lambda>t. t) (sample_fifo_env []) 8 two_workers es ss'"
    "commands es = [(0, Post (post_of ''x'' ''hi'')), (1, Get \<lparr>get_path = ''x''\<rparr>)]"
    "st_user (session_store (\<lambda>t. t) (ss' ! 1)) = Some sample_user" "s_pc (ss' ! 1) = At_test"
    using two_workers_run by blast
  have c: "post_dest (post_of ''x'' ''hi'') = ''x''" by (simp add: post_of_def)
  have cmds: "commands es = (0, Post (post_of ''x'' ''hi'')) # [] @ [(1, Get \<lparr>get_path = post_dest (post_of ''x'' ''hi'')\<rparr>)]"
    using run(2) by (simp add: c)
  have s: "session_store (\<lambda>t. t) (two_workers ! 0) = \<lparr>st_user = Some sample_user, st_tables = sample_tables, st_files = (\<lambda>_. None), st_folders = []\<rparr>"
    using with_input_ready(2) [OF idle_worker_simps(7)] by (simp add: two_workers_def idle_store)
  have e: "files_found sample_tables ''x'' ''/fs/ana'' = []" "lower ''x'' \<notin> {''path'', ''alias''}" by code_simp+
  have "\<exists>as bs. length bs = length as + 1 \<and> list_all boundary_shape bs \<and>
    fd_out (session_io (ss' ! 1)) (req_fd (p_conn (s_process (two_workers ! 1)))) =
      fd_out (session_io (two_workers ! 1)) (req_fd (p_conn (s_process (two_workers ! 1)))) @
        answer_frames (plat_json (sample_platform tables_engine)) bs (as @ [(raw_text ''hi'', length ''hi'')])"
    by (rule file_crosses_workers [OF two_workers_ready run(1) cmds _ _ _ run(3) refl])
       (use e run(4) in \<open>simp_all only: c s store.simps\<close>, simp_all add: two_workers_def post_of_def sample_user_def)
  then show ?thesis by blast
qed

lemma may_post_sample:
  assumes "length d = 2"
  shows "may_post (sample_platform tables_engine) (\<lambda>t. t) (sample_worker sample_tables (Some sample_user)) sample_user (post_of ''x'' d) d"
proof -
  have e: "files_found sample_tables ''x'' ''/fs/ana'' = []" by code_simp
  have "post_fits (sample_platform tables_engine) sample_user (post_of ''x'' d) d"
    using assms by (simp add: sample_defs granule_size_def post_fits_def alias_fits_def pair_fits_def post_of_def)
  then show ?thesis
    using e lookup_fits_sample query_ok_sample sample_ready(2)
    by (simp add: may_post_def post_of_def sample_user_def init_sqlite_server_def sample_disk_def)
qed

theorem racing_posts_lose_file_witness:
  "let P = sample_platform tables_engine; T = (\<lambda>t :: tables. t); w = sample_worker sample_tables (Some sample_user); u = sample_user;
       p1 = post_of ''x'' ''hi''; p2 = post_of ''x'' ''yo''; e = comm_error 0 []
   in \<exists>a1 a2 b1 b2 r1 r2 al. post_lookup P sample_conn p1 e w = Inr (Inr (u, a1)) \<and>
    post_lookup P sample_conn p2 e (share_worker a1 w) = Inr (Inr (u, a2)) \<and>
    post_store P sample_conn p1 u (share_worker a2 a1) = Inr (r1, b1) \<and> replied P sample_conn ''File OK'' 7 (w_io w) (w_io b1) \<and>
    post_store P sample_conn p2 u (share_worker b1 a2) = Inr (r2, b2) \<and> replied P sample_conn ''File OK'' 7 (w_io w) (w_io b2) \<and>
    files_found (st_tables (store_of T b2)) (post_dest p1) (fs_home u) = [al, al] \<and>
    st_files (store_of T b2) (''.'' @ fst al) = Some ''yo'' \<and>
    (\<forall>F ks as S'. trace (many_serve F) [store_of T w, store_of T w] ks as S' \<and>
       (ks = [(0, Post p1), (1, Post p2)] \<or> ks = [(1, Post p2), (0, Post p1)]) \<longrightarrow> as ! 1 = (''FILE EXISTS'', 11))"
  unfolding Let_def
proof (rule racing_posts_lose_file [OF platform_ok_sample _ may_post_sample may_post_sample])
  have "lower ''x'' \<notin> {''path'', ''alias''}" by code_simp
  then show "lower (post_dest (post_of ''x'' ''hi'')) \<notin> {''path'', ''alias''}" by (simp add: post_of_def)
qed (simp_all add: tables_engine_laws share_worker_def post_of_def)

end
