(* ===== verification/Many_Users.thy ===== *)
theory Many_Users
  imports Many_Workers
begin

text \<open>
  The whole system at once: several users, each with a client of his own, each client connected to a worker of
  its own, all workers on one database and one disk. Users type lines in any order; each line is answered
  before the next one, of whatever user, is typed. What all of them see is one store with a session per
  user.
\<close>

section \<open>Sessions that share a part of their state\<close>

text \<open>One of several sessions makes a step; the others take over what it shares with them.\<close>

definition interleaved ::
  "('s \<Rightarrow> 's \<Rightarrow> 's) \<Rightarrow> (nat \<Rightarrow> 's \<Rightarrow> 'c \<Rightarrow> 'a \<Rightarrow> 's \<Rightarrow> bool) \<Rightarrow> 's list \<Rightarrow> nat \<times> 'c \<Rightarrow> 'a \<Rightarrow> 's list \<Rightarrow> bool" where
  "interleaved take_over step S k a S' \<longleftrightarrow> fst k < length S \<and>
     (\<exists>s'. step (fst k) (S ! fst k) (snd k) a s' \<and> S' = map (take_over s') (S[fst k := s']))"

text \<open>Each session is as it should be, and all have the same of what they share.\<close>

definition agree :: "('s \<Rightarrow> 's \<Rightarrow> 's) \<Rightarrow> (nat \<Rightarrow> 's \<Rightarrow> bool) \<Rightarrow> 's list \<Rightarrow> bool" where
  "agree take_over good S \<longleftrightarrow> (\<forall>i < length S. good i (S ! i)) \<and> (\<forall>s \<in> set S. \<forall>t \<in> set S. take_over s t = t)"

locale sharing =
  fixes take_over :: "'s \<Rightarrow> 's \<Rightarrow> 's"
    and good :: "nat \<Rightarrow> 's \<Rightarrow> bool"
  assumes own: "take_over s s = s"
    and overwrites: "take_over s (take_over u t) = take_over s t"
    and hands_on: "take_over (take_over s u) t = take_over s t"
    and keeps_good: "good i s \<Longrightarrow> good j t \<Longrightarrow> good j (take_over s t)"
begin

lemma after_step:
  "j < length S \<Longrightarrow> map (take_over s') (S[i := s']) ! j = (if j = i then s' else take_over s' (S ! j))"
  by (simp add: own)

lemma agree_step:
  assumes "agree take_over good S" "i < length S" "good i s'"
  shows "agree take_over good (map (take_over s') (S[i := s']))"
proof -
  have "good j (map (take_over s') (S[i := s']) ! j)" if "j < length S" for j
    using assms that keeps_good [OF assms(3)] by (cases "j = i") (simp_all add: agree_def own)
  then show ?thesis by (auto simp: agree_def overwrites hands_on)
qed

end

text \<open>The parts of a client with its worker: the worker shares, the client does not.\<close>

definition share_user :: "client \<times> 'db session \<Rightarrow> client \<times> 'db session \<Rightarrow> client \<times> 'db session" where
  "share_user x y = (fst y, share (snd x) (snd y))"

lemma share_user_simps [simp]: "fst (share_user x y) = fst y" "snd (share_user x y) = share (snd x) (snd y)"
  by (simp_all add: share_user_def)

lemma together_share: "together X P T x \<Longrightarrow> together Y P T y \<Longrightarrow> together Y P T (share_user x y)"
  using share_ready [of P T "snd x" "snd y"] by (simp add: together_def Let_def session_store_share)

interpretation stores: sharing share_store "\<lambda>_ _. True"
  by unfold_locales simp_all

interpretation users: sharing share_user "\<lambda>i. together (X i) P T" for X P T
  by unfold_locales (simp_all add: share_user_def together_share [unfolded share_user_def])

section \<open>Users, clients and workers\<close>

text \<open>A user types a line; the store's side: a user's command, and what he is told.\<close>

definition users_turn ::
  "(nat \<Rightarrow> 'j client_env) \<Rightarrow> ('j, 'db) platform \<Rightarrow> ('db \<Rightarrow> tables) \<Rightarrow> fifo_env \<Rightarrow> nat \<Rightarrow>
   (client \<times> 'db session) list \<Rightarrow> nat \<times> typed \<Rightarrow> int \<Rightarrow> (client \<times> 'db session) list \<Rightarrow> bool" where
  "users_turn X P T E n = interleaved share_user (\<lambda>i. fit_turn (X i) P T E n)"

definition users_step :: "bool \<Rightarrow> store list \<Rightarrow> nat \<times> command \<Rightarrow> int \<times> told list \<Rightarrow> store list \<Rightarrow> bool" where
  "users_step F = interleaved share_store (\<lambda>_. user_step F)"

definition users_together ::
  "(nat \<Rightarrow> 'j client_env) \<Rightarrow> ('j, 'db) platform \<Rightarrow> ('db \<Rightarrow> tables) \<Rightarrow> (client \<times> 'db session) list \<Rightarrow> bool" where
  "users_together X P T = agree share_user (\<lambda>i. together (X i) P T)"

definition users_stores :: "('db \<Rightarrow> tables) \<Rightarrow> (client \<times> 'db session) list \<Rightarrow> store list" where
  "users_stores T xs = map (\<lambda>x. session_store T (snd x)) xs"

lemma users_turnI:
  "i < length xs \<Longrightarrow> xs ! i = x \<Longrightarrow> fit_turn (X i) P T E n x k code x' \<Longrightarrow>
   users_turn X P T E n xs (i, k) code (map (share_user x') (xs[i := x']))"
  unfolding users_turn_def interleaved_def fst_conv snd_conv by blast

text \<open>What a typed line asks for, with who typed it; what user \<open>i\<close> is told about the commands of all.\<close>

definition asked_by :: "(client \<times> 'db session) list \<Rightarrow> nat \<times> typed \<Rightarrow> (nat \<times> command) option" where
  "asked_by xs k = map_option (Pair (fst k)) (meant (c_disk (fst (xs ! fst k))) (snd k))"

definition told_to :: "nat \<Rightarrow> (nat \<times> command) list \<Rightarrow> (int \<times> told list) list \<Rightarrow> told list" where
  "told_to i cmds outs = concat (map (\<lambda>x. snd (snd x)) (filter (\<lambda>x. fst (fst x) = i) (zip cmds outs)))"

lemma told_to_simps [simp]:
  "told_to i [] outs = []" "told_to i (c # cmds) (o1 # outs) = (if fst c = i then snd o1 else []) @ told_to i cmds outs"
  by (simp_all add: told_to_def)

lemma told_to_snoc:
  "length cmds = length outs \<Longrightarrow> told_to i (cmds @ [c]) (outs @ [o1]) = told_to i cmds outs @ (if fst c = i then snd o1 else [])"
  by (simp add: told_to_def)

lemma users_together_one: "users_together X P T xs \<Longrightarrow> i < length xs \<Longrightarrow> together (X i) P T (xs ! i)"
  by (simp add: users_together_def agree_def)

lemma stores_of_turn:
  "users_stores T (map (share_user x') (xs[i := x'])) = map (share_store (session_store T (snd x'))) ((users_stores T xs)[i := session_store T (snd x')])"
  by (simp add: users_stores_def map_update session_store_share o_def)

definition users_serve ::
  "(nat \<Rightarrow> 'j client_env) \<Rightarrow> ('j, 'db) platform \<Rightarrow> ('db \<Rightarrow> tables) \<Rightarrow> (client \<times> 'db session) list \<Rightarrow> (nat \<times> typed) list \<Rightarrow>
   (nat \<times> command) list \<Rightarrow> (int \<times> told list) list \<Rightarrow> (client \<times> 'db session) list \<Rightarrow> bool" where
  "users_serve X P T xs ks cmds outs xs' \<longleftrightarrow> users_together X P T xs' \<and> length xs' = length xs \<and>
     map (asked_by xs) ks = map Some cmds \<and>
     trace (users_step (plat_can_fork P)) (users_stores T xs) cmds outs (users_stores T xs') \<and>
     (\<forall>i < length xs. c_disk (fst (xs' ! i)) = c_disk (fst (xs ! i)) \<and>
        c_told (fst (xs' ! i)) = c_told (fst (xs ! i)) @ told_to i cmds outs)"

lemma users_turn_serves:
  assumes "users_together X P T xs" "users_turn X P T E n xs k code xs1"
  obtains cmd ts where "users_serve X P T xs [k] [cmd] [(code, ts)] xs1"
proof -
  let ?F = "plat_can_fork P"
  obtain i l where k: "k = (i, l)" by (cases k)
  then obtain x' where x': "i < length xs" "fit_turn (X i) P T E n (xs ! i) l code x'" "xs1 = map (share_user x') (xs[i := x'])"
    using assms(2) by (auto simp: users_turn_def interleaved_def)
  from fit_turn_done [OF users_together_one [OF assms(1) x'(1)] x'(2)] obtain cmd ts where d: "together (X i) P T x'" "c_disk (fst x') = c_disk (fst (xs ! i))"
    "meant (c_disk (fst (xs ! i))) l = Some cmd"
    "user_step ?F (session_store T (snd (xs ! i))) cmd (code, ts) (session_store T (snd x'))" "c_told (fst x') = c_told (fst (xs ! i)) @ ts"
    unfolding turn_done_def turn_serves_def by blast
  have "users_together X P T xs1"
    using users.agree_step [where X = X and P = P and T = T, OF _ x'(1) d(1)] assms(1) unfolding x'(3) users_together_def by blast
  moreover have "users_step ?F (users_stores T xs) (i, cmd) (code, ts) (users_stores T xs1)"
    unfolding users_step_def interleaved_def x'(3) stores_of_turn using d(4) x'(1) by (auto simp: users_stores_def)
  moreover have "c_disk (fst (xs1 ! j)) = c_disk (fst (xs ! j)) \<and> c_told (fst (xs1 ! j)) = c_told (fst (xs ! j)) @ told_to j [(i, cmd)] [(code, ts)]"
    if "j < length xs" for j
    using that d(2,5) unfolding x'(3) users.after_step [OF that] by simp
  ultimately have "users_serve X P T xs [k] [(i, cmd)] [(code, ts)] xs1"
    using d(3) unfolding users_serve_def k by (auto simp: x'(3) asked_by_def intro: trace.intros)
  then show thesis by (rule that)
qed

lemma asked_by_same: "\<forall>i < length xs. c_disk (fst (xs1 ! i)) = c_disk (fst (xs ! i)) \<Longrightarrow> fst k < length xs \<Longrightarrow> asked_by xs1 k = asked_by xs k"
  by (simp add: asked_by_def)

lemma users_trace_bound: "trace (users_turn X P T E n) xs ks codes xs' \<Longrightarrow> \<forall>k \<in> set ks. fst k < length xs"
  by (induction rule: trace.induct) (auto simp: users_turn_def interleaved_def)

lemma users_simulation:
  "trace (users_turn X P T E n) xs ks codes xs' \<Longrightarrow> users_together X P T xs \<Longrightarrow>
   \<exists>cmds outs. users_serve X P T xs ks cmds outs xs' \<and> codes = map fst outs"
proof (induction rule: trace.induct)
  case (trace_nil xs)
  then show ?case by (intro exI [of _ "[]"]) (auto simp: users_serve_def intro: trace.trace_nil)
next
  case (trace_cons xs k code xs1 ks codes xs')
  obtain cmd ts where one: "users_serve X P T xs [k] [cmd] [(code, ts)] xs1"
    by (rule users_turn_serves [OF trace_cons.prems trace_cons.hyps(1)])
  then have one': "users_together X P T xs1" "length xs1 = length xs" "asked_by xs k = Some cmd"
    "users_step (plat_can_fork P) (users_stores T xs) cmd (code, ts) (users_stores T xs1)"
    "\<And>i. i < length xs \<Longrightarrow> c_disk (fst (xs1 ! i)) = c_disk (fst (xs ! i)) \<and> c_told (fst (xs1 ! i)) = c_told (fst (xs ! i)) @ told_to i [cmd] [(code, ts)]"
    unfolding users_serve_def by (auto elim!: trace_cons_elim trace_nil_elim)
  obtain cmds outs where ih: "users_serve X P T xs1 ks cmds outs xs'" "codes = map fst outs"
    using trace_cons.IH [OF one'(1)] by blast
  have "asked_by xs1 m = asked_by xs m" if "m \<in> set ks" for m
    using users_trace_bound [OF trace_cons.hyps(2)] that one'(2,5) by (intro asked_by_same) auto
  then have "map (asked_by xs) ks = map (asked_by xs1) ks" by simp
  then have "users_serve X P T xs (k # ks) (cmd # cmds) ((code, ts) # outs) xs'"
    using ih(1) one'(2,3,5) trace.trace_cons [where step = "users_step (plat_can_fork P)", OF one'(4)]
    unfolding users_serve_def by auto
  with ih(2) show ?case by (intro exI [of _ "cmd # cmds"] exI [of _ "(code, ts) # outs"]) simp
qed

lemma users_progress:
  assumes "users_together X P T xs" "i < length xs" "line_fits (X i) P T (xs ! i) k"
  shows "\<exists>code xs'. users_turn X P T E n xs (i, k) code xs'"
proof -
  obtain code x' where "fit_turn (X i) P T E n (xs ! i) k code x'"
    using fit_turn_progress [OF users_together_one [OF assms(1,2)] assms(3)] assms(3) unfolding fit_turn_def by blast
  with users_turnI [where x = "xs ! i" and X = X, OF assms(2)] show ?thesis by blast
qed

section \<open>A file of one user told to another\<close>

lemma users_step_serves:
  assumes "users_step F S k out S'"
  obtains a where "many_serve F S k a S'"
  using assms unfolding users_step_def interleaved_def user_step_def many_serve_def by blast

lemma users_trace_serves: "trace (users_step F) S ks outs S' \<Longrightarrow> \<exists>as. trace (many_serve F) S ks as S'"
proof (induction rule: trace.induct)
  case (trace_cons S k out S1 ks outs S')
  then obtain a as where "many_serve F S k a S1" "trace (many_serve F) S1 ks as S'" by (blast elim: users_step_serves)
  then show ?case by (blast intro: trace.trace_cons)
qed (blast intro: trace.trace_nil)

lemma users_post_get:
  assumes "trace (users_step F) S ((i, Post (post_of al d)) # ks @ [(j, Get \<lparr>get_path = al\<rparr>)]) outs S'"
    "st_user (S ! i) = Some u" "st_user (S' ! j) = Some v" "fs_home v = fs_home u"
    "files_found (st_tables (S ! i)) al (fs_home u) = []" "lower al \<notin> {''path'', ''alias''}" "CHR ''/'' \<notin> set al" "nul_free d"
    "\<forall>k \<in> set ks. other_post al (snd k)"
  shows "\<exists>ms. outs = (COMMAND_OK, [Told_string ''File OK'']) # ms @ [(COMMAND_OK, [Told_file d])] \<and> length ms = length ks"
proof -
  let ?g = "Get \<lparr>get_path = al\<rparr>"
  obtain o1 S1 os where t: "users_step F S (i, Post (post_of al d)) o1 S1" "outs = o1 # os" "trace (users_step F) S1 (ks @ [(j, ?g)]) os S'"
    using assms(1) by (auto elim!: trace_cons_elim)
  obtain ms o2 S2 where t2: "os = ms @ [o2]" "trace (users_step F) S1 ks ms S2" "users_step F S2 (j, ?g) o2 S'"
    using trace_snoc [OF t(3)] by blast
  obtain s1 where s1: "user_step F (S ! i) (Post (post_of al d)) o1 s1" "S1 = map (share_store s1) (S[i := s1])"
    using t(1) by (auto simp: users_step_def interleaved_def)
  note p = user_post_keeps [OF s1(1) assms(2,5,6)]
  then have "\<forall>s \<in> set S1. has_file (fs_home u) al d s" by (auto simp: s1(2) has_file_share keeps_file_has)
  with many_keeps assms(6,7,9) users_trace_serves [OF t2(2)] have S2: "\<forall>s \<in> set S2. has_file (fs_home u) al d s" by blast
  obtain s2 where s2: "j < length S2" "user_step F (S2 ! j) ?g o2 s2" "S' = map (share_store s2) (S2[j := s2])"
    using t2(3) by (auto simp: users_step_def interleaved_def)
  have "st_user s2 = Some v" using assms(3) unfolding s2(3) stores.after_step [OF s2(1)] by simp
  moreover have "s2 = S2 ! j" using s2(2) by (auto simp: user_step_def elim!: serve_get_elim)
  ultimately have "keeps_file v al d (S2 ! j)" using S2 s2(1) assms(4) by (simp add: keeps_file_has)
  then have "o2 = (COMMAND_OK, [Told_file d])" using user_get_kept [OF s2(2)] assms(8) by blast
  with p(2) t(2) t2(1) trace_length [OF t2(2)] show ?thesis by simp
qed

section \<open>Properties\<close>


lemma typed_post_get_others:
  assumes "users_together X P T xs" "trace (users_turn X P T E n) xs ((i, k) # ks @ [(j, k')]) codes xs'"
    "meant (c_disk (fst (xs ! i))) k = Some (Post (post_of al d))" "meant (c_disk (fst (xs ! j))) k' = Some (Get \<lparr>get_path = al\<rparr>)"
    "\<forall>m \<in> set ks. \<forall>c. meant (c_disk (fst (xs ! fst m))) (snd m) = Some c \<longrightarrow> other_post al c"
    "st_user (users_stores T xs ! i) = Some u" "st_user (users_stores T xs' ! j) = Some v" "fs_home v = fs_home u"
    "files_found (st_tables (users_stores T xs ! i)) al (fs_home u) = []" "lower al \<notin> {''path'', ''alias''}" "CHR ''/'' \<notin> set al" "nul_free d"
  shows "\<exists>cs ts. codes = COMMAND_OK # cs @ [COMMAND_OK] \<and> c_told (fst (xs' ! j)) = c_told (fst (xs ! j)) @ ts @ [Told_file d]"
proof -
  obtain cmds outs where s: "users_serve X P T xs ((i, k) # ks @ [(j, k')]) cmds outs xs'" "codes = map fst outs"
    using users_simulation [OF assms(2,1)] by blast
  have j: "j < length xs" using users_trace_bound [OF assms(2)] by simp
  obtain cs where cs: "cmds = (i, Post (post_of al d)) # cs @ [(j, Get \<lparr>get_path = al\<rparr>)]" "map (asked_by xs) ks = map Some cs"
    using s(1) assms(3,4) by (auto simp: users_serve_def asked_by_def map_eq_append_conv Cons_eq_map_conv append_eq_map_conv)
  have "other_post al (snd c)" if "c \<in> set cs" for c
  proof -
    have "Some c \<in> set (map (asked_by xs) ks)" using that cs(2) by simp
    then obtain m where "m \<in> set ks" "asked_by xs m = Some c" by auto
    with assms(5) show ?thesis by (auto simp: asked_by_def)
  qed
  then obtain ms where ms: "outs = (COMMAND_OK, [Told_string ''File OK'']) # ms @ [(COMMAND_OK, [Told_file d])]" "length ms = length cs"
    using users_post_get [OF _ assms(6-12), of "plat_can_fork P" cs outs] s(1) cs(1) unfolding users_serve_def by blast
  have "told_to j cmds outs = told_to j ((i, Post (post_of al d)) # cs) ((COMMAND_OK, [Told_string ''File OK'']) # ms) @ [Told_file d]"
    using ms told_to_snoc [of "(i, Post (post_of al d)) # cs" "(COMMAND_OK, [Told_string ''File OK'']) # ms" j] unfolding cs(1) by simp
  with s j ms(1) show ?thesis
    by (intro exI [of _ "map fst ms"] exI [of _ "told_to j ((i, Post (post_of al d)) # cs) ((COMMAND_OK, [Told_string ''File OK'']) # ms)"])
       (simp add: users_serve_def)
qed


section \<open>Two users of one account\<close>

definition two_users :: "(client \<times> tables session) list" where
  "two_users = [sample_joint (Some sample_user), sample_joint (Some sample_user)]"

lemma two_users_together: "users_together (\<lambda>_. sample_env) (sample_platform tables_engine) (\<lambda>t. t) two_users"
  by (auto simp: users_together_def agree_def two_users_def together_sample share_user_def less_Suc_eq)

lemma two_users_facts:
  "length two_users = 2" "i < 2 \<Longrightarrow> two_users ! i = sample_joint (Some sample_user)"
  "i < 2 \<Longrightarrow> users_stores (\<lambda>t. t) two_users ! i = \<lparr>st_user = Some sample_user, st_tables = sample_tables, st_files = (\<lambda>_. None), st_folders = []\<rparr>"
  by (auto simp: two_users_def users_stores_def sample_joint_simps store_sample less_Suc_eq numeral_2_eq_2)

text \<open>The first posts, the second gets.\<close>

lemma two_users_turns:
  obtains codes xs' where "trace (users_turn (\<lambda>_. sample_env) (sample_platform tables_engine) (\<lambda>t. t) (sample_fifo_env []) 8)
      two_users [(0, post_line), (1, get_line)] codes xs'"
    "st_user (users_stores (\<lambda>t. t) xs' ! 1) = Some sample_user"
proof -
  let ?X = "\<lambda>_ :: nat. sample_env" and ?P = "sample_platform tables_engine" and ?T = "\<lambda>t :: tables. t" and ?E = "sample_fifo_env []"
  let ?x = "sample_joint (Some sample_user)"
  obtain c1 x1 where t1: "fit_turn sample_env ?P ?T ?E 8 ?x post_line c1 x1"
    using fit_turn_progress [OF together_sample post_line_fits] post_line_fits unfolding fit_turn_def by blast
  note d1 = fit_turn_done [OF together_sample t1]
  note p1 = posted_sample [OF d1]
  let ?y = "share_user x1 ?x" and ?xs1 = "map (share_user x1) (two_users[0 := x1])"
  have y: "together sample_env ?P ?T ?y" by (rule together_share [OF p1(5) together_sample])
  have st: "session_store ?T (share (snd x1) (snd ?x)) = share_store (session_store ?T (snd x1)) (session_store ?T (snd ?x))"
    by (simp add: session_store_share)
  have "line_fits sample_env ?P ?T ?y get_line"
    by (rule get_kept_fits [OF y]) (use p1(1,2) in \<open>simp_all add: st keeps_file_def store_sample sample_joint_simps\<close>)
  then obtain c2 x2 where t2: "fit_turn sample_env ?P ?T ?E 8 ?y get_line c2 x2"
    using fit_turn_progress [OF y] unfolding fit_turn_def by blast
  let ?xs2 = "map (share_user x2) (?xs1[1 := x2])"
  have s: "users_turn ?X ?P ?T ?E 8 two_users (0, post_line) c1 ?xs1"
    by (rule users_turnI [OF _ _ t1]) (simp_all add: two_users_def)
  have s2: "users_turn ?X ?P ?T ?E 8 ?xs1 (1, get_line) c2 ?xs2"
    by (rule users_turnI [OF _ _ t2]) (simp_all add: two_users_def)
  have "turn_done sample_env ?P ?T ?y get_line c2 x2" by (rule fit_turn_done [OF y t2])
  then have "st_user (session_store ?T (snd x2)) = Some sample_user"
    by (auto simp: turn_done_def turn_serves_def lines_meant user_step_def st store_sample sample_joint_simps elim!: serve_get_elim)
  then have "st_user (users_stores ?T ?xs2 ! 1) = Some sample_user" by (simp add: users_stores_def two_users_def)
  with trace.trace_cons [where step = "users_turn ?X ?P ?T ?E 8", OF s
      trace.trace_cons [where step = "users_turn ?X ?P ?T ?E 8", OF s2 trace.trace_nil]] that show thesis by blast
qed



end
