(* ===== verification/Logging.thy ===== *)
theory Logging
  imports C_Text
begin

text \<open>
  \<open>server/logging_helpers.c\<close> and \<open>logging/main.c\<close>, the build with \<open>__LOGGING__\<close>: the server formats a line
  and sends it to a message queue, a process of its own reads the queue and appends to the log file.
  The queue holds \<open>MAX_MSG\<close> messages of at most \<open>MSG_MAX_SIZE\<close> bytes, in order; \<open>mq_send\<close> fails for
  a longer message and waits for room otherwise, \<open>mq_receive\<close> waits for a message (\<open>Blocked\<close>).
\<close>

definition MSG_MAX_SIZE :: nat where "MSG_MAX_SIZE = 1024"
definition MAX_MSG :: nat where "MAX_MSG = 10"
definition MSG_END :: string where "MSG_END = ''MSGEND''"
definition MAX_LOG_LENGTH :: nat where "MAX_LOG_LENGTH = 100"

record log_system =
  queue :: "string list"
  log_file :: string
  end_service :: bool

section \<open>The server's side\<close>

text \<open>\<open>msg_f\<close>: the kind, the text and a newline.\<close>

definition log_text :: "string \<Rightarrow> string \<Rightarrow> string" where
  "log_text kind str = kind @ '': '' @ str @ [NEWLINE]"

definition log_mq :: "(nat \<Rightarrow> nat) \<Rightarrow> string \<Rightarrow> string \<Rightarrow> log_system \<Rightarrow> log_system result" where
  "log_mq U kind str s =
     bindE (sprintf_into U (length kind + 2 + length str + 2) (log_text kind str)) (\<lambda>msg.
     if MSG_MAX_SIZE < length msg then Inr s
     else if MAX_MSG \<le> length (queue s) then Inl Blocked
     else Inr (s\<lparr>queue := queue s @ [msg]\<rparr>))"

definition log_error where "log_error U str s = log_mq U ''ERROR'' str s"
definition log_info where "log_info U str s = log_mq U ''INFO'' str s"
definition log_warning where "log_warning U str s = log_mq U ''WARNING'' str s"
definition log_success where "log_success U str s = log_mq U ''SUCCESS'' str s"

text \<open>\<open>LOG_INFO\<close>: the message is printed into the caller's block of \<open>MAX_LOG_LENGTH\<close> bytes first.\<close>

definition LOG_INFO :: "(nat \<Rightarrow> nat) \<Rightarrow> string \<Rightarrow> log_system \<Rightarrow> log_system result" where
  "LOG_INFO U msg s = bindE (sprintf_into U MAX_LOG_LENGTH msg) (\<lambda>str. log_info U str s)"

text \<open>The other three macros, by the kind of the message.\<close>

definition LOG_ERROR :: "(nat \<Rightarrow> nat) \<Rightarrow> string \<Rightarrow> log_system \<Rightarrow> log_system result" where
  "LOG_ERROR U msg s = bindE (sprintf_into U MAX_LOG_LENGTH msg) (\<lambda>str. log_error U str s)"

definition LOG_WARN :: "(nat \<Rightarrow> nat) \<Rightarrow> string \<Rightarrow> log_system \<Rightarrow> log_system result" where
  "LOG_WARN U msg s = bindE (sprintf_into U MAX_LOG_LENGTH msg) (\<lambda>str. log_warning U str s)"

definition LOG_SUCCESS :: "(nat \<Rightarrow> nat) \<Rightarrow> string \<Rightarrow> log_system \<Rightarrow> log_system result" where
  "LOG_SUCCESS U msg s = bindE (sprintf_into U MAX_LOG_LENGTH msg) (\<lambda>str. log_success U str s)"

text \<open>The line of \<open>server_responder\<close> for a text request.\<close>

definition client_says :: "int \<Rightarrow> int \<Rightarrow> string \<Rightarrow> string" where
  "client_says pid self str =
     ''worker '' @ show_int pid @ ''::thread '' @ show_int self @ ''::client says: '' @ str"

section \<open>The logger\<close>

text \<open>
  Whether the queue can be created, the queue an earlier logger has left, and whether the log file opens,
  which empties it; \<open>fclose\<close> and \<open>fputs\<close> go through the null pointer when it does not.
\<close>

definition create_mq :: "bool \<Rightarrow> string list option \<Rightarrow> string list result" where
  "create_mq can_create left = (if can_create then Inr (case left of None \<Rightarrow> [] | Some q \<Rightarrow> q) else Inl Aborted)"

definition logger_start :: "bool \<Rightarrow> bool \<Rightarrow> string list option \<Rightarrow> log_system result" where
  "logger_start can_create can_open left =
     bindE (create_mq can_create left) (\<lambda>mq.
     if can_open then Inr \<lparr>queue = mq, log_file = [], end_service = False\<rparr> else Inl Null_deref)"

text \<open>
  The server starts the logger in a child (\<open>fork\<close>, \<open>execve\<close>), waits a second and opens the queue, or exits.
  The result is the queue there is then, and the logger that reads it, if it runs; a queue outlives the
  logger that created it. A child whose \<open>execve\<close> fails goes on as a second server.
\<close>

record logger_env =
  le_fork :: bool
  le_exec :: bool
  le_create :: bool
  le_open :: bool

definition init_logging_server :: "logger_env \<Rightarrow> string list option \<Rightarrow> string list option \<times> log_system option" where
  "init_logging_server E left =
     (if le_fork E \<and> le_exec E then
        (case create_mq (le_create E) left of
           Inl _ \<Rightarrow> (left, None)
         | Inr mq \<Rightarrow> (Some mq, (case logger_start (le_create E) (le_open E) left of Inl _ \<Rightarrow> None | Inr s \<Rightarrow> Some s)))
      else (left, None))"

definition init_mq :: "logger_env \<Rightarrow> string list option \<Rightarrow> (string list \<times> log_system option) result" where
  "init_mq E left =
     (case init_logging_server E left of
        (None, _) \<Rightarrow> Inl Aborted
      | (Some mq, logger) \<Rightarrow> Inr (mq, logger))"

text \<open>A message, up to a NUL: \<open>strncmp\<close> and \<open>fputs\<close> read the buffer as a string.\<close>

definition read_mq :: "log_system \<Rightarrow> (string \<times> log_system) result" where
  "read_mq s =
     (case queue s of
        [] \<Rightarrow> Inl Blocked
      | buff # rest \<Rightarrow> Inr (takeWhile (\<lambda>c. c \<noteq> ZERO) buff, s\<lparr>queue := rest\<rparr>))"

text \<open>One turn of the loop.\<close>

definition logger_turn :: "bool \<Rightarrow> log_system \<Rightarrow> log_system result" where
  "logger_turn can_open s =
     bindE (read_mq s) (\<lambda>(buff, s).
     if take (length MSG_END) buff = MSG_END then Inr (s\<lparr>end_service := True\<rparr>)
     else if \<not> can_open then Inl Null_deref
     else Inr (s\<lparr>log_file := log_file s @ buff\<rparr>))"

lemma logger_turn_queue: "logger_turn can_open s = Inr s' \<Longrightarrow> length (queue s') < length (queue s)"
  by (auto simp: logger_turn_def read_mq_def bindE_Inr_iff split: list.splits if_splits)

text \<open>
  \<open>main\<close>, with the messages an earlier run has left and no server that adds to them: the loop, and
  \<open>close_mq\<close>, which removes the queue. The two at once are the subject of the next section.
\<close>

function logger_loop :: "bool \<Rightarrow> log_system \<Rightarrow> log_system result" where
  "logger_loop can_open s =
     (if end_service s then Inr s else bindE (logger_turn can_open s) (logger_loop can_open))"
  by pat_completeness auto
termination
  by (relation "measure (\<lambda>(can_open, s). length (queue s))") (auto dest: logger_turn_queue)

declare logger_loop.simps [simp del]

definition close_mq :: "log_system \<Rightarrow> string list option" where
  "close_mq s = None"

definition logger_main :: "bool \<Rightarrow> bool \<Rightarrow> string list option \<Rightarrow> (string \<times> string list option) result" where
  "logger_main can_create can_open left =
     bindE (logger_start can_create can_open left) (\<lambda>s.
     bindE (logger_loop can_open s) (\<lambda>s. Inr (log_file s, close_mq s)))"

section \<open>The two together\<close>

datatype log_kind = Error | Info | Warning | Success

primrec kind_text :: "log_kind \<Rightarrow> string" where
  "kind_text Error = ''ERROR''"
| "kind_text Info = ''INFO''"
| "kind_text Warning = ''WARNING''"
| "kind_text Success = ''SUCCESS''"

datatype log_event = Log log_kind string | Turn

text \<open>Any interleaving: a step of the server's threads or a turn of the logger.\<close>

inductive log_step :: "(nat \<Rightarrow> nat) \<Rightarrow> log_system \<Rightarrow> log_event \<Rightarrow> log_system \<Rightarrow> bool" for U where
  step_log: "log_mq U (kind_text k) str s = Inr s' \<Longrightarrow> nul_free str \<Longrightarrow> log_step U s (Log k str) s'"
| step_turn: "\<not> end_service s \<Longrightarrow> logger_turn True s = Inr s' \<Longrightarrow> log_step U s Turn s'"

inductive log_run :: "(nat \<Rightarrow> nat) \<Rightarrow> log_system \<Rightarrow> log_event list \<Rightarrow> log_system \<Rightarrow> bool" for U s where
  run_nil: "log_run U s [] s"
| run_snoc: "log_run U s es s' \<Longrightarrow> log_step U s' e s'' \<Longrightarrow> log_run U s (es @ [e]) s''"

inductive_cases log_step_elim: "log_step U s e s'"

fun accepted :: "log_event \<Rightarrow> string" where
  "accepted (Log k str) = (if length (log_text (kind_text k) str) \<le> MSG_MAX_SIZE then log_text (kind_text k) str else [])"
| "accepted Turn = []"

definition log_inv :: "log_event list \<Rightarrow> log_system \<Rightarrow> bool" where
  "log_inv es s \<longleftrightarrow> log_file s @ concat (queue s) = concat (map accepted es) \<and> length (queue s) \<le> MAX_MSG \<and>
     \<not> end_service s \<and> (\<forall>m \<in> set (queue s). nul_free m \<and> take 6 m \<noteq> MSG_END)"

lemma log_text_message: "nul_free str \<Longrightarrow> nul_free (log_text (kind_text k) str) \<and> take 6 (log_text (kind_text k) str) \<noteq> MSG_END"
  by (cases k) (simp_all add: log_text_def MSG_END_def numeral_eq_Suc)

lemma takeWhile_nul_free_all: "nul_free m \<Longrightarrow> takeWhile (\<lambda>c. c \<noteq> ZERO) m = m"
  by (auto simp: nul_free_def takeWhile_eq_all_conv)

lemma log_step_inv: "log_inv es s \<Longrightarrow> log_step U s e s' \<Longrightarrow> log_inv (es @ [e]) s'"
proof (erule log_step_elim)
  fix k str
  assume "log_inv es s" "e = Log k str" "log_mq U (kind_text k) str s = Inr s'" "nul_free str"
  then show ?thesis
    using log_text_message [of str k]
    by (auto simp: log_inv_def log_mq_def sprintf_into_def split: if_splits)
next
  assume inv: "log_inv es s" and e: "e = Turn" and t: "logger_turn True s = Inr s'"
  then obtain m ms where q: "queue s = m # ms" by (cases "queue s") (simp_all add: logger_turn_def read_mq_def)
  have len: "length MSG_END = 6" by (simp add: MSG_END_def)
  have m: "nul_free m" "take 6 m \<noteq> MSG_END" using inv q unfolding log_inv_def by simp_all
  have "s' = s\<lparr>queue := ms, log_file := log_file s @ m\<rparr>"
    using t by (simp add: logger_turn_def read_mq_def q len m takeWhile_nul_free_all)
  with inv q e show ?thesis unfolding log_inv_def by simp
qed

section \<open>Properties\<close>

text \<open>
  C30: what the log file and the queue hold is what was logged, in order and nothing lost, whatever the
  interleaving, but for messages longer than 1024 bytes, which are dropped; the queue never exceeds ten
  messages, and the logger never stops, since no message of the server is its end mark.
\<close>

theorem log_in_order:
  assumes "logger_start True True None = Inr s0" "log_run U s0 es s"
  shows "log_file s @ concat (queue s) = concat (map accepted es) \<and> length (queue s) \<le> MAX_MSG \<and> \<not> end_service s"
proof -
  have "log_inv es s"
    using assms(2)
  proof induction
    case run_nil
    show ?case using assms(1) by (auto simp: log_inv_def logger_start_def create_mq_def)
  qed (rule log_step_inv)
  then show ?thesis by (simp add: log_inv_def)
qed

theorem log_in_order_witness:
  "\<exists>s :: log_system. log_file s @ concat (queue s) = concat (map accepted ([] @ [Log Info ''hola''])) \<and> length (queue s) \<le> MAX_MSG \<and>
    \<not> end_service s"
proof -
  let ?s0 = "\<lparr>queue = [], log_file = [], end_service = False\<rparr>"
  have start: "logger_start True True None = Inr ?s0" by (simp add: logger_start_def create_mq_def)
  have "log_mq exact_size (kind_text Info) ''hola'' ?s0 = Inr (?s0\<lparr>queue := [log_text ''INFO'' ''hola'']\<rparr>)"
    by (simp add: log_mq_def log_text_def sprintf_into_exact MSG_MAX_SIZE_def MAX_MSG_def)
  then have "log_step exact_size ?s0 (Log Info ''hola'') (?s0\<lparr>queue := [log_text ''INFO'' ''hola'']\<rparr>)"
    by (rule step_log) simp
  with run_nil have "log_run exact_size ?s0 ([] @ [Log Info ''hola'']) (?s0\<lparr>queue := [log_text ''INFO'' ''hola'']\<rparr>)"
    by (rule run_snoc)
  then obtain s where "log_run exact_size ?s0 ([] @ [Log Info ''hola'']) s" by blast
  from log_in_order [OF start this] show ?thesis by (rule exI)
qed

text \<open>
  A logger alone writes the messages it finds, in order, up to the first end mark, where it ends and the
  queue is removed; without one, and the server sends none, it waits for ever.
\<close>

lemma logger_loop_messages:
  assumes "\<forall>m \<in> set ms. nul_free m \<and> take 6 m \<noteq> MSG_END" "queue s = ms @ rest" "\<not> end_service s"
  shows "logger_loop True s = logger_loop True (s\<lparr>queue := rest, log_file := log_file s @ concat ms\<rparr>)"
  using assms
proof (induction ms arbitrary: s)
  case Nil
  then show ?case by (cases s) simp
next
  case (Cons m ms)
  have len: "length MSG_END = 6" by (simp add: MSG_END_def)
  let ?s = "s\<lparr>queue := ms @ rest, log_file := log_file s @ m\<rparr>"
  have "logger_turn True s = Inr ?s"
    using Cons.prems by (simp add: logger_turn_def read_mq_def len takeWhile_nul_free_all)
  then have "logger_loop True s = logger_loop True ?s"
    using Cons.prems(3) by (simp add: logger_loop.simps [of True s])
  also have "\<dots> = logger_loop True (?s\<lparr>queue := rest, log_file := log_file ?s @ concat ms\<rparr>)"
    using Cons.prems by (intro Cons.IH) simp_all
  finally show ?case by simp
qed

theorem logger_ends_at_mark:
  assumes "\<forall>m \<in> set ms. nul_free m \<and> take 6 m \<noteq> MSG_END"
  shows "logger_main True True (Some (ms @ MSG_END # rest)) = Inr (concat ms, None)"
    and "logger_main True True (Some ms) = Inl Blocked"
proof -
  have len: "length MSG_END = 6" and mark: "takeWhile (\<lambda>c. c \<noteq> ZERO) MSG_END = MSG_END" by (simp_all add: MSG_END_def)
  have start: "logger_start True True (Some q) = Inr \<lparr>queue = q, log_file = [], end_service = False\<rparr>" for q
    by (simp add: logger_start_def create_mq_def)
  have "logger_turn True \<lparr>queue = MSG_END # rest, log_file = concat ms, end_service = False\<rparr> =
      Inr \<lparr>queue = rest, log_file = concat ms, end_service = True\<rparr>"
    by (simp add: logger_turn_def read_mq_def mark)
  then show "logger_main True True (Some (ms @ MSG_END # rest)) = Inr (concat ms, None)"
    using logger_loop_messages [OF assms, of "\<lparr>queue = ms @ MSG_END # rest, log_file = [], end_service = False\<rparr>"]
    by (simp add: logger_main_def start close_mq_def logger_loop.simps)
  have "logger_turn True \<lparr>queue = [], log_file = concat ms, end_service = False\<rparr> = Inl Blocked"
    by (simp add: logger_turn_def read_mq_def)
  then show "logger_main True True (Some ms) = Inl Blocked"
    using logger_loop_messages [OF assms, of "\<lparr>queue = ms, log_file = [], end_service = False\<rparr>" "[]"]
    by (simp add: logger_main_def start logger_loop.simps)
qed

text \<open>
  The line a thread logs about a text request is printed into a block of 100 bytes whatever its
  length: a client whose text is a hundred characters long writes over the memory of the server.
\<close>

theorem long_request_overruns_log:
  assumes "100 \<le> length str"
  shows "LOG_INFO exact_size (client_says pid self str) s = Inl Out_of_bounds"
  using assms by (simp add: LOG_INFO_def sprintf_into_exact client_says_def MAX_LOG_LENGTH_def)

theorem long_request_overruns_log_witness:
  "LOG_INFO exact_size (client_says 1 2 (replicate 100 (CHR ''a''))) \<lparr>queue = [], log_file = [], end_service = False\<rparr>
    = Inl Out_of_bounds"
  by (rule long_request_overruns_log) simp

text \<open>
  A queue that nobody reads stops the server: when the logger has ended (its log file does not open, say)
  and the queue is there, the server starts, and from the tenth message on every log call waits for ever.
\<close>

theorem unread_queue_blocks_server:
  assumes "allocator U" "le_fork E" "le_exec E" "le_create E" "\<not> le_open E"
  shows "init_mq E None = Inr ([], None)"
    and "length (queue s) = MAX_MSG \<Longrightarrow> length (log_text k str) \<le> MSG_MAX_SIZE \<Longrightarrow> log_mq U k str s = Inl Blocked"
proof -
  show "init_mq E None = Inr ([], None)"
    using assms(2-5) by (simp add: init_mq_def init_logging_server_def create_mq_def logger_start_def)
  have "sprintf_into U (length k + 2 + length str + 2) (log_text k str) = Inr (log_text k str)"
    by (rule sprintf_into_fits [OF assms(1)]) (simp add: log_text_def)
  then show "length (queue s) = MAX_MSG \<Longrightarrow> length (log_text k str) \<le> MSG_MAX_SIZE \<Longrightarrow> log_mq U k str s = Inl Blocked"
    by (simp add: log_mq_def)
qed

theorem unread_queue_blocks_server_witness:
  "init_mq \<lparr>le_fork = True, le_exec = True, le_create = True, le_open = False\<rparr> None = Inr ([], None)"
  by (rule unread_queue_blocks_server(1) [OF allocator_exact]) simp_all

end
