(* ===== verification/Server_Logging.thy ===== *)
theory Server_Logging
  imports Server_Main Logging
begin

text \<open>
  The build with \<open>__LOGGING__\<close>: \<open>server_responder\<close>, the loop of a worker and the loop of the master, with
  the lines they log. \<open>show_double\<close> is \<open>printf\<close>'s \<open>%f\<close>. What is logged goes to the queue of \<open>Logging\<close>;
  apart from that the build does what the default one does, as long as the lines fit their block of
  \<open>MAX_LOG_LENGTH\<close> bytes and the queue has room.
\<close>

section \<open>A request\<close>

text \<open>The lines of a thread.\<close>

definition thread_line :: "int \<Rightarrow> int \<Rightarrow> string \<Rightarrow> string" where
  "thread_line pid self t = ''worker '' @ show_int pid @ ''::thread '' @ show_int self @ ''::'' @ t"

text \<open>What a line says of the request, and, for numbers, of the answer.\<close>

definition says :: "(64 word \<Rightarrow> string) \<Rightarrow> parse_result_t \<Rightarrow> string option" where
  "says show_double r =
     (case pdata r of
        PInt i \<Rightarrow> Some (show_int i)
      | PDouble d \<Rightarrow> Some (show_double d)
      | PStr s \<Rightarrow> Some s
      | PGet c \<Rightarrow> Some (get_path c)
      | PPost c \<Rightarrow> Some (post_dest c)
      | PLogin c \<Rightarrow> Some (username (login_user c))
      | PLogout \<Rightarrow> Some (kind r)
      | PClose \<Rightarrow> Some (kind r)
      | PNew_user c \<Rightarrow> Some (username (new_user c))
      | PChange_pass c \<Rightarrow> Some ''PASSWORD''
      | PData b \<Rightarrow> None
      | PUnset \<Rightarrow> None)"

definition i_say :: "(64 word \<Rightarrow> string) \<Rightarrow> parse_result_t \<Rightarrow> string option" where
  "i_say show_double r =
     (case pdata r of
        PInt i \<Rightarrow> Some (show_int (to_int32 (i * 2)))
      | PDouble d \<Rightarrow> Some (show_double (double_twice d))
      | _ \<Rightarrow> None)"

definition log_option :: "(nat \<Rightarrow> nat) \<Rightarrow> string option \<Rightarrow> log_system \<Rightarrow> log_system result" where
  "log_option U line s = (case line of None \<Rightarrow> Inr s | Some t \<Rightarrow> LOG_INFO U t s)"

definition logged_responder ::
  "('j, 'db) platform \<Rightarrow> (64 word \<Rightarrow> string) \<Rightarrow> int \<Rightarrow> comm_error_t \<Rightarrow> string \<Rightarrow> 'db process \<times> log_system \<Rightarrow>
   ('db process \<times> log_system) result" where
  "logged_responder P show_double self fresh_err input = (\<lambda>(p, s).
     (let U = plat_usable P; line = thread_line (p_pid p) self in
      bindE (parse_encoded (plat_json P) U (plat_junk P) input) (\<lambda>r.
      let p = post_status (p_pid p) self STATUS_OK p in
      bindE (LOG_INFO U (line (''client sent: ['' @ kind r @ '']'')) s) (\<lambda>s.
      bindE (log_option U (map_option (\<lambda>t. line (''client says: '' @ t)) (says show_double r)) s) (\<lambda>s.
      bindE (dispatch P (p_conn p) r fresh_err (p_worker p)) (\<lambda>(err, w).
      bindE (log_option U (map_option (\<lambda>t. line (''client I say: '' @ t)) (i_say show_double r)) s) (\<lambda>s.
      let p = p\<lparr>p_worker := w\<rparr>;
          p = (if pdata r = PClose
               then p\<lparr>p_conn := (p_conn p)\<lparr>conn_state := CONNECTION_STATE_CLOSED\<rparr>\<rparr> else p);
          p = (if err_code err \<noteq> 0 then post_status (p_pid p) self STATUS_ERROR p else p)
      in bindE
           (if err_code err \<noteq> 0
            then LOG_ERROR U (line (''error: '' @ show_int (err_code err) @ [CHR 0x09] @ ''msg:'' @ err_msg err)) s
            else if pdata r \<noteq> PClose then LOG_INFO U (line (''data sent successfully: ('' @ err_msg err @ '')'')) s
            else Inr s) (\<lambda>s.
         Inr (post_status (p_pid p) self STATUS_DOWN p, s)))))))))"

text \<open>The lines of one request, with their kinds.\<close>

definition option_line :: "(string \<Rightarrow> string) \<Rightarrow> string option \<Rightarrow> (log_kind \<times> string) list" where
  "option_line f t = (case t of None \<Rightarrow> [] | Some x \<Rightarrow> [(Info, f x)])"

definition responder_lines ::
  "(64 word \<Rightarrow> string) \<Rightarrow> int \<Rightarrow> int \<Rightarrow> parse_result_t \<Rightarrow> comm_error_t \<Rightarrow> (log_kind \<times> string) list" where
  "responder_lines show_double pid self r err =
     (let line = thread_line pid self in
      [(Info, line (''client sent: ['' @ kind r @ '']''))] @
      option_line (\<lambda>t. line (''client says: '' @ t)) (says show_double r) @
      option_line (\<lambda>t. line (''client I say: '' @ t)) (i_say show_double r) @
      (if err_code err \<noteq> 0
       then [(Error, line (''error: '' @ show_int (err_code err) @ [CHR 0x09] @ ''msg:'' @ err_msg err))]
       else if pdata r \<noteq> PClose then [(Info, line (''data sent successfully: ('' @ err_msg err @ '')''))] else []))"

section \<open>The loops\<close>

text \<open>The loop of a worker.\<close>

definition logged_end :: "(nat \<Rightarrow> nat) \<Rightarrow> 'db session \<times> log_system \<Rightarrow> ('db session \<times> log_system) result" where
  "logged_end U = (\<lambda>(ss, s).
     if s_pc ss = Ended then
       bindE (LOG_INFO U (''worker '' @ show_int (p_pid (s_process ss)) @ ''::ending'') s) (\<lambda>s. Inr (ss, s))
     else Inr (ss, s))"

definition logged_test ::
  "('j, 'db) platform \<Rightarrow> fifo_env \<Rightarrow> 'db session \<times> log_system \<Rightarrow> ('db session \<times> log_system) result" where
  "logged_test P E = (\<lambda>(ss, s).
     (let p = s_process ss; U = plat_usable P in
      bindE (if is_connection_closed (p_conn p) then Inr s
             else LOG_WARN U (''worker '' @ show_int (p_pid p) @ ''::waiting for data from '' @
                    host (client_addr (p_conn p))) s) (\<lambda>s.
      bindE (worker_test P E ss) (\<lambda>ss. logged_end U (ss, s)))))"

text \<open>The line about the command comes before the table of threads is looked at.\<close>

definition logged_receive ::
  "('j, 'db) platform \<Rightarrow> fifo_env \<Rightarrow> nat \<Rightarrow> int \<Rightarrow> comm_error_t \<Rightarrow> 'db session \<times> log_system \<Rightarrow>
   ('db session \<times> log_system) result" where
  "logged_receive P E limit self error = (\<lambda>(ss, s).
     (let p = s_process ss; U = plat_usable P in
      bindE (comm_receive_data (plat_transport P) (p_conn p) error (w_io (p_worker p))) (\<lambda>(command, err, _).
      if err_code err \<noteq> 0 then Inl Aborted
      else
        bindE (cstr command) (\<lambda>t.
        bindE (LOG_INFO U (''worker '' @ show_int (p_pid p) @ ''::'' @ host (client_addr (p_conn p)) @ '' says '' @ t) s) (\<lambda>s.
        bindE (worker_receive P E limit self error ss) (\<lambda>ss. logged_end U (ss, s)))))))"

text \<open>The start of the master, and a turn of its loop.\<close>

definition logged_listen ::
  "('j, 'db) platform \<Rightarrow> 'db server_env \<Rightarrow> server_config_t \<Rightarrow> 'db process \<times> log_system \<Rightarrow>
   ('db process \<times> log_system) result" where
  "logged_listen P V cfg = (\<lambda>(p, s).
     (let U = plat_usable P in
      bindE (server_address (plat_transport P) U (ve_addr V) cfg) (\<lambda>a.
      bindE (LOG_INFO U (''master::listening on name: '' @ host a) s) (\<lambda>s.
      bindE (listen_start P V cfg p) (\<lambda>p.
      bindE (LOG_SUCCESS U ''master::listen ok'' s) (\<lambda>s. Inr (p, s)))))))"

definition logged_master_turn ::
  "('j, 'db) platform \<Rightarrow> nat \<Rightarrow> turn_env \<Rightarrow> 'db master \<times> log_system \<Rightarrow> ('db master \<times> log_system) result" where
  "logged_master_turn P n E = (\<lambda>(m, s).
     (let U = plat_usable P in
      bindE (LOG_WARN U ''master::waiting for connections'' s) (\<lambda>s.
      bindE (master_turn P n E m) (\<lambda>m.
      let client = host (client_addr (p_conn (ma_process m))) in
      if \<not> ma_listening m then Inr (m, s)
      else
        bindE (LOG_INFO U (''master::opened connection for '' @ client) s) (\<lambda>s.
        bindE (LOG_INFO U (''worker '' @ show_int (te_child E) @ ''::created for '' @ client) s) (\<lambda>s.
        Inr (m, s)))))))"

section \<open>Lines that fit\<close>

lemma log_text_short: "length l < MAX_LOG_LENGTH \<Longrightarrow> length (log_text (kind_text k) l) \<le> MSG_MAX_SIZE"
  by (cases k) (simp_all add: log_text_def MAX_LOG_LENGTH_def MSG_MAX_SIZE_def)

text \<open>The state of the logging after some lines.\<close>

definition enqueued :: "(log_kind \<times> string) list \<Rightarrow> log_system \<Rightarrow> log_system" where
  "enqueued ls s = s\<lparr>queue := queue s @ map (\<lambda>(k, l). log_text (kind_text k) l) ls\<rparr>"

lemma enqueued_append: "enqueued (ls @ ms) s = enqueued ms (enqueued ls s)"
  by (simp add: enqueued_def)

lemma length_enqueued [simp]: "length (queue (enqueued ls s)) = length (queue s) + length ls"
  by (simp add: enqueued_def)

definition line_fits :: "log_kind \<times> string \<Rightarrow> bool" where
  "line_fits kl \<longleftrightarrow> length (snd kl) < MAX_LOG_LENGTH"

lemma log_mq_fits:
  assumes "allocator U" "length l < MAX_LOG_LENGTH" "length (queue s) < MAX_MSG"
  shows "log_mq U (kind_text k) l s = Inr (enqueued [(k, l)] s)"
proof -
  have "sprintf_into U (length (kind_text k) + 2 + length l + 2) (log_text (kind_text k) l) = Inr (log_text (kind_text k) l)"
    by (rule sprintf_into_fits [OF assms(1)]) (simp add: log_text_def)
  with log_text_short [OF assms(2), of k] assms(3) show ?thesis by (simp add: log_mq_def enqueued_def)
qed

lemma LOG_fits:
  assumes "allocator U" "length l < MAX_LOG_LENGTH" "length (queue s) < MAX_MSG"
  shows "LOG_INFO U l s = Inr (enqueued [(Info, l)] s)" "LOG_ERROR U l s = Inr (enqueued [(Error, l)] s)"
    "LOG_WARN U l s = Inr (enqueued [(Warning, l)] s)"
  using log_mq_fits [OF assms, of Info] log_mq_fits [OF assms, of Error] log_mq_fits [OF assms, of Warning]
    sprintf_into_fits [OF assms(1,2)]
  by (simp_all add: LOG_INFO_def LOG_ERROR_def LOG_WARN_def log_info_def log_error_def log_warning_def)

lemma log_option_fits:
  assumes "allocator U" "list_all line_fits (option_line f t)" "length (queue s) + length (option_line f t) \<le> MAX_MSG"
  shows "log_option U (map_option f t) s = Inr (enqueued (option_line f t) s)"
  using assms LOG_fits(1) [OF assms(1), of _ s]
  by (cases t) (simp_all add: log_option_def option_line_def line_fits_def enqueued_def)

section \<open>Properties\<close>

text \<open>
  C29: the build that logs answers a request exactly as the default build does, and its lines arrive in the
  queue in order, when each fits its block of 100 bytes and the queue has room for all of them.
\<close>

theorem logging_build_answers_the_same:
  assumes "allocator (plat_usable P)" "parse_encoded (plat_json P) (plat_usable P) (plat_junk P) input = Inr r"
    "dispatch P (p_conn p) r e (p_worker p) = Inr (err, w)" "ls = responder_lines show_double (p_pid p) self r err"
    "list_all line_fits ls" "length (queue s) + length ls \<le> MAX_MSG"
  shows "\<exists>p'. server_responder P self e input p = Inr p' \<and>
    logged_responder P show_double self e input (p, s) = Inr (p', enqueued ls s)"
proof -
  let ?U = "plat_usable P" and ?line = "thread_line (p_pid p) self"
  let ?says = "option_line (\<lambda>t. ?line (''client says: '' @ t)) (says show_double r)"
  let ?isay = "option_line (\<lambda>t. ?line (''client I say: '' @ t)) (i_say show_double r)"
  let ?sent = "?line (''client sent: ['' @ kind r @ '']'')"
  define ends where "ends = (if err_code err \<noteq> 0
       then [(Error, ?line (''error: '' @ show_int (err_code err) @ [CHR 0x09] @ ''msg:'' @ err_msg err))]
       else if pdata r \<noteq> PClose then [(Info, ?line (''data sent successfully: ('' @ err_msg err @ '')''))] else [])"
  have ls: "ls = [(Info, ?sent)] @ ?says @ ?isay @ ends"
    unfolding assms(4) responder_lines_def Let_def ends_def by simp
  have fit: "length ?sent < MAX_LOG_LENGTH" "list_all line_fits ?says" "list_all line_fits ?isay" "list_all line_fits ends"
    using assms(5) by (simp_all add: ls line_fits_def del: append.simps)
  have len: "length (queue s) + 1 + length ?says + length ?isay + length ends \<le> MAX_MSG"
    using assms(6) by (simp add: ls)
  let ?s1 = "enqueued [(Info, ?sent)] s"
  let ?s2 = "enqueued ?says ?s1"
  let ?s3 = "enqueued ?isay ?s2"
  have steps: "LOG_INFO ?U ?sent s = Inr ?s1"
    "log_option ?U (map_option (\<lambda>t. ?line (''client says: '' @ t)) (says show_double r)) ?s1 = Inr ?s2"
    "log_option ?U (map_option (\<lambda>t. ?line (''client I say: '' @ t)) (i_say show_double r)) ?s2 = Inr ?s3"
    using LOG_fits(1) [OF assms(1) fit(1)] log_option_fits [OF assms(1) fit(2), of ?s1] log_option_fits [OF assms(1) fit(3), of ?s2] len
    by simp_all
  have last: "(if err_code err \<noteq> 0
            then LOG_ERROR ?U (?line (''error: '' @ show_int (err_code err) @ [CHR 0x09] @ ''msg:'' @ err_msg err)) ?s3
            else if pdata r \<noteq> PClose then LOG_INFO ?U (?line (''data sent successfully: ('' @ err_msg err @ '')'')) ?s3
            else Inr ?s3) = Inr (enqueued ends ?s3)"
  proof -
    have "length (queue ?s3) < MAX_MSG" if "ends \<noteq> []" using len that by (cases ends) simp_all
    then show ?thesis
      using LOG_fits [OF assms(1), of _ ?s3] fit(4)
      by (cases "err_code err = 0"; cases "pdata r = PClose") (simp_all add: ends_def line_fits_def enqueued_def del: append.simps)
  qed
  have "enqueued ends ?s3 = enqueued ls s" by (simp only: ls enqueued_append)
  then show ?thesis
    using assms(2,3) steps last
    by (simp add: logged_responder_def server_responder_def Let_def del: append.simps)
qed

text \<open>A logout, for the witness.\<close>

definition logging_process :: "unit process" where
  "logging_process = \<lparr>p_worker = sample_worker () (Some sample_user), p_conn = sample_conn, p_pid = 4711, p_shared = None\<rparr>"

definition empty_log :: log_system where
  "empty_log = \<lparr>queue = [], log_file = [], end_service = False\<rparr>"

definition no_digits :: "64 word \<Rightarrow> string" where
  "no_digits d = ''0''"

abbreviation logout_result :: parse_result_t where
  "logout_result \<equiv> \<lparr>kind = ''command.logout'', pdata = PLogout\<rparr>"

theorem logging_build_answers_the_same_witness:
  "let P = sample_platform (\<lambda>db q. (db, [])); input = stringify flat_json MLogout;
       ls = responder_lines no_digits 4711 1 logout_result (comm_error NO_COMM_ERROR ''OK'')
   in \<exists>p'. server_responder P 1 (comm_error 0 []) input logging_process = Inr p' \<and>
    logged_responder P no_digits 1 (comm_error 0 []) input (logging_process, empty_log) = Inr (p', enqueued ls empty_log)"
proof -
  let ?P = "sample_platform (\<lambda>db q. (db :: unit, []))" and ?w = "p_worker logging_process"
  let ?ls = "responder_lines no_digits 4711 1 logout_result (comm_error NO_COMM_ERROR ''OK'')"
  have P: "json_c_laws (plat_json ?P)" "allocator (plat_usable ?P)"
    using platform_ok_sample [of "\<lambda>db q. (db :: unit, [])"] by (simp_all only: platform_ok_def)
  have "message_ok MLogout" by simp
  then have parse: "parse_encoded (plat_json ?P) (plat_usable ?P) (plat_junk ?P) (stringify flat_json MLogout) = Inr logout_result"
    using parse_stringify [OF P, of MLogout "plat_junk ?P"] by (simp del: stringify.simps)
  obtain v where v: "reply ?P ''Log out successful'' (length ''Log out successful'') sample_conn (comm_error ERR_OK ''OK'') ?w =
      Inr (comm_error NO_COMM_ERROR ''OK'', ?w\<lparr>w_io := v\<rparr>)"
    using reply_sends [of ?P ?w "''Log out successful''" "length ''Log out successful''" sample_conn "comm_error ERR_OK ''OK''"]
    by (auto simp: logging_process_def)
  have u: "w_user ?w = Some sample_user" by (simp add: logging_process_def)
  have c: "p_conn logging_process = sample_conn" "p_pid logging_process = 4711" by (simp_all add: logging_process_def)
  have d: "dispatch ?P (p_conn logging_process) logout_result (comm_error 0 []) ?w =
      Inr (comm_error NO_COMM_ERROR ''OK'', ?w\<lparr>w_io := v, w_user := None\<rparr>)"
    unfolding dispatch_def Let_def parse_result_t.simps parse_data.case process_logout_cmd_def u check_logged_in bindE_simps c(1)
    using v by simp
  have "digit_char 4 = CHR ''4''" "digit_char 7 = CHR ''7''" "digit_char (Suc 0) = CHR ''1''" by code_simp+
  then have digits: "show_int 4711 = ''4711''" "show_int 1 = ''1''" by (simp_all add: show_int_def show_nat.simps)
  have fit: "list_all line_fits ?ls" "length ?ls = 3"
    by (simp_all add: responder_lines_def option_line_def says_def i_say_def thread_line_def line_fits_def
        NO_COMM_ERROR_def MAX_LOG_LENGTH_def digits)
  have "?ls = responder_lines no_digits (p_pid logging_process) 1 logout_result (comm_error NO_COMM_ERROR ''OK'')"
    by (simp only: c)
  from logging_build_answers_the_same [OF P(2) parse d this fit(1), of empty_log] fit(2) show ?thesis
    unfolding Let_def by (simp add: empty_log_def MAX_MSG_def)
qed

text \<open>
  The loop of a worker logs every request as it comes: a request text of a hundred characters, which most
  commands are, writes over the memory behind the block of the line.
\<close>

theorem long_text_overruns_worker_log:
  assumes "plat_usable P = exact_size"
    "comm_receive_data (plat_transport P) (p_conn (s_process ss)) error (w_io (p_worker (s_process ss))) = Inr (command, err, v)"
    "err_code err = 0" "cstr command = Inr t" "100 \<le> length t"
  shows "logged_receive P E limit self error (ss, s) = Inl Out_of_bounds"
  using assms
  by (simp add: logged_receive_def Let_def LOG_INFO_def sprintf_into_exact MAX_LOG_LENGTH_def)

end
