(* ===== verification/Sql_Shared.thy ===== *)
theory Sql_Shared
  imports Sql_Conn
begin

text \<open>
  The workers of the server are forked after \<open>open_sql_conn\<close>, so they write to and read from the two
  pipes of one and the same child. The mutex of \<open>lib/sqlite/sqlite.c\<close> is a variable of each process: it
  does not keep two workers from being inside \<open>run_sqlite_query\<close> together. Here a call is its two
  halves, writing the query and reading an answer, and the halves of the workers interleave. (That the
  bytes of two writers or two readers may mix as well is left out.)
\<close>

section \<open>The two halves of a query\<close>

definition put_query :: "(nat \<Rightarrow> nat) \<Rightarrow> 'db sql_engine \<Rightarrow> string \<Rightarrow> 'db sql_link \<Rightarrow> 'db sql_link result" where
  "put_query U exec query l =
     bindE (write_one_by_one_in_fd (query @ [ZERO]) (length query) 0) (\<lambda>bytes. write_request U exec bytes l)"

definition take_answer :: "(nat \<Rightarrow> nat) \<Rightarrow> 'db sql_link \<Rightarrow> (string \<times> 'db sql_link) result" where
  "take_answer U l =
     bindE (read_reply U [] (link_replies l)) (\<lambda>(asn_vector, pipe). Inr (hd asn_vector, l\<lparr>link_replies := pipe\<rparr>))"

text \<open>A worker alone runs one half after the other: that is \<open>run_sqlite_query\<close>.\<close>

lemma run_sqlite_query_halves:
  "run_sqlite_query U exec (Some l) (Some q) =
     bindE (put_query U exec q l) (\<lambda>l. bindE (take_answer U l) (\<lambda>a. Inr (Inr a)))"
  by (simp add: run_sqlite_query_def put_query_def take_answer_def bindE_assoc split_def)

section \<open>Several workers\<close>

datatype half = Put nat string | Take nat

record 'db shared_link =
  sh_link :: "'db sql_link"
  sh_answers :: "(nat \<times> string) list"   \<comment> \<open>what the workers were given, in the order of reading\<close>

inductive shared_step ::
  "(nat \<Rightarrow> nat) \<Rightarrow> 'db sql_engine \<Rightarrow> 'db shared_link \<Rightarrow> half \<Rightarrow> 'db shared_link \<Rightarrow> bool" for U exec where
  step_put: "query_ok q \<Longrightarrow> put_query U exec q (sh_link s) = Inr l \<Longrightarrow>
    shared_step U exec s (Put w q) (s\<lparr>sh_link := l\<rparr>)"
| step_take: "take_answer U (sh_link s) = Inr (a, l) \<Longrightarrow>
    shared_step U exec s (Take w) (s\<lparr>sh_link := l, sh_answers := sh_answers s @ [(w, a)]\<rparr>)"

inductive shared_run ::
  "(nat \<Rightarrow> nat) \<Rightarrow> 'db sql_engine \<Rightarrow> 'db shared_link \<Rightarrow> half list \<Rightarrow> 'db shared_link \<Rightarrow> bool" for U exec s where
  shared_nil: "shared_run U exec s [] s"
| shared_snoc: "shared_run U exec s es s' \<Longrightarrow> shared_step U exec s' e s'' \<Longrightarrow> shared_run U exec s (es @ [e]) s''"

inductive_cases shared_put_elim: "shared_step U exec s (Put w q) s'"
inductive_cases shared_take_elim: "shared_step U exec s (Take w) s'"

fun puts :: "half list \<Rightarrow> string list" where
  "puts [] = []"
| "puts (Put w q # es) = q # puts es"
| "puts (Take w # es) = puts es"

fun takers :: "half list \<Rightarrow> nat list" where
  "takers [] = []"
| "takers (Put w q # es) = takers es"
| "takers (Take w # es) = w # takers es"

lemma puts_append [simp]: "puts (es @ fs) = puts es @ puts fs"
  by (induction es rule: puts.induct) simp_all

lemma takers_append [simp]: "takers (es @ fs) = takers es @ takers fs"
  by (induction es rule: takers.induct) simp_all

text \<open>The rows of a sequence of queries and the database after it.\<close>

fun rows_of :: "'db sql_engine \<Rightarrow> 'db \<Rightarrow> string list \<Rightarrow> row list list" where
  "rows_of exec db [] = []"
| "rows_of exec db (q # qs) = snd (exec db q) # rows_of exec (fst (exec db q)) qs"

definition database_after :: "'db sql_engine \<Rightarrow> 'db \<Rightarrow> string list \<Rightarrow> 'db" where
  "database_after exec db qs = fold (\<lambda>q db. fst (exec db q)) qs db"

lemma rows_of_snoc:
  "rows_of exec db (qs @ [q]) = rows_of exec db qs @ [snd (exec (database_after exec db qs) q)]"
  by (induction qs arbitrary: db) (simp_all add: database_after_def)

lemma exec_all_rows: "fst (exec_all exec db qs) = map first_line (rows_of exec db qs)"
  by (induction qs arbitrary: db) (simp_all add: split_beta Let_def)

lemma rows_of_ok:
  "\<forall>db q. query_ok q \<longrightarrow> rows_ok (snd (exec db q)) \<Longrightarrow> list_all query_ok qs \<Longrightarrow>
    \<forall>rs \<in> set (rows_of exec db qs). rows_ok rs"
  by (induction qs arbitrary: db) auto

lemma exec_all_database: "snd (exec_all exec db qs) = database_after exec db qs"
  by (induction qs arbitrary: db) (simp_all add: split_beta Let_def database_after_def)

lemma zip_more: "length ws \<le> length xs \<Longrightarrow> zip ws (xs @ ys) = zip ws xs"
  by (simp add: zip_append2)

lemma zip_snoc: "length ws < length xs \<Longrightarrow> zip (ws @ [w]) xs = zip ws xs @ [(w, xs ! length ws)]"
proof (induction ws arbitrary: xs)
  case Nil
  then show ?case by (cases xs) simp_all
next
  case (Cons v ws)
  then show ?case by (cases xs) simp_all
qed

section \<open>The pipes as a queue\<close>

definition queue_inv ::
  "'db sql_engine \<Rightarrow> 'db \<Rightarrow> string list \<Rightarrow> nat list \<Rightarrow> 'db shared_link \<Rightarrow> bool" where
  "queue_inv exec db qs ws s \<longleftrightarrow>
     link_running (sh_link s) \<and> link_requests (sh_link s) = [] \<and> length ws \<le> length qs \<and>
     link_db (sh_link s) = database_after exec db qs \<and>
     link_replies (sh_link s) = concat (map reply_text (drop (length ws) (rows_of exec db qs))) \<and>
     sh_answers s = zip ws (map first_line (rows_of exec db qs))"

lemma length_rows_of [simp]: "length (rows_of exec db qs) = length qs"
  by (induction qs arbitrary: db) simp_all

lemma put_query_ok:
  assumes "allocator U" "link_running l" "link_requests l = []" "query_ok q" "rows_ok (snd (exec (link_db l) q))"
  shows "put_query U exec q l = Inr (l\<lparr>link_db := fst (exec (link_db l) q),
    link_replies := link_replies l @ reply_text (snd (exec (link_db l) q))\<rparr>)"
proof -
  obtain s where s: "q = s @ '';''" "CHR '';'' \<notin> set s" "nul_free s" "length s \<le> 100"
    "q \<noteq> SQL_CONNECTION_CLOSE_STR"
    using assms(4) by (auto simp: query_ok_def)
  have r: "read_query 0 [] q = Some (q, [])" using s by (simp add: read_query_end)
  have "write_one_by_one_in_fd (q @ [ZERO]) (length q) 0 = Inr q"
    using s(1) by (intro write_string) simp
  then show ?thesis
    using assms r s(5) sqlite_server_query [of U "l\<lparr>link_requests := q\<rparr>" q "[]" exec]
    by (simp add: put_query_def write_request_def rows_ok_def sqlite_server_waits)
qed

lemma take_answer_ok:
  assumes "allocator U" "link_replies l = reply_text rs @ rest" "rows_ok rs"
  shows "take_answer U l = Inr (first_line rs, l\<lparr>link_replies := rest\<rparr>)"
  using read_reply_lines [OF assms(1), of rs "[]" rest] assms(2,3)
  by (cases rs) (simp_all add: take_answer_def rows_ok_def first_line_def)

lemma take_answer_empty: "link_replies l = [] \<Longrightarrow> take_answer U l = Inl Blocked"
  by (simp add: take_answer_def) (subst read_reply.simps, simp)

lemma queue_put:
  assumes "allocator U" "\<forall>db q. query_ok q \<longrightarrow> rows_ok (snd (exec db q))" "queue_inv exec db qs ws s"
    "shared_step U exec s (Put w q) s'"
  shows "queue_inv exec db (qs @ [q]) ws s'"
  using assms(4)
proof (rule shared_put_elim)
  fix l
  assume s': "s' = s\<lparr>sh_link := l\<rparr>" and q: "query_ok q" and p: "put_query U exec q (sh_link s) = Inr l"
  have inv: "link_running (sh_link s)" "link_requests (sh_link s) = []" "length ws \<le> length qs"
    "link_db (sh_link s) = database_after exec db qs"
    "link_replies (sh_link s) = concat (map reply_text (drop (length ws) (rows_of exec db qs)))"
    "sh_answers s = zip ws (map first_line (rows_of exec db qs))"
    using assms(3) unfolding queue_inv_def by simp_all
  have rs: "rows_ok (snd (exec (link_db (sh_link s)) q))" using assms(2) q by blast
  have l: "l = (sh_link s)\<lparr>link_db := fst (exec (link_db (sh_link s)) q),
      link_replies := link_replies (sh_link s) @ reply_text (snd (exec (link_db (sh_link s)) q))\<rparr>"
    using p put_query_ok [OF assms(1) inv(1,2) q, of exec, OF rs] by simp
  show ?thesis
    using inv unfolding queue_inv_def s' l by (simp add: rows_of_snoc database_after_def zip_more)
qed

lemma queue_take:
  assumes "allocator U" "\<forall>rs \<in> set (rows_of exec db qs). rows_ok rs" "queue_inv exec db qs ws s"
    "shared_step U exec s (Take w) s'"
  shows "queue_inv exec db qs (ws @ [w]) s'"
  using assms(4)
proof (rule shared_take_elim)
  fix a l
  assume s': "s' = s\<lparr>sh_link := l, sh_answers := sh_answers s @ [(w, a)]\<rparr>" and t: "take_answer U (sh_link s) = Inr (a, l)"
  have inv: "link_running (sh_link s)" "link_requests (sh_link s) = []" "length ws \<le> length qs"
    "link_db (sh_link s) = database_after exec db qs"
    "link_replies (sh_link s) = concat (map reply_text (drop (length ws) (rows_of exec db qs)))"
    "sh_answers s = zip ws (map first_line (rows_of exec db qs))"
    using assms(3) unfolding queue_inv_def by simp_all
  have lt: "length ws < length qs"
  proof (rule ccontr)
    assume "\<not> length ws < length qs"
    then have "link_replies (sh_link s) = []" using inv(5) by simp
    from take_answer_empty [OF this, of U] t show False by simp
  qed
  let ?rs = "rows_of exec db qs ! length ws"
  have d: "drop (length ws) (rows_of exec db qs) = ?rs # drop (Suc (length ws)) (rows_of exec db qs)"
    using lt by (simp add: Cons_nth_drop_Suc)
  have "rows_ok ?rs" using assms(2) lt by simp
  from take_answer_ok [OF assms(1) _ this, of "sh_link s"] t inv(5) d
  have al: "a = first_line ?rs" "l = (sh_link s)\<lparr>link_replies := concat (map reply_text (drop (Suc (length ws)) (rows_of exec db qs)))\<rparr>"
    by simp_all
  have "zip (ws @ [w]) (map first_line (rows_of exec db qs)) =
      zip ws (map first_line (rows_of exec db qs)) @ [(w, first_line ?rs)]"
    using zip_snoc [of ws "map first_line (rows_of exec db qs)" w] lt by simp
  then show ?thesis
    using inv(1-4,6) lt unfolding queue_inv_def s' al by simp
qed

section \<open>Properties\<close>


text \<open>Two workers, the second reads first.\<close>

definition count_engine :: "nat sql_engine" where
  "count_engine n q = (Suc n, [[Some (show_nat (n mod 10))]])"

lemma count_engine_ok: "rows_ok (snd (count_engine n q))"
proof -
  have "length (show_nat (n mod 10)) = 1" by (subst show_nat.simps) simp
  moreover have "NEWLINE \<notin> set (show_nat (n mod 10))" using show_nat_digits by (fastforce simp: is_digit_def)
  ultimately show ?thesis
    by (auto simp: count_engine_def rows_ok_def row_ok_def row_line_def add_cell_def cell_text_def MAX_COLUMNS_def
        MAX_QUERY_RESPONSE_LENGTH_def END_STR_def)
qed

lemma count_answers:
  "count_engine n q = (Suc n, [[Some (show_nat (n mod 10))]])" "show_nat 0 = ''0''" "show_nat (Suc 0) = ''1''"
  by (rule count_engine_def) code_simp+


end
