(* ===== verification/Monitor.thy ===== *)
theory Monitor
  imports Status
begin

text \<open>
  \<open>monitor/main.c\<close>: the tables of workers and threads the monitor keeps from the messages it sees, and
  the screen it draws of them. The two kinds of table are blocks of 100 pointers: \<open>U\<close> gives the size
  of a block. The monitor reads the three members of the message one by one and without taking the
  semaphore, so they may come from different messages.
\<close>

section \<open>The tables\<close>

record thread_t =
  t_id :: int
  t_status :: int

record worker_t =
  wk_id :: int
  wk_threads :: "thread_t list"

text \<open>\<open>block[i] = \<dots>; block[i + 1] = NULL\<close> in a block of \<open>100 * sizeof(pointer)\<close>\<close>

definition fits_100 :: "(nat \<Rightarrow> nat) \<Rightarrow> nat \<Rightarrow> bool" where
  "fits_100 U i \<longleftrightarrow> (i + 2) * 8 \<le> U (100 * 8)"

text \<open>The inner loop: \<open>None\<close> when no thread has the number.\<close>

fun set_status :: "int \<Rightarrow> int \<Rightarrow> thread_t list \<Rightarrow> thread_t list option" where
  "set_status t st [] = None"
| "set_status t st (x # xs) =
     (if t_id x = t then Some (x\<lparr>t_status := st\<rparr> # xs)
      else (case set_status t st xs of None \<Rightarrow> None | Some ys \<Rightarrow> Some (x # ys)))"

definition update_worker :: "(nat \<Rightarrow> nat) \<Rightarrow> int \<Rightarrow> int \<Rightarrow> worker_t \<Rightarrow> worker_t result" where
  "update_worker U t st w =
     (case set_status t st (wk_threads w) of
        Some ts \<Rightarrow> Inr (w\<lparr>wk_threads := ts\<rparr>)
      | None \<Rightarrow>
          if fits_100 U (length (wk_threads w))
          then Inr (w\<lparr>wk_threads := wk_threads w @ [\<lparr>t_id = t, t_status = st\<rparr>]\<rparr>)
          else Inl Out_of_bounds)"

definition new_worker :: "int \<Rightarrow> int \<Rightarrow> int \<Rightarrow> worker_t" where
  "new_worker w t st = \<lparr>wk_id = w, wk_threads = [\<lparr>t_id = t, t_status = st\<rparr>]\<rparr>"

text \<open>The outer loop, \<open>n\<close> workers before the rest.\<close>

fun update_workers :: "(nat \<Rightarrow> nat) \<Rightarrow> int \<Rightarrow> int \<Rightarrow> int \<Rightarrow> nat \<Rightarrow> worker_t list \<Rightarrow> worker_t list result" where
  "update_workers U w t st n [] =
     (if fits_100 U n \<and> fits_100 U 0 then Inr [new_worker w t st] else Inl Out_of_bounds)"
| "update_workers U w t st n (x # xs) =
     (if wk_id x = w then bindE (update_worker U t st x) (\<lambda>x. Inr (x # xs))
      else bindE (update_workers U w t st (Suc n) xs) (\<lambda>ys. Inr (x # ys)))"

text \<open>
  One turn: \<open>a\<close>, \<open>b\<close>, \<open>c\<close> are what the segment holds at the three reads. The thread number, a
  \<open>long\<close>, is kept as an \<open>int\<close>.
\<close>

definition monitor_turn ::
  "(nat \<Rightarrow> nat) \<Rightarrow> shared_data_t \<times> shared_data_t \<times> shared_data_t \<Rightarrow> worker_t list \<Rightarrow> worker_t list result" where
  "monitor_turn U seen ws =
     (case seen of (a, b, c) \<Rightarrow>
        if sd_worker a = -1 then Inr ws
        else update_workers U (sd_worker a) (to_int32 (sd_thread b)) (sd_status c) 0 ws)"

fun monitor_run ::
  "(nat \<Rightarrow> nat) \<Rightarrow> (shared_data_t \<times> shared_data_t \<times> shared_data_t) list \<Rightarrow> worker_t list \<Rightarrow> worker_t list result" where
  "monitor_run U [] ws = Inr ws"
| "monitor_run U (m # ms) ws = bindE (monitor_turn U m ws) (monitor_run U ms)"

text \<open>
  Before the loop: the shared memory and the semaphore are made if they are not there, and the message
  in them is emptied, so a status posted before the monitor starts is lost.
\<close>

definition monitor_init :: "bool \<Rightarrow> ipc \<Rightarrow> (shared_data_t \<times> ipc) result" where
  "monitor_init shm_ok s =
     (if \<not> shm_ok then Inl Aborted
      else Inr (\<lparr>sd_worker = -1, sd_thread = -1, sd_status = -1\<rparr>, snd (init_monitor shm_ok s)))"

lemma monitor_init_quiet: "monitor_init ok s = Inr (m, s') \<Longrightarrow> monitor_turn U (m, b, c) ws = Inr ws"
  by (auto simp: monitor_init_def monitor_turn_def split: if_splits)

text \<open>The handler of \<open>SIGINT\<close>, after which the process ends; \<open>endwin\<close> restores the terminal.\<close>

definition monitor_exit :: "ipc \<Rightarrow> ipc" where
  "monitor_exit s =
     s\<lparr>shm_objects := shm_objects s - {SEM_PATH}, semaphores := semaphores s - {SEM_PATH}, mapped := False\<rparr>"

text \<open>A monitor that is stopped takes the server's semaphore with it and leaves the memory.\<close>

theorem monitor_exit_takes_semaphore:
  assumes "monitor_init True s = Inr (m, s1)"
  shows "SHMOBJ_PATH \<in> shm_objects (monitor_exit s1) \<and> SEM_PATH \<notin> semaphores (monitor_exit s1)"
  using assms
  by (auto simp: monitor_init_def init_monitor_def monitor_exit_def SHMOBJ_PATH_def SEM_PATH_def)

theorem monitor_exit_takes_semaphore_witness:
  "let s1 = \<lparr>shm_objects = {SHMOBJ_PATH}, semaphores = {SEM_PATH}, mapped = True\<rparr>
   in SHMOBJ_PATH \<in> shm_objects (monitor_exit s1) \<and> SEM_PATH \<notin> semaphores (monitor_exit s1)"
  unfolding Let_def
  by (rule monitor_exit_takes_semaphore [of "\<lparr>shm_objects = {}, semaphores = {}, mapped = False\<rparr>" "\<lparr>sd_worker = -1, sd_thread = -1, sd_status = -1\<rparr>"])
     (simp add: monitor_init_def init_monitor_def)

section \<open>The screen\<close>

text \<open>Rows of text; colours are left out.\<close>

type_synonym screen = "nat \<Rightarrow> string"

definition mvprintw :: "nat \<Rightarrow> nat \<Rightarrow> string \<Rightarrow> screen \<Rightarrow> screen" where
  "mvprintw row col s scr =
     scr(row := take col (scr row @ replicate col (CHR '' '')) @ s @ drop (col + length s) (scr row))"

definition blank_line :: string where "blank_line = replicate 24 (CHR '' '')"

text \<open>The loop over the threads: the row, the number of lines, the screen.\<close>

fun draw_threads :: "thread_t list \<Rightarrow> nat \<Rightarrow> nat \<Rightarrow> screen \<Rightarrow> nat \<times> nat \<times> screen" where
  "draw_threads [] j l scr = (j, l, scr)"
| "draw_threads (x # xs) j l scr =
     (if t_status x \<noteq> STATUS_DOWN
      then draw_threads xs (j + 1) (l + 1) (mvprintw j 2 (''thread '' @ show_int (t_id x) @ '':'') scr)
      else draw_threads xs j l scr)"

fun draw_workers :: "worker_t list \<Rightarrow> nat \<Rightarrow> screen \<Rightarrow> nat \<times> screen" where
  "draw_workers [] j scr = (j, scr)"
| "draw_workers (w # ws) j scr =
     (let (j1, l, scr) = draw_threads (wk_threads w) (j + 1) 0 (mvprintw j 0 (''worker '' @ show_int (wk_id w)) scr)
      in if l = 0 then draw_workers ws (j1 - 1) (mvprintw (j1 - 1) 0 blank_line scr)
         else draw_workers ws j1 scr)"

text \<open>\<open>clear\<close>, and the loops.\<close>

definition draw :: "worker_t list \<Rightarrow> screen" where
  "draw ws = snd (draw_workers ws 0 (\<lambda>_. []))"

section \<open>The abstract table\<close>

text \<open>A table of the last status of every worker and thread.\<close>

locale status_table =
  fixes empty :: 's
    and put :: "int \<Rightarrow> int \<Rightarrow> int \<Rightarrow> 's \<Rightarrow> 's result"
    and status :: "'s \<Rightarrow> int \<Rightarrow> int \<Rightarrow> int option"
    and inv :: "'s \<Rightarrow> bool"
  assumes empty_inv: "inv empty"
    and empty_status: "status empty w t = None"
    and put_inv: "inv s \<Longrightarrow> put w t st s = Inr s' \<Longrightarrow> inv s'"
    and put_status: "inv s \<Longrightarrow> put w t st s = Inr s' \<Longrightarrow>
      status s' w' t' = (if w' = w \<and> t' = t then Some st else status s w' t')"
begin

fun puts :: "(int \<times> int \<times> int) list \<Rightarrow> 's \<Rightarrow> 's result" where
  "puts [] s = Inr s"
| "puts ((w, t, st) # ms) s = bindE (put w t st s) (puts ms)"

lemma puts_status:
  "inv s \<Longrightarrow> puts ms s = Inr s' \<Longrightarrow> inv s' \<and>
    status s' w t = (case map_of (rev (map (\<lambda>(w, t, st). ((w, t), st)) ms)) (w, t) of
      None \<Rightarrow> status s w t | Some st \<Rightarrow> Some st)"
proof (induction ms arbitrary: s)
  case (Cons m ms)
  obtain w1 t1 st where m: "m = (w1, t1, st)" by (cases m)
  with Cons.prems(2) obtain s1 where s1: "put w1 t1 st s = Inr s1" "puts ms s1 = Inr s'"
    by (auto simp: bindE_Inr_iff)
  from Cons.IH [OF put_inv [OF Cons.prems(1) s1(1)] s1(2)] put_status [OF Cons.prems(1) s1(1), of w t]
  show ?case by (auto simp: m map_add_def map_of_append split: option.splits)
qed simp

lemma last_status:
  "puts ms empty = Inr s \<Longrightarrow> status s w t = map_of (rev (map (\<lambda>(w, t, st). ((w, t), st)) ms)) (w, t)"
  using puts_status [OF empty_inv] by (simp add: empty_status split: option.splits)

end

section \<open>The tables implement it\<close>

definition thread_status :: "thread_t list \<Rightarrow> int \<Rightarrow> int option" where
  "thread_status ts t = map_of (map (\<lambda>x. (t_id x, t_status x)) ts) t"

definition shown_status :: "worker_t list \<Rightarrow> int \<Rightarrow> int \<Rightarrow> int option" where
  "shown_status ws w t =
     (case map_of (map (\<lambda>x. (wk_id x, wk_threads x)) ws) w of None \<Rightarrow> None | Some ts \<Rightarrow> thread_status ts t)"

definition tables_ok :: "worker_t list \<Rightarrow> bool" where
  "tables_ok ws \<longleftrightarrow> distinct (map wk_id ws) \<and> (\<forall>w \<in> set ws. distinct (map t_id (wk_threads w)))"

lemma set_status_None: "set_status t st ts = None \<longleftrightarrow> t \<notin> set (map t_id ts)"
  by (induction ts) (auto split: option.splits)

lemma set_status_Some:
  "set_status t st ts = Some ts' \<Longrightarrow> map t_id ts' = map t_id ts \<and>
    thread_status ts' t' = (if t' = t then Some st else thread_status ts t')"
  by (induction ts arbitrary: ts') (auto simp: thread_status_def split: option.splits if_splits)

lemma thread_status_None: "t \<notin> set (map t_id ts) \<Longrightarrow> thread_status ts t = None"
  by (auto simp: thread_status_def map_of_eq_None_iff)

lemma thread_status_append:
  "thread_status (ts @ [\<lparr>t_id = t, t_status = st\<rparr>]) t' =
    (case thread_status ts t' of Some s \<Rightarrow> Some s | None \<Rightarrow> if t' = t then Some st else None)"
  by (simp add: thread_status_def map_of_append map_add_def split: option.splits)

lemma update_worker_status:
  assumes "update_worker U t st x = Inr y" "distinct (map t_id (wk_threads x))"
  shows "wk_id y = wk_id x \<and> distinct (map t_id (wk_threads y)) \<and>
    thread_status (wk_threads y) t' = (if t' = t then Some st else thread_status (wk_threads x) t')"
  using assms set_status_Some [of t st "wk_threads x"] set_status_None [of t st "wk_threads x"] thread_status_None [of t "wk_threads x"]
  by (auto simp: update_worker_def thread_status_append split: option.splits if_splits)

lemma update_workers_status:
  "update_workers U w t st n ws = Inr ws' \<Longrightarrow> tables_ok ws \<Longrightarrow>
    tables_ok ws' \<and> set (map wk_id ws') = insert w (set (map wk_id ws)) \<and>
    shown_status ws' w' t' = (if w' = w \<and> t' = t then Some st else shown_status ws w' t')"
proof (induction U w t st n ws arbitrary: ws' rule: update_workers.induct)
  case (1 U w t st n)
  then show ?case
    by (auto simp: tables_ok_def shown_status_def new_worker_def thread_status_def split: if_splits)
next
  case (2 U w t st n x xs)
  show ?case
  proof (cases "wk_id x = w")
    case True
    with "2.prems" obtain y where y: "update_worker U t st x = Inr y" "ws' = y # xs"
      by (auto simp: bindE_Inr_iff)
    have "distinct (map t_id (wk_threads x))" using "2.prems"(2) by (simp add: tables_ok_def)
    from update_worker_status [OF y(1) this, of t'] "2.prems"(2) y(2) True
    show ?thesis by (auto simp: tables_ok_def shown_status_def)
  next
    case False
    with "2.prems"(1) obtain ys where ys: "update_workers U w t st (Suc n) xs = Inr ys" "ws' = x # ys"
      by (auto simp: bindE_Inr_iff)
    have "tables_ok xs" using "2.prems"(2) by (simp add: tables_ok_def)
    from "2.IH" [OF False ys(1) this] "2.prems"(2) ys(2) False
    show ?thesis by (auto simp: tables_ok_def shown_status_def)
  qed
qed

interpretation tables: status_table "[]" "\<lambda>w t st ws. update_workers U w t st 0 ws" shown_status tables_ok
  for U
proof unfold_locales
  show "tables_ok []" by (simp add: tables_ok_def)
  show "shown_status [] w t = None" for w t by (simp add: shown_status_def)
qed (use update_workers_status in blast)+

definition status_of_message :: "shared_data_t \<Rightarrow> int \<times> int \<times> int" where
  "status_of_message m = (sd_worker m, to_int32 (sd_thread m), sd_status m)"

lemma monitor_run_puts:
  "monitor_run U (map (\<lambda>m. (m, m, m)) ms) ws =
    tables.puts U (map status_of_message (filter (\<lambda>m. sd_worker m \<noteq> -1) ms)) ws"
proof (induction ms arbitrary: ws)
  case (Cons m ms)
  show ?case
    by (cases "sd_worker m = -1") (simp_all add: monitor_turn_def status_of_message_def Cons.IH cong: bindE_cong)
qed simp

section \<open>Room\<close>

lemma update_workers_room:
  "update_workers U w t st n ws = Inr ws' \<Longrightarrow> length ws' \<le> length ws + 1"
  by (induction U w t st n ws arbitrary: ws' rule: update_workers.induct) (auto simp: bindE_Inr_iff split: if_splits)

lemma update_workers_new:
  "w \<notin> set (map wk_id ws) \<Longrightarrow> update_workers U w t st n ws =
    (if fits_100 U (n + length ws) \<and> fits_100 U 0 then Inr (ws @ [new_worker w t st]) else Inl Out_of_bounds)"
  by (induction ws arbitrary: n) simp_all

section \<open>Properties\<close>

text \<open>
  C22: what the monitor knows is what the processes reported: after any messages, each read whole, the
  status of a thread of a worker is the one of the last message about it, and no worker or thread is
  in the tables twice.
\<close>

theorem monitor_shows_last_status:
  assumes "monitor_run U (map (\<lambda>m. (m, m, m)) ms) [] = Inr ws"
  shows "tables_ok ws \<and> shown_status ws w t =
    map_of (rev (map (\<lambda>m. ((sd_worker m, to_int32 (sd_thread m)), sd_status m)) (filter (\<lambda>m. sd_worker m \<noteq> -1) ms))) (w, t)"
proof -
  note p = assms [unfolded monitor_run_puts]
  have "tables_ok []" by (simp add: tables_ok_def)
  from tables.puts_status [OF this p] tables.last_status [OF p, of w t]
  show ?thesis by (simp add: rev_map comp_def status_of_message_def)
qed

text \<open>
  A message that is read while it is being replaced can be shown for a worker and a thread that
  never had this status: the monitor reads without taking the semaphore.
\<close>

theorem torn_read_shows_false_status:
  assumes "allocator U" "sd_worker a \<noteq> -1" "sd_worker a \<noteq> sd_worker b"
    "to_int32 (sd_thread a) \<noteq> to_int32 (sd_thread b)"
  shows "\<exists>ws vs. monitor_turn U (a, b, b) [] = Inr ws \<and>
    shown_status ws (sd_worker a) (to_int32 (sd_thread b)) = Some (sd_status b) \<and>
    monitor_run U [(a, a, a), (b, b, b)] [] = Inr vs \<and>
    shown_status vs (sd_worker a) (to_int32 (sd_thread b)) = None"
proof -
  have "fits_100 U 0" "fits_100 U 1"
    using allocatorD [OF assms(1), of "100 * 8"] by (simp_all add: fits_100_def)
  with assms(2-4) show ?thesis
    by (auto simp: monitor_turn_def shown_status_def new_worker_def thread_status_def)
qed

text \<open>
  The table of workers is not checked: with an allocator that gives what was asked for, the
  hundredth worker is written behind it. Workers are never taken out, so this is the hundredth
  connection.
\<close>

theorem monitor_table_overflows:
  assumes "tables_ok ws" "w \<notin> set (map wk_id ws)" "w \<noteq> -1" "sd_worker m = w"
  shows "monitor_turn exact_size (m, m, m) ws = Inl Out_of_bounds \<longleftrightarrow> 99 \<le> length ws"
  using update_workers_new [OF assms(2), of exact_size "to_int32 (sd_thread m)" "sd_status m" 0] assms(3,4)
  by (auto simp: monitor_turn_def fits_100_def exact_size_def)

section \<open>Concrete messages\<close>

definition sample_message :: "int \<Rightarrow> int \<Rightarrow> int \<Rightarrow> shared_data_t" where
  "sample_message w t st = \<lparr>sd_worker = w, sd_thread = t, sd_status = st\<rparr>"

theorem monitor_shows_last_status_witness:
  "\<exists>ws. monitor_run exact_size (map (\<lambda>m. (m, m, m)) [sample_message 7 1 STATUS_OK, sample_message 7 1 STATUS_DOWN]) [] = Inr ws \<and>
    tables_ok ws \<and> shown_status ws 7 1 =
    map_of (rev (map (\<lambda>m. ((sd_worker m, to_int32 (sd_thread m)), sd_status m))
      (filter (\<lambda>m. sd_worker m \<noteq> -1) [sample_message 7 1 STATUS_OK, sample_message 7 1 STATUS_DOWN]))) (7, 1)"
proof -
  obtain ws where "monitor_run exact_size (map (\<lambda>m. (m, m, m)) [sample_message 7 1 STATUS_OK, sample_message 7 1 STATUS_DOWN]) []
      = Inr ws"
    by (simp add: monitor_turn_def sample_message_def fits_100_def exact_size_def new_worker_def update_worker_def)
  from this monitor_shows_last_status [OF this] show ?thesis by blast
qed

theorem torn_read_shows_false_status_witness:
  "let a = sample_message 7 0 STATUS_IDLE; b = sample_message 8 5 STATUS_ERROR
   in \<exists>ws vs. monitor_turn exact_size (a, b, b) [] = Inr ws \<and>
    shown_status ws (sd_worker a) (to_int32 (sd_thread b)) = Some (sd_status b) \<and>
    monitor_run exact_size [(a, a, a), (b, b, b)] [] = Inr vs \<and>
    shown_status vs (sd_worker a) (to_int32 (sd_thread b)) = None"
  unfolding Let_def
  by (rule torn_read_shows_false_status) (simp_all add: sample_message_def int32_def)

theorem monitor_table_overflows_witness:
  "let ws = map (\<lambda>i. new_worker (int i) 0 STATUS_IDLE) [0..<99]; m = sample_message 99 0 STATUS_IDLE
   in monitor_turn exact_size (m, m, m) ws = Inl Out_of_bounds \<longleftrightarrow> 99 \<le> length ws"
  unfolding Let_def
  by (rule monitor_table_overflows [of _ 99])
     (auto simp: tables_ok_def sample_message_def new_worker_def comp_def distinct_map inj_on_def)

section \<open>What is on the screen\<close>

definition rstrip :: "string \<Rightarrow> string" where
  "rstrip s = rev (dropWhile (\<lambda>c. c = CHR '' '') (rev s))"

definition thread_line :: "thread_t \<Rightarrow> string" where
  "thread_line x = ''  thread '' @ show_int (t_id x) @ '':''"

definition worker_lines :: "worker_t \<Rightarrow> string list" where
  "worker_lines w =
     (let live = filter (\<lambda>x. t_status x \<noteq> STATUS_DOWN) (wk_threads w)
      in if live = [] then [] else (''worker '' @ show_int (wk_id w)) # map thread_line live)"

lemma rstrip_spaces [simp]: "rstrip (replicate n (CHR '' '')) = []"
  by (simp add: rstrip_def)

text \<open>The first rows are these lines, the next may hold blanks, all others are empty.\<close>

definition shows_lines :: "string list \<Rightarrow> screen \<Rightarrow> bool" where
  "shows_lines ls scr \<longleftrightarrow> (\<forall>r < length ls. rstrip (scr r) = ls ! r) \<and>
     (\<exists>n \<le> 24. scr (length ls) = replicate n (CHR '' '')) \<and> (\<forall>r > length ls. scr r = [])"

lemma rstrip_Nil [simp]: "rstrip [] = []"
  by (simp add: rstrip_def)

lemma rstrip_line: "s \<noteq> [] \<Longrightarrow> last s \<noteq> CHR '' '' \<Longrightarrow> rstrip (s @ replicate n (CHR '' '')) = s"
  by (cases s rule: rev_cases) (simp_all add: rstrip_def dropWhile_append)

lemma no_rows: "(\<lambda>r. if (j :: nat) \<le> r \<and> r < j then f r else g r) = g"
  by (rule ext) auto

lemma rows_Cons:
  "(\<lambda>r. if j + 1 \<le> r \<and> r < j + 1 + n then f (xs ! (r - (j + 1))) else (g(j := f x)) r) =
   (\<lambda>r. if j \<le> r \<and> r < j + Suc n then f ((x # xs) ! (r - j)) else g r)"
proof (rule ext)
  fix r
  consider "r < j" | "r = j" | k where "r = Suc (j + k)"
    by (metis less_iff_Suc_add linorder_neqE_nat)
  then show "(if j + 1 \<le> r \<and> r < j + 1 + n then f (xs ! (r - (j + 1))) else (g(j := f x)) r) =
     (if j \<le> r \<and> r < j + Suc n then f ((x # xs) ! (r - j)) else g r)"
    by cases (simp_all add: Suc_diff_le)
qed

lemma draw_threads_lines:
  "\<forall>r \<ge> j. scr r = [] \<Longrightarrow> draw_threads xs j l scr =
    (let live = filter (\<lambda>x. t_status x \<noteq> STATUS_DOWN) xs in
     (j + length live, l + length live,
      \<lambda>r. if j \<le> r \<and> r < j + length live then thread_line (live ! (r - j)) else scr r))"
proof (induction xs arbitrary: j l scr)
  case Nil
  show ?case by (simp add: no_rows)
next
  case (Cons x xs)
  show ?case
  proof (cases "t_status x = STATUS_DOWN")
    case True
    with Cons.IH [OF Cons.prems] show ?thesis by simp
  next
    case False
    let ?scr = "mvprintw j 2 (''thread '' @ show_int (t_id x) @ '':'') scr"
    have s: "?scr = scr(j := thread_line x)"
      using Cons.prems by (simp add: mvprintw_def thread_line_def numeral_eq_Suc)
    have "\<forall>r \<ge> j + 1. (scr(j := thread_line x)) r = []" using Cons.prems by simp
    with Cons.IH [of "j + 1" "scr(j := thread_line x)" "l + 1"] have ih:
      "draw_threads xs (j + 1) (l + 1) (scr(j := thread_line x)) =
        (let live = filter (\<lambda>x. t_status x \<noteq> STATUS_DOWN) xs in
         (j + 1 + length live, l + 1 + length live, \<lambda>r. if j \<le> r \<and> r < j + Suc (length live)
            then thread_line ((x # live) ! (r - j)) else scr r))"
      unfolding Let_def rows_Cons by blast
    have "draw_threads (x # xs) j l scr = draw_threads xs (j + 1) (l + 1) (scr(j := thread_line x))"
      using False s by simp
    with ih False show ?thesis by (simp add: Let_def)
  qed
qed

lemma length_show_int32: "int32 i \<Longrightarrow> length (show_int i) \<le> 11"
proof -
  assume "int32 i"
  then have "nat i < 10 ^ Suc 9" "nat (- i) < 10 ^ Suc 9" by (auto simp: int32_def nat_less_iff)
  then show ?thesis
    using length_show_nat_bound [of "nat i" 9] length_show_nat_bound [of "nat (- i)" 9] by (simp add: show_int_def)
qed

lemma last_show_int: "last (show_int i) \<noteq> CHR '' ''"
  using show_int_chars [of "last (show_int i)" i] by (auto simp: is_digit_def)

lemma draw_workers_lines:
  "shows_lines ls scr \<Longrightarrow> \<forall>w \<in> set ws. int32 (wk_id w) \<Longrightarrow>
    \<exists>scr'. draw_workers ws (length ls) scr = (length (ls @ concat (map worker_lines ws)), scr') \<and>
      shows_lines (ls @ concat (map worker_lines ws)) scr'"
proof (induction ws arbitrary: ls scr)
  case Nil
  then show ?case by auto
next
  case (Cons w ws)
  let ?s = "''worker '' @ show_int (wk_id w)" and ?j = "length ls"
  let ?scr = "mvprintw ?j 0 ?s scr"
  let ?live = "filter (\<lambda>x. t_status x \<noteq> STATUS_DOWN) (wk_threads w)"
  obtain n where n: "n \<le> 24" "scr ?j = replicate n (CHR '' '')" and rest: "\<forall>r > ?j. scr r = []"
    and old: "\<forall>r < ?j. rstrip (scr r) = ls ! r"
    using Cons.prems(1) by (auto simp: shows_lines_def)
  have len: "length ?s \<le> 18" using length_show_int32 [of "wk_id w"] Cons.prems(2) by simp
  have scr: "?scr = scr(?j := ?s @ replicate (n - length ?s) (CHR '' ''))"
    using n(2) by (simp add: mvprintw_def)
  then have empty: "\<forall>r \<ge> ?j + 1. ?scr r = []" using rest by simp
  note threads = draw_threads_lines [OF empty, of "wk_threads w" 0]
  show ?case
  proof (cases "?live = []")
    case True
    let ?scr' = "mvprintw ?j 0 blank_line ?scr"
    have "?scr' = scr(?j := replicate 24 (CHR '' ''))"
    proof -
      have "?scr' = ?scr(?j := replicate 24 (CHR '' '') @ drop 24 (?scr ?j))"
        by (simp add: mvprintw_def blank_line_def)
      moreover have "length (?scr ?j) \<le> 24" unfolding scr using len n(1) by simp
      ultimately show ?thesis unfolding scr by simp
    qed
    then have "shows_lines ls ?scr'" using old rest by (auto simp: shows_lines_def)
    moreover have "draw_threads (wk_threads w) (?j + 1) 0 ?scr = (?j + 1, 0, ?scr)"
      using threads True by (simp add: Let_def no_rows)
    moreover have "worker_lines w = []" using True by (simp add: worker_lines_def)
    ultimately show ?thesis
      using Cons.IH [of ls ?scr'] Cons.prems(2) by simp
  next
    case False
    let ?scr' = "\<lambda>r. if ?j + 1 \<le> r \<and> r < ?j + 1 + length ?live then thread_line (?live ! (r - (?j + 1))) else ?scr r"
    have "rstrip (?scr ?j) = ?s"
      unfolding scr using rstrip_line [of ?s "n - length ?s"] last_show_int [of "wk_id w"] by simp
    moreover have "rstrip (thread_line x) = thread_line x" for x
      using rstrip_line [of "thread_line x" 0] by (simp add: thread_line_def)
    moreover have "?scr r = scr r" if "r \<noteq> ?j" for r unfolding scr using that by simp
    moreover have lines: "worker_lines w = ?s # map thread_line ?live"
      using False by (simp add: worker_lines_def)
    ultimately have rows: "rstrip (?scr' r) = (ls @ worker_lines w) ! r" if "r < length (ls @ worker_lines w)" for r
    proof (cases "r < ?j")
      case True
      with old \<open>\<And>r. r \<noteq> ?j \<Longrightarrow> ?scr r = scr r\<close> [of r] show ?thesis by (simp add: nth_append)
    next
      case False
      then obtain k where k: "r = ?j + k" using le_Suc_ex [of ?j r] by auto
      with that lines \<open>rstrip (?scr ?j) = ?s\<close> \<open>\<And>x. rstrip (thread_line x) = thread_line x\<close> show ?thesis
        by (cases k) (simp_all add: nth_append)
    qed
    have empty_rows: "?scr' r = []" if "length (ls @ worker_lines w) \<le> r" for r
      using that lines rest \<open>\<And>r. r \<noteq> ?j \<Longrightarrow> ?scr r = scr r\<close> [of r] by simp
    have "shows_lines (ls @ worker_lines w) ?scr'"
      unfolding shows_lines_def
      by (intro conjI allI impI exI [of _ 0], erule rows, simp, subst empty_rows, simp, simp, rule empty_rows, simp)
    moreover have "draw_threads (wk_threads w) (?j + 1) 0 ?scr = (length (ls @ worker_lines w), length ?live, ?scr')"
      using threads False by (simp add: worker_lines_def Let_def)
    moreover have "length ?live \<noteq> 0" using False by simp
    ultimately show ?thesis
      using Cons.IH [of "ls @ worker_lines w" ?scr'] Cons.prems(2) by simp
  qed
qed



end
